(* ===== verification/Prelude.thy ===== *)
theory Prelude
  imports Main "HOL-Library.Word" "HOL-Library.Char_ord" "HOL-Library.List_Lexorder"
begin

text \<open>
  The vocabulary every component shares: machine types, the ways an operation can fail, the
  sequencing of fallible operations, and the little-endian byte layout that \<open>memcpy\<close> gives
  a 64-bit value. A C++ \<open>char\<close> is one byte, so a byte buffer and a \<open>std::string\<close> are both a
  \<^typ>\<open>char list\<close>.
\<close>

unbundle bit_operations_syntax

section \<open>Machine types\<close>

type_synonym bytes = "char list"
type_synonym uint64 = "64 word"
type_synonym int64 = "64 word"
type_synonym size_t = "64 word"
type_synonym int32 = "32 word"

text \<open>An address; \<open>NULL\<close> is the zero address.\<close>

type_synonym ptr = "64 word"

abbreviation NULL :: ptr where
  "NULL \<equiv> 0"

section \<open>Failures\<close>

text \<open>
  \<open>Boost_Assert\<close> is a failed \<open>BOOST_ASSERT\<close> or C \<open>assert\<close>, \<open>Check_Failed\<close> a failed
  \<open>GOOGLE_CHECK\<close>; both stop the process. \<open>Use_After_Free\<close> is an access through a pointer whose
  object has been deleted, \<open>Out_Of_Range\<close> an index past the end of a vector, \<open>Recv_Blocked\<close> a
  \<open>recv\<close> for which no frame is queued, \<open>Get_Blocked\<close> a \<open>manager::get()\<close> that waits for the end
  of a destruction that waits for the caller, \<open>Wait_Blocked\<close> a \<open>wait()\<close> on an event that nobody
  will signal. \<open>Zmq_Error\<close> is an exception of the cppzmq binding,
  \<open>Invalid_Message_Error\<close> and \<open>Rpc_Error\<close> are the library's own exceptions.
\<close>

datatype error =
    Boost_Assert
  | Check_Failed
  | Use_After_Free
  | Out_Of_Range
  | Recv_Blocked
  | Get_Blocked
  | Wait_Blocked
  | Zmq_Error
  | Invalid_Message_Error string
  | Rpc_Error int string

type_synonym 'a result = "error + 'a"

text \<open>\<open>BOOST_ASSERT(P); k\<close> and \<open>GOOGLE_CHECK(P); k\<close>.\<close>

abbreviation boost_assert :: "bool \<Rightarrow> 'a result \<Rightarrow> 'a result" where
  "boost_assert P k \<equiv> (if P then k else Inl Boost_Assert)"

abbreviation google_check :: "bool \<Rightarrow> 'a result \<Rightarrow> 'a result" where
  "google_check P k \<equiv> (if P then k else Inl Check_Failed)"

text \<open>Sequencing: run \<open>r\<close>, and continue with its value unless it failed.\<close>

definition bindE :: "'a result \<Rightarrow> ('a \<Rightarrow> 'b result) \<Rightarrow> 'b result" where
  "bindE r k = (case r of Inl e \<Rightarrow> Inl e | Inr x \<Rightarrow> k x)"

named_theorems result_simps "unfolding of sequenced results"
named_theorems frame_simps "fields an operation leaves alone"

lemma bindE_Inr [simp]: "bindE (Inr x) k = k x"
  by (simp add: bindE_def)

lemma bindE_Inl [simp]: "bindE (Inl e) k = Inl e"
  by (simp add: bindE_def)

lemma bindE_eq_Inr [result_simps]: "bindE r k = Inr y \<longleftrightarrow> (\<exists>x. r = Inr x \<and> k x = Inr y)"
  by (cases r) simp_all

lemma bindE_eq_Inl:
  "bindE r k = Inl e \<longleftrightarrow> r = Inl e \<or> (\<exists>x. r = Inr x \<and> k x = Inl e)"
  by (cases r) simp_all

lemma bindE_assoc: "bindE (bindE r f) g = bindE r (\<lambda>x. bindE (f x) g)"
  by (cases r) simp_all

lemma bindE_cong [fundef_cong]:
  "r = r' \<Longrightarrow> (\<And>x. r' = Inr x \<Longrightarrow> k x = k' x) \<Longrightarrow> bindE r k = bindE r' k'"
  by (cases r') simp_all

lemma if_Inl_eq_Inr [result_simps]: "(if P then r else Inl e) = Inr y \<longleftrightarrow> P \<and> r = Inr y"
  by simp

lemma Inl_if_eq_Inr [result_simps]: "(if P then Inl e else r) = Inr y \<longleftrightarrow> \<not> P \<and> r = Inr y"
  by simp

text \<open>\<open>ensures P r\<close>: if \<open>r\<close> is a value, the value satisfies \<open>P\<close>.\<close>

definition ensures :: "('a \<Rightarrow> bool) \<Rightarrow> 'a result \<Rightarrow> bool" where
  "ensures P r \<longleftrightarrow> (case r of Inl e \<Rightarrow> True | Inr x \<Rightarrow> P x)"

named_theorems ensures_intros "what an operation ensures, by its structure"

lemma ensuresD: "ensures P r \<Longrightarrow> r = Inr x \<Longrightarrow> P x"
  by (simp add: ensures_def)

lemma ensuresI: "(\<And>x. r = Inr x \<Longrightarrow> P x) \<Longrightarrow> ensures P r"
  by (cases r) (simp_all add: ensures_def)

lemma ensures_Inr [ensures_intros]: "P x \<Longrightarrow> ensures P (Inr x)"
  by (simp add: ensures_def)

lemma ensures_Inl [ensures_intros]: "ensures P (Inl e)"
  by (simp add: ensures_def)

lemma ensures_if [ensures_intros]:
  "(b \<Longrightarrow> ensures P r) \<Longrightarrow> (\<not> b \<Longrightarrow> ensures P r') \<Longrightarrow> ensures P (if b then r else r')"
  by simp

lemma ensures_case_prod [ensures_intros]:
  "(\<And>x y. e = (x, y) \<Longrightarrow> ensures P (k x y)) \<Longrightarrow> ensures P (case e of (x, y) \<Rightarrow> k x y)"
  by (cases e) simp

lemma ensures_bindE:
  "ensures Q r \<Longrightarrow> (\<And>x. Q x \<Longrightarrow> ensures P (k x)) \<Longrightarrow> ensures P (bindE r k)"
  by (cases r) (simp_all add: ensures_def)

lemma ensures_bindE_any: "(\<And>x. r = Inr x \<Longrightarrow> ensures P (k x)) \<Longrightarrow> ensures P (bindE r k)"
  by (cases r) (simp_all add: ensures_def)

text \<open>A fallible operation over every element of a list, threading a state.\<close>

fun foldE :: "('a \<Rightarrow> 's \<Rightarrow> 's result) \<Rightarrow> 'a list \<Rightarrow> 's \<Rightarrow> 's result" where
  "foldE f [] s = Inr s"
| "foldE f (x # xs) s = bindE (f x s) (foldE f xs)"

lemma bindE_foldE_Nil [simp]: "bindE r (foldE f []) = r"
  by (cases r) simp_all

lemma foldE_cong [fundef_cong]:
  assumes "xs = xs'" "s = s'" and "\<And>x t. x \<in> set xs' \<Longrightarrow> f x t = g x t"
  shows "foldE f xs s = foldE g xs' s'"
proof -
  have "foldE f xs' s' = foldE g xs' s'"
    using assms(3)
  proof (induction xs' arbitrary: s')
    case (Cons x xs')
    then show ?case by (cases "g x s'") simp_all
  qed simp
  with assms(1,2) show ?thesis by simp
qed

lemma foldE_append: "foldE f (xs @ ys) s = bindE (foldE f xs s) (foldE f ys)"
proof (induction xs arbitrary: s)
  case (Cons x xs)
  then show ?case by (cases "f x s") simp_all
qed simp

text \<open>What every successful step keeps, the whole run keeps.\<close>

lemma foldE_invariant:
  assumes "foldE f xs s = Inr t" and "I s"
    and "\<And>x u v. x \<in> set xs \<Longrightarrow> I u \<Longrightarrow> f x u = Inr v \<Longrightarrow> I v"
  shows "I t"
  using assms
proof (induction xs arbitrary: s)
  case (Cons x xs)
  then show ?case by (auto simp: result_simps)
qed simp

lemma ensures_foldE:
  assumes "\<And>x u. I u \<Longrightarrow> ensures I (f x u)" and "I s"
  shows "ensures I (foldE f xs s)"
  using assms(2)
proof (induction xs arbitrary: s)
  case (Cons x xs)
  show ?case using assms(1) [OF Cons.prems] Cons.IH by (auto intro: ensures_bindE)
qed (simp add: ensures_Inr)

lemma list_update_all: "\<forall>q \<in> set xs. P q \<Longrightarrow> P x \<Longrightarrow> \<forall>q \<in> set (xs[i := x]). P q"
  by (induction xs arbitrary: i) (auto split: nat.splits)

lemma nth_in_set_tl: "0 < i \<Longrightarrow> i < length xs \<Longrightarrow> xs ! i \<in> set (tl xs)"
  by (cases xs; cases i) auto

section \<open>Byte layout of integers\<close>

text \<open>The little-endian bytes of a value, and the value of a byte buffer.\<close>

fun le_bytes :: "nat \<Rightarrow> nat \<Rightarrow> bytes" where
  "le_bytes 0 n = []"
| "le_bytes (Suc k) n = char_of n # le_bytes k (n div 256)"

fun le_value :: "bytes \<Rightarrow> nat" where
  "le_value [] = 0"
| "le_value (c # cs) = of_char c + 256 * le_value cs"

lemma length_le_bytes [simp]: "length (le_bytes k n) = k"
  by (induction k arbitrary: n) simp_all

lemma le_value_le_bytes: "n < 256 ^ k \<Longrightarrow> le_value (le_bytes k n) = n"
proof (induction k arbitrary: n)
  case (Suc k)
  then have "n div 256 < 256 ^ k"
    by (simp add: less_mult_imp_div_less mult.commute)
  then show ?case
    using Suc.IH by simp
qed simp

lemma le_value_bound: "le_value bs < 256 ^ length bs"
proof (induction bs)
  case (Cons c bs)
  have "of_char c < (256 :: nat)" by simp
  moreover have "256 ^ length (c # bs) = 256 * (256 ^ length bs :: nat)" by simp
  ultimately show ?case using Cons.IH unfolding le_value.simps by linarith
qed simp

lemma le_bytes_le_value: "le_bytes (length bs) (le_value bs) = bs"
proof (induction bs)
  case (Cons c bs)
  have c: "of_char c < (256 :: nat)" by simp
  then have "(of_char c + 256 * le_value bs) div 256 = le_value bs" by simp
  moreover have "char_of (of_char c + 256 * le_value bs :: nat) = c"
    by (metis char_of_char char_of_mod_256 mod_mult_self2)
  ultimately show ?case using Cons.IH by simp
qed simp

definition uint64_bytes :: "uint64 \<Rightarrow> bytes" where
  "uint64_bytes v = le_bytes 8 (unat v)"

definition bytes_uint64 :: "bytes \<Rightarrow> uint64" where
  "bytes_uint64 bs = word_of_nat (le_value bs)"

lemma length_uint64_bytes [simp]: "length (uint64_bytes v) = 8"
  by (simp add: uint64_bytes_def)

lemma bytes_uint64_bytes [simp]: "bytes_uint64 (uint64_bytes v) = v"
proof -
  have "unat v < 256 ^ 8"
    using unsigned_less [of v] by simp
  then show ?thesis
    by (simp add: bytes_uint64_def uint64_bytes_def le_value_le_bytes)
qed

lemma uint64_bytes_inject [simp]: "uint64_bytes v = uint64_bytes w \<longleftrightarrow> v = w"
  by (metis bytes_uint64_bytes)

end
