(* ===== verification/Std_Map.thy ===== *)
theory Std_Map
  imports Prelude
begin

text \<open>
  The containers the program keeps its tables in. A \<open>std::map\<close> is a list of pairs with strictly
  increasing keys, because the program iterates over it in key order and takes
  \<open>upper_bound\<close>; a \<open>std::multimap\<close> is a list of pairs in insertion order, of which only the
  entries of one key are ever read together; a \<open>boost::unordered_map\<close> is a partial function.
  The interface \<open>lookup_table\<close> is what the components rely on, whichever container they use.
\<close>

section \<open>The interface\<close>

locale lookup_table =
  fixes empty :: "'m"
    and find :: "'m \<Rightarrow> 'k \<Rightarrow> 'v option"
    and insert :: "'k \<Rightarrow> 'v \<Rightarrow> 'm \<Rightarrow> 'm"
    and erase :: "'k \<Rightarrow> 'm \<Rightarrow> 'm"
    and ok :: "'m \<Rightarrow> bool"
  assumes find_empty: "find empty k = None"
    and find_insert: "ok m \<Longrightarrow> find (insert k v m) j = (if j = k then Some v else find m j)"
    and find_erase: "ok m \<Longrightarrow> find (erase k m) j = (if j = k then None else find m j)"
    and ok_empty: "ok empty"
    and ok_insert: "ok m \<Longrightarrow> ok (insert k v m)"
    and ok_erase: "ok m \<Longrightarrow> ok (erase k m)"
begin

lemma find_insert_same: "ok m \<Longrightarrow> find (insert k v m) k = Some v"
  by (simp add: find_insert)

lemma find_insert_other: "ok m \<Longrightarrow> j \<noteq> k \<Longrightarrow> find (insert k v m) j = find m j"
  by (simp add: find_insert)

text \<open>Replacing an entry by erasing it first and inserting it again.\<close>

lemma find_replace:
  "ok m \<Longrightarrow> find (insert k v (erase k m)) j = (if j = k then Some v else find m j)"
  by (simp add: find_insert find_erase ok_erase)

text \<open>An entry that is erased after it was used leaves the other entries as they were.\<close>

lemma find_erase_insert:
  "ok m \<Longrightarrow> find (erase k (insert k v m)) j = (if j = k then None else find m j)"
  by (simp add: find_insert find_erase ok_insert)

lemma erase_all_empty:
  assumes "ok m" and "\<And>k. find m k \<noteq> None \<Longrightarrow> k \<in> set ks"
  shows "find (foldr erase ks m) j = None \<and> ok (foldr erase ks m)"
proof -
  have "ok (foldr erase ks m) \<and>
      find (foldr erase ks m) j = (if j \<in> set ks then None else find m j)"
    using assms(1) by (induction ks) (auto simp: find_erase ok_erase)
  with assms(2) show ?thesis by (cases "find m j") auto
qed

end

section \<open>\<open>std::map\<close>\<close>

type_synonym ('k, 'v) std_map = "('k \<times> 'v) list"

fun map_insert :: "'k::linorder \<Rightarrow> 'v \<Rightarrow> ('k, 'v) std_map \<Rightarrow> ('k, 'v) std_map" where
  "map_insert k v [] = [(k, v)]"
| "map_insert k v ((j, w) # m) =
     (if j < k then (j, w) # map_insert k v m
      else if j = k then (k, v) # m
      else (k, v) # (j, w) # m)"

definition map_erase :: "'k \<Rightarrow> ('k, 'v) std_map \<Rightarrow> ('k, 'v) std_map" where
  "map_erase k m = [(j, w) \<leftarrow> m. j \<noteq> k]"

definition map_ok :: "('k::linorder, 'v) std_map \<Rightarrow> bool" where
  "map_ok m \<longleftrightarrow> sorted_wrt (<) (map fst m)"

text \<open>
  The entries before \<open>upper_bound(k)\<close> (keys at most \<open>k\<close>) and those from it on.
\<close>

definition map_upto :: "'k::linorder \<Rightarrow> ('k, 'v) std_map \<Rightarrow> ('k, 'v) std_map" where
  "map_upto k m = takeWhile (\<lambda>e. fst e \<le> k) m"

definition map_from_upper_bound :: "'k::linorder \<Rightarrow> ('k, 'v) std_map \<Rightarrow> ('k, 'v) std_map" where
  "map_from_upper_bound k m = dropWhile (\<lambda>e. fst e \<le> k) m"

lemma map_ok_Nil [simp]: "map_ok []"
  by (simp add: map_ok_def)

lemma map_ok_Cons: "map_ok ((k, v) # m) \<longleftrightarrow> (\<forall>j \<in> fst ` set m. k < j) \<and> map_ok m"
  by (auto simp: map_ok_def)

lemma map_of_map_insert: "map_of (map_insert k v m) = (map_of m)(k \<mapsto> v)"
  by (induction m) auto

lemma fst_map_insert: "fst ` set (map_insert k v m) = Set.insert k (fst ` set m)"
  unfolding dom_map_of_conv_image_fst [symmetric] map_of_map_insert by simp

lemma map_ok_distinct: "map_ok m \<Longrightarrow> distinct (map fst m)"
  by (induction m) (fastforce simp: map_ok_Cons)+

lemma map_ok_Some: "map_ok m \<Longrightarrow> (k, v) \<in> set m \<Longrightarrow> map_of m k = Some v"
  by (simp add: map_ok_distinct)

lemma map_ok_value: "map_ok m \<Longrightarrow> v \<in> snd ` set m \<Longrightarrow> \<exists>k. map_of m k = Some v"
  using map_ok_Some by fastforce

lemma map_ok_map_insert: "map_ok m \<Longrightarrow> map_ok (map_insert k v m)"
proof (induction m)
  case (Cons e m)
  obtain j w where "e = (j, w)" by (cases e)
  with Cons show ?case
    by (cases "j < k") (auto simp: map_ok_Cons fst_map_insert)
qed (simp add: map_ok_def)

lemma map_of_map_erase: "map_of (map_erase k m) j = (if j = k then None else map_of m j)"
  by (induction m) (auto simp: map_erase_def)

lemma set_map_insert: "set (map_insert k v m) \<subseteq> Set.insert (k, v) (set m)"
  by (induction k v m rule: map_insert.induct) auto

lemma distinct_map_insert:
  "distinct (map snd m) \<Longrightarrow> v \<notin> snd ` set m \<Longrightarrow> distinct (map snd (map_insert k v m))"
proof (induction k v m rule: map_insert.induct)
  case (2 k v j w m)
  then show ?case using set_map_insert [of k v m] by fastforce
qed simp

lemma map_ok_map_erase: "map_ok m \<Longrightarrow> map_ok (map_erase k m)"
  by (induction m) (auto simp: map_erase_def map_ok_Cons split: if_splits)

lemma map_insert_not_Nil [simp]: "map_insert k v m \<noteq> []"
  by (cases "(k, v, m)" rule: map_insert.cases) auto

interpretation smap: lookup_table
  "[] :: ('k::linorder, 'v) std_map" map_of map_insert map_erase map_ok
  by unfold_locales
    (simp_all add: map_of_map_insert map_of_map_erase map_ok_map_insert map_ok_map_erase)

lemma map_upto_append: "map_upto k m @ map_from_upper_bound k m = m"
  by (simp add: map_upto_def map_from_upper_bound_def)

lemma map_upto_key: "e \<in> set (map_upto k m) \<Longrightarrow> fst e \<le> k"
  unfolding map_upto_def by (rule set_takeWhileD [THEN conjunct2])

lemma map_from_upper_bound_key:
  assumes "map_ok m" and "e \<in> set (map_from_upper_bound k m)"
  shows "k < fst e"
  using assms
proof (induction m)
  case (Cons f m)
  then show ?case
    by (cases f) (fastforce simp: map_from_upper_bound_def map_ok_Cons split: if_splits)
qed (simp add: map_from_upper_bound_def)

lemma map_ok_map_from_upper_bound: "map_ok m \<Longrightarrow> map_ok (map_from_upper_bound k m)"
  unfolding map_ok_def map_from_upper_bound_def
  by (metis dropWhile_eq_drop drop_map sorted_wrt_drop)

text \<open>The entries at most \<open>k\<close> and those above it, told apart by the key alone.\<close>

lemma map_upto_eq_filter: "map_ok m \<Longrightarrow> map_upto k m = [e \<leftarrow> m. fst e \<le> k]"
proof (induction m)
  case (Cons f m)
  obtain j w where f: "f = (j, w)" by (cases f)
  show ?case
  proof (cases "j \<le> k")
    case True
    with Cons f show ?thesis by (simp add: map_upto_def map_ok_Cons)
  next
    case False
    with Cons.prems f have "\<forall>e \<in> set m. \<not> fst e \<le> k"
      by (force simp: map_ok_Cons)
    with False f show ?thesis by (simp add: map_upto_def)
  qed
qed (simp add: map_upto_def)

lemma map_from_upper_bound_eq_filter:
  "map_ok m \<Longrightarrow> map_from_upper_bound k m = [e \<leftarrow> m. k < fst e]"
proof (induction m)
  case (Cons f m)
  obtain j w where f: "f = (j, w)" by (cases f)
  show ?case
  proof (cases "j \<le> k")
    case True
    with Cons f show ?thesis by (simp add: map_from_upper_bound_def map_ok_Cons not_less)
  next
    case False
    with Cons.prems f have "\<forall>e \<in> set m. k < fst e"
      by (force simp: map_ok_Cons)
    with False f show ?thesis by (simp add: map_from_upper_bound_def)
  qed
qed (simp add: map_from_upper_bound_def)

lemma map_ok_filter: "map_ok m \<Longrightarrow> map_ok (filter P m)"
  by (induction m) (auto simp: map_ok_Cons)

text \<open>The entries from the first one above \<open>n\<close> on.\<close>

lemma filter_from_first:
  assumes "map_ok m" and "[e \<leftarrow> m. n < fst e] = (k, v) # r"
  shows "[e \<leftarrow> m. k \<le> fst e] = [e \<leftarrow> m. n < fst e]"
proof (rule filter_cong)
  fix e assume "e \<in> set m"
  have "(k, v) \<in> set [e \<leftarrow> m. n < fst e]" unfolding assms(2) by simp
  then have "n < k" by simp
  moreover have "k \<le> fst e" if "n < fst e"
  proof -
    have "e \<in> set [e \<leftarrow> m. n < fst e]" using \<open>e \<in> set m\<close> that by simp
    moreover have "map_ok ((k, v) # r)" using map_ok_filter [OF assms(1)] assms(2) by metis
    ultimately show ?thesis unfolding assms(2) by (auto simp: map_ok_Cons)
  qed
  ultimately show "k \<le> fst e \<longleftrightarrow> n < fst e" by auto
qed simp

section \<open>\<open>std::multimap\<close>\<close>

type_synonym ('k, 'v) std_multimap = "('k \<times> 'v) list"

definition mm_insert :: "'k \<Rightarrow> 'v \<Rightarrow> ('k, 'v) std_multimap \<Rightarrow> ('k, 'v) std_multimap" where
  "mm_insert k v m = m @ [(k, v)]"

definition mm_equal_range :: "'k \<Rightarrow> ('k, 'v) std_multimap \<Rightarrow> 'v list" where
  "mm_equal_range k m = map snd [e \<leftarrow> m. fst e = k]"

definition mm_erase :: "'k \<Rightarrow> ('k, 'v) std_multimap \<Rightarrow> ('k, 'v) std_multimap" where
  "mm_erase k m = [e \<leftarrow> m. fst e \<noteq> k]"

lemma mm_equal_range_empty: "mm_equal_range k m = [] \<longleftrightarrow> k \<notin> fst ` set m"
  by (auto simp: mm_equal_range_def filter_empty_conv)

lemma fst_mm_erase: "fst ` set (mm_erase k m) = fst ` set m - {k}"
  by (auto simp: mm_erase_def)

lemma mm_equal_range_erase:
  "j \<noteq> k \<Longrightarrow> mm_equal_range j (mm_erase k m) = mm_equal_range j m"
  by (induction m) (auto simp: mm_equal_range_def mm_erase_def)

lemma mm_erase_Nil [simp]: "mm_erase k [] = []"
  by (simp add: mm_erase_def)

section \<open>\<open>boost::unordered_map\<close>\<close>

interpretation umap: lookup_table
  "Map.empty" "\<lambda>m k. m k" "\<lambda>k v m. m(k \<mapsto> v)" "\<lambda>k m. m(k := None)" "\<lambda>m. True"
  by unfold_locales simp_all

end
