(* ===== verification/Zmq_Utils.thy ===== *)
theory Zmq_Utils
  imports Prelude
begin

text \<open>
  The ZeroMQ helpers of \<open>src/rpcz/zmq_utils.hpp\<close> and \<open>zmq_utils.cc\<close>. The library itself is not
  part of the program: a socket is what the program observes of it, the frames still to be
  received (each with its \<open>more()\<close> flag) and the calls of \<open>send\<close> made so far, in order. A
  \<open>recv\<close> on a socket with no frame left blocks, which is the error \<^const>\<open>Recv_Blocked\<close>.
\<close>

section \<open>Frames and sockets\<close>

record message =
  msg_data :: bytes
  msg_more :: bool

datatype socket_type = ZMQ_DEALER | ZMQ_ROUTER

record socket =
  sock_type :: socket_type
  sock_in :: "message list"
  sock_out :: "message list"
  sock_linger :: "int option"
  sock_sndhwm :: "int option"
  sock_bound :: "string list"
  sock_connected :: "string list"

definition new_socket_t :: "socket_type \<Rightarrow> socket" where
  "new_socket_t t = \<lparr>sock_type = t, sock_in = [], sock_out = [], sock_linger = None,
     sock_sndhwm = None, sock_bound = [], sock_connected = []\<rparr>"

type_synonym flags = int32

definition ZMQ_SNDMORE :: flags where
  "ZMQ_SNDMORE = 2"

definition sndmore :: "flags \<Rightarrow> bool" where
  "sndmore f \<longleftrightarrow> f AND ZMQ_SNDMORE \<noteq> 0"

lemma sndmore_SNDMORE [simp]: "sndmore ZMQ_SNDMORE"
  by (simp add: sndmore_def ZMQ_SNDMORE_def)

lemma sndmore_0 [simp]: "\<not> sndmore 0"
  by (simp add: sndmore_def)

lemma sndmore_or [simp]: "sndmore (f OR ZMQ_SNDMORE)"
  by (simp add: sndmore_def word_bw_comms(1) word_ao_absorbs ZMQ_SNDMORE_def)

definition frame :: "bytes \<Rightarrow> flags \<Rightarrow> message" where
  "frame d f = \<lparr>msg_data = d, msg_more = sndmore f\<rparr>"

lemma frame_sel [simp]: "msg_data (frame d f) = d" "msg_more (frame d f) = sndmore f"
  by (simp_all add: frame_def)

text \<open>\<open>socket->send(msg, flags)\<close>.\<close>

definition socket_send :: "bytes \<Rightarrow> flags \<Rightarrow> socket \<Rightarrow> socket" where
  "socket_send d f s = s\<lparr>sock_out := sock_out s @ [frame d f]\<rparr>"

definition socket_setsockopt_linger :: "int \<Rightarrow> socket \<Rightarrow> socket" where
  "socket_setsockopt_linger n s = s\<lparr>sock_linger := Some n\<rparr>"

definition socket_setsockopt_sndhwm :: "int \<Rightarrow> socket \<Rightarrow> socket" where
  "socket_setsockopt_sndhwm n s = s\<lparr>sock_sndhwm := Some n\<rparr>"

definition socket_bind :: "string \<Rightarrow> socket \<Rightarrow> socket" where
  "socket_bind e s = s\<lparr>sock_bound := sock_bound s @ [e]\<rparr>"

definition socket_connect :: "string \<Rightarrow> socket \<Rightarrow> socket" where
  "socket_connect e s = s\<lparr>sock_connected := sock_connected s @ [e]\<rparr>"

text \<open>
  A multipart message on the wire: every frame but the last announces another one.
  \<open>parts ds\<close> is such a message with the data \<open>ds\<close>.
\<close>

fun parts :: "bytes list \<Rightarrow> message list" where
  "parts [] = []"
| "parts [d] = [\<lparr>msg_data = d, msg_more = False\<rparr>]"
| "parts (d # ds) = \<lparr>msg_data = d, msg_more = True\<rparr> # parts ds"

fun whole :: "message list \<Rightarrow> bool" where
  "whole [] = False"
| "whole (m # ms) = (if msg_more m then whole ms else ms = [])"

lemma parts_Cons: "ds \<noteq> [] \<Longrightarrow> parts (d # ds) = \<lparr>msg_data = d, msg_more = True\<rparr> # parts ds"
  by (cases ds) simp_all

lemma whole_parts: "ds \<noteq> [] \<Longrightarrow> whole (parts ds)"
  by (induction ds rule: parts.induct) simp_all

lemma whole_eq_parts: "whole ms \<Longrightarrow> ms = parts (map msg_data ms)"
proof (induction ms)
  case (Cons m ms)
  then show ?case by (cases ms; cases m) (auto split: if_splits)
qed simp

lemma map_msg_data_parts [simp]: "map msg_data (parts ds) = ds"
  by (induction ds rule: parts.induct) simp_all

lemma length_parts [simp]: "length (parts ds) = length ds"
  by (induction ds rule: parts.induct) simp_all

section \<open>\<open>message_iterator\<close>\<close>

text \<open>
  The iterator holds a reference to its socket; here it holds the frames its socket has still to
  deliver, and the operation that made it writes the rest back when the iterator is destroyed.
\<close>

record message_iterator =
  it_socket :: "message list"
  it_message :: bytes
  it_has_more :: bool

definition message_iterator_new :: "message list \<Rightarrow> message_iterator" where
  "message_iterator_new ms = \<lparr>it_socket = ms, it_message = [], it_has_more = True\<rparr>"

definition has_more :: "message_iterator \<Rightarrow> bool" where
  "has_more it = it_has_more it"

definition next_msg :: "message_iterator \<Rightarrow> (bytes \<times> message_iterator) result" where
  "next_msg it =
     (case it_socket it of
        [] \<Rightarrow> Inl Recv_Blocked
      | m # ms \<Rightarrow> Inr (msg_data m,
          \<lparr>it_socket = ms, it_message = msg_data m, it_has_more = msg_more m\<rparr>))"

text \<open>\<open>~message_iterator() { while (has_more()) next(); }\<close>, as the frames left on the socket.\<close>

fun drain :: "bool \<Rightarrow> message list \<Rightarrow> message list result" where
  "drain False ms = Inr ms"
| "drain True [] = Inl Recv_Blocked"
| "drain True (m # ms) = drain (msg_more m) ms"

definition message_iterator_destroy :: "message_iterator \<Rightarrow> message list result" where
  "message_iterator_destroy it = drain (has_more it) (it_socket it)"

section \<open>\<open>message_vector\<close>\<close>

text \<open>A vector of nullable owned messages; a released slot is \<open>None\<close>.\<close>

type_synonym message_vector = "bytes option list"

definition mv_at :: "message_vector \<Rightarrow> nat \<Rightarrow> bytes result" where
  "mv_at v i = (if i < length v then
     (case v ! i of None \<Rightarrow> Inl Boost_Assert | Some d \<Rightarrow> Inr d) else Inl Out_Of_Range)"

definition mv_size :: "message_vector \<Rightarrow> nat" where
  "mv_size v = length v"

definition mv_transfer ::
  "nat \<Rightarrow> nat \<Rightarrow> message_vector \<Rightarrow> message_vector \<Rightarrow> (message_vector \<times> message_vector) result" where
  "mv_transfer f t other v =
     (if f \<le> t \<and> t \<le> length other
      then Inr (take (t - f) (drop f other) @ v, take f other @ drop t other)
      else Inl Out_Of_Range)"

definition mv_push_back :: "bytes \<Rightarrow> message_vector \<Rightarrow> message_vector" where
  "mv_push_back d v = v @ [Some d]"

definition mv_erase_first :: "message_vector \<Rightarrow> message_vector result" where
  "mv_erase_first v = (case v of [] \<Rightarrow> Inl Out_Of_Range | _ # v' \<Rightarrow> Inr v')"

definition mv_release :: "nat \<Rightarrow> message_vector \<Rightarrow> (bytes option \<times> message_vector) result" where
  "mv_release i v = (if i < length v then Inr (v ! i, v[i := None]) else Inl Out_Of_Range)"

section \<open>Reading and writing values\<close>

fun read_message_to_vector ::
  "message list \<Rightarrow> message_vector \<Rightarrow> (message list \<times> message_vector) result" where
  "read_message_to_vector [] v = Inl Recv_Blocked"
| "read_message_to_vector (m # ms) v =
     (let v' = mv_push_back (msg_data m) v
      in if msg_more m then read_message_to_vector ms v' else Inr (ms, v'))"

text \<open>The loop of \<open>write_vector_to_socket\<close> from index \<open>i\<close> on.\<close>

function write_vector_from :: "nat \<Rightarrow> message_vector \<Rightarrow> flags \<Rightarrow> socket \<Rightarrow> socket result" where
  "write_vector_from i v f s =
     (if i < mv_size v then
        bindE (mv_at v i) (\<lambda>d.
          write_vector_from (i + 1) v f
            (socket_send d (f OR (if i < mv_size v - 1 then ZMQ_SNDMORE else 0)) s))
      else Inr s)"
  by pat_completeness auto
termination
  by (relation "measure (\<lambda>(i, v, f, s). mv_size v - i)") auto

declare write_vector_from.simps [simp del]

definition write_vector_to_socket :: "message_vector \<Rightarrow> flags \<Rightarrow> socket \<Rightarrow> socket result" where
  "write_vector_to_socket v f s = write_vector_from 0 v f s"

definition message_to_string :: "bytes \<Rightarrow> string" where
  "message_to_string msg = take (length msg) msg"

definition string_to_message :: "string \<Rightarrow> bytes" where
  "string_to_message str = take (length str) str"

definition send_empty_message :: "flags \<Rightarrow> socket \<Rightarrow> socket" where
  "send_empty_message f s = socket_send [] f s"

definition send_string :: "string \<Rightarrow> flags \<Rightarrow> socket \<Rightarrow> socket" where
  "send_string str f s = socket_send (take (length str) str) f s"

definition send_uint64 :: "uint64 \<Rightarrow> flags \<Rightarrow> socket \<Rightarrow> socket" where
  "send_uint64 v f s = socket_send (uint64_bytes v) f s"

definition send_pointer :: "ptr \<Rightarrow> flags \<Rightarrow> socket \<Rightarrow> socket" where
  "send_pointer p f s = socket_send (uint64_bytes p) f s"

definition send_char :: "char \<Rightarrow> flags \<Rightarrow> socket \<Rightarrow> socket" where
  "send_char c f s = socket_send [c] f s"

text \<open>\<open>interpret_message<T>\<close> at the types the program uses it with.\<close>

definition interpret_uint64 :: "bytes \<Rightarrow> uint64 result" where
  "interpret_uint64 msg = boost_assert (length msg = 8) (Inr (bytes_uint64 msg))"

definition interpret_pointer :: "bytes \<Rightarrow> ptr result" where
  "interpret_pointer msg = boost_assert (length msg = 8) (Inr (bytes_uint64 msg))"

definition interpret_char :: "bytes \<Rightarrow> char result" where
  "interpret_char msg = boost_assert (length msg = 1) (Inr (hd msg))"

text \<open>\<open>forward_messages\<close>: every frame the iterator has left goes to the socket.\<close>

function forward_messages ::
  "message_iterator \<Rightarrow> socket \<Rightarrow> (message_iterator \<times> socket) result" where
  "forward_messages it s =
     (if has_more it then
        bindE (next_msg it) (\<lambda>(msg, it').
          forward_messages it'
            (socket_send msg (if has_more it' then ZMQ_SNDMORE else 0) s))
      else Inr (it, s))"
  by pat_completeness auto
termination
  by (relation "measure (\<lambda>(it, s). length (it_socket it))")
    (auto simp: next_msg_def split: list.splits)

declare forward_messages.simps [simp del]

section \<open>Lemmas\<close>

named_theorems send_simps "frames written by the send operations"

lemma socket_send_out [send_simps]: "sock_out (socket_send d f s) = sock_out s @ [frame d f]"
  by (simp add: socket_send_def)

lemma socket_send_in [frame_simps]: "sock_in (socket_send d f s) = sock_in s"
  by (simp add: socket_send_def)

lemma message_to_string [simp]: "message_to_string d = d"
  by (simp add: message_to_string_def)

lemma string_to_message [simp]: "string_to_message d = d"
  by (simp add: string_to_message_def)

lemmas send_defs = send_empty_message_def send_string_def send_uint64_def send_pointer_def
  send_char_def

lemma next_msg_Cons [simp]:
  "next_msg \<lparr>it_socket = m # ms, it_message = d, it_has_more = b\<rparr> =
     Inr (msg_data m, \<lparr>it_socket = ms, it_message = msg_data m, it_has_more = msg_more m\<rparr>)"
  by (simp add: next_msg_def)

lemma has_more_rec [simp]:
  "has_more \<lparr>it_socket = ms, it_message = d, it_has_more = b\<rparr> = b"
  by (simp add: has_more_def)

lemma next_msg_decreases:
  "next_msg it = Inr (d, it') \<Longrightarrow> length (it_socket it') < length (it_socket it)"
  by (auto simp: next_msg_def split: list.splits)

lemma interpret_uint64_bytes [simp]: "interpret_uint64 (uint64_bytes v) = Inr v"
  by (simp add: interpret_uint64_def)

lemma interpret_pointer_bytes [simp]: "interpret_pointer (uint64_bytes v) = Inr v"
  by (simp add: interpret_pointer_def)

lemma interpret_char_single [simp]: "interpret_char [c] = Inr c"
  by (simp add: interpret_char_def)

text \<open>
  The frames left after draining one message: a whole message that comes first is consumed
  exactly, and draining never needs a frame that is not there.
\<close>

lemma drain_whole: "whole ms \<Longrightarrow> drain True (ms @ rest) = Inr rest"
proof (induction ms)
  case (Cons m ms)
  then show ?case by (cases "msg_more m") auto
qed simp

lemma drain_suffix: "drain b ms = Inr rest \<Longrightarrow> \<exists>used. ms = used @ rest"
  by (induction b ms rule: drain.induct) auto

lemma drain_tail:
  assumes "whole (m # ms)"
  shows "drain (msg_more m) (ms @ rest) = Inr rest"
  using drain_whole [OF assms, of rest] by simp

text \<open>\<open>forward_messages\<close> copies the frames of a whole message, data and flags.\<close>

lemma forward_messages_done:
  "\<not> has_more it \<Longrightarrow> forward_messages it s = Inr (it, s)"
  by (subst forward_messages.simps) simp

lemma forward_messages_whole:
  assumes "whole ms" and "it_socket it = ms @ rest" and "it_has_more it"
  shows "\<exists>it'. forward_messages it s = Inr (it', s\<lparr>sock_out := sock_out s @ ms\<rparr>)
    \<and> it_socket it' = rest \<and> \<not> has_more it'"
  using assms
proof (induction ms arbitrary: it s)
  case (Cons m ms)
  let ?it = "\<lparr>it_socket = ms @ rest, it_message = msg_data m, it_has_more = msg_more m\<rparr>"
  let ?s = "socket_send (msg_data m) (if msg_more m then ZMQ_SNDMORE else 0) s"
  have nx: "next_msg it = Inr (msg_data m, ?it)" and hm: "has_more it"
    using Cons.prems by (simp_all add: next_msg_def has_more_def)
  have step: "forward_messages it s = forward_messages ?it ?s"
    by (subst forward_messages.simps) (simp add: nx hm)
  have send: "?s = s\<lparr>sock_out := sock_out s @ [m]\<rparr>"
    by (simp add: socket_send_def frame_def)
  show ?case
  proof (cases "msg_more m")
    case True
    with Cons.prems have "whole ms" by simp
    then obtain it' where "forward_messages ?it ?s = Inr (it', ?s\<lparr>sock_out := sock_out ?s @ ms\<rparr>)"
      "it_socket it' = rest" "\<not> has_more it'"
      using Cons.IH [of ?it ?s] True by auto
    then show ?thesis by (auto simp: step send)
  next
    case False
    with Cons.prems have "ms = []" by simp
    then have "forward_messages ?it ?s = Inr (?it, ?s)"
      using False by (intro forward_messages_done) simp
    then show ?thesis using \<open>ms = []\<close> False send by (simp add: step)
  qed
qed simp

text \<open>\<open>write_vector_to_socket\<close> with no flags sends the vector as one whole message.\<close>

lemma write_vector_from_parts:
  assumes "\<forall>x \<in> set (drop i v). x \<noteq> None" and "\<not> sndmore f"
  shows "write_vector_from i v f s =
    Inr (s\<lparr>sock_out := sock_out s @ parts (map the (drop i v))\<rparr>)"
  using assms
proof (induction i v f s rule: write_vector_from.induct)
  case (1 i v f s)
  show ?case
  proof (cases "i < length v")
    case True
    then have dr: "drop i v = v ! i # drop (i + 1) v" by (simp add: Cons_nth_drop_Suc)
    with "1.prems" obtain d where d: "v ! i = Some d" by auto
    let ?fl = "f OR (if i < mv_size v - 1 then ZMQ_SNDMORE else 0)"
    have more: "sndmore ?fl = (drop (i + 1) v \<noteq> [])"
      using "1.prems"(2) True by (auto simp: mv_size_def)
    have at: "mv_at v i = Inr d" using True d by (simp add: mv_at_def)
    have "write_vector_from (i + 1) v f (socket_send d ?fl s) =
      Inr ((socket_send d ?fl s)\<lparr>sock_out := sock_out (socket_send d ?fl s)
        @ parts (map the (drop (i + 1) v))\<rparr>)"
      using "1.IH" [of d] "1.prems" True at dr by (simp add: mv_size_def)
    then show ?thesis
      using True at d more
      by (subst write_vector_from.simps)
        (cases "drop (i + 1) v", auto simp: dr mv_size_def socket_send_def frame_def parts_Cons)
  next
    case False
    then show ?thesis by (subst write_vector_from.simps) (simp add: mv_size_def)
  qed
qed

lemma write_vector_to_socket_parts:
  "write_vector_to_socket (map Some ds) 0 s = Inr (s\<lparr>sock_out := sock_out s @ parts ds\<rparr>)"
  unfolding write_vector_to_socket_def
  by (subst write_vector_from_parts) (simp_all add: comp_def)

text \<open>Reading a message into a vector and writing that vector give the same frames back.\<close>

lemma read_message_to_vector_whole:
  "whole ms \<Longrightarrow> read_message_to_vector (ms @ rest) v =
     Inr (rest, v @ map (Some \<circ> msg_data) ms)"
proof (induction ms arbitrary: v)
  case (Cons m ms)
  then show ?case by (cases "msg_more m") (auto simp: Let_def mv_push_back_def)
qed simp

lemma read_write_vector:
  assumes "whole ms"
  shows "\<exists>v. read_message_to_vector (ms @ rest) [] = Inr (rest, v)
    \<and> write_vector_to_socket v 0 s = Inr (s\<lparr>sock_out := sock_out s @ ms\<rparr>)"
proof -
  have "write_vector_to_socket (map Some (map msg_data ms)) 0 s =
      Inr (s\<lparr>sock_out := sock_out s @ ms\<rparr>)"
    using write_vector_to_socket_parts [of "map msg_data ms" s] whole_eq_parts [OF assms] by simp
  then show ?thesis
    using read_message_to_vector_whole [OF assms, of rest "[]"] by simp
qed

end
