(* ===== verification/Reactor.thy ===== *)
theory Reactor
  imports Std_Map Zmq_Utils "HOL-Library.Multiset" "HOL-Library.Sublist"
begin

text \<open>
  \<open>src/rpcz/reactor.hpp\<close> and \<open>reactor.cc\<close>: the event loop of the broker thread. The reactor owns
  sockets and the closures to run when one becomes readable, closures to run at a time, and the
  sockets to delete before the next poll. Its owner's state extends the reactor's record, so that
  a closure can change both; running a closure is the parameter \<open>run\<close> of the operations.
  \<open>zmq_poll\<close> and the clock are inputs of an iteration of the loop.
\<close>

section \<open>State\<close>

text \<open>
  The sockets that exist, by address, and the closures deleted so far, in order.
\<close>

record 'c zmq_heap =
  zsocks :: "ptr \<Rightarrow> socket option"
  deleted_closures :: "'c list"

record pollitem =
  pi_socket :: ptr
  pi_events :: "16 word"
  pi_revents :: "16 word"

record 'c reactor = "'c zmq_heap" +
  should_quit :: bool
  is_dirty :: bool
  r_sockets :: "(ptr \<times> 'c) list"
  r_del_sockets :: "(ptr, 'c) std_multimap"
  r_pollitems :: "pollitem list"
  r_closure_run_map :: "(uint64, 'c list) std_map"

definition ZMQ_POLLIN :: "16 word" where
  "ZMQ_POLLIN = 1"

text \<open>
  What one round of \<open>zmq_poll\<close> and the clock give: the time, the return code with \<open>zmq_errno()\<close>,
  the \<open>revents\<close> found in each poll item afterwards, and the frames that have arrived meanwhile.
\<close>

datatype zmq_errno = EFAULT | ETERM | Other_Errno

record poll_result =
  pr_now :: uint64
  pr_rc :: int
  pr_errno :: zmq_errno
  pr_revents :: "nat \<Rightarrow> 16 word"
  pr_arrivals :: "ptr \<Rightarrow> message list"

section \<open>Access through pointers\<close>

definition deref_socket :: "ptr \<Rightarrow> ('c, 'z) zmq_heap_scheme \<Rightarrow> socket result" where
  "deref_socket p st = (case zsocks st p of None \<Rightarrow> Inl Use_After_Free | Some s \<Rightarrow> Inr s)"

definition on_socket ::
  "ptr \<Rightarrow> (socket \<Rightarrow> socket result) \<Rightarrow> ('c, 'z) zmq_heap_scheme \<Rightarrow> ('c, 'z) zmq_heap_scheme result" where
  "on_socket p f st = bindE (deref_socket p st) (\<lambda>s. bindE (f s) (\<lambda>s'.
     Inr (st\<lparr>zsocks := (zsocks st)(p \<mapsto> s')\<rparr>)))"

text \<open>\<open>delete socket\<close> and \<open>delete callback\<close>.\<close>

definition delete_socket :: "ptr \<Rightarrow> ('c, 'z) zmq_heap_scheme \<Rightarrow> ('c, 'z) zmq_heap_scheme result" where
  "delete_socket p st =
     (if p = NULL then Inr st
      else bindE (deref_socket p st) (\<lambda>_. Inr (st\<lparr>zsocks := (zsocks st)(p := None)\<rparr>)))"

definition delete_closure :: "'c \<Rightarrow> ('c, 'z) zmq_heap_scheme \<Rightarrow> ('c, 'z) zmq_heap_scheme" where
  "delete_closure c st = st\<lparr>deleted_closures := deleted_closures st @ [c]\<rparr>"

section \<open>Operations\<close>

text \<open>The constructor leaves \<open>is_dirty_\<close> as the memory was: the argument.\<close>

definition new_reactor :: "bool \<Rightarrow> 'c reactor" where
  "new_reactor uninitialised = \<lparr>zsocks = Map.empty, deleted_closures = [], should_quit = False,
     is_dirty = uninitialised, r_sockets = [], r_del_sockets = [], r_pollitems = [],
     r_closure_run_map = []\<rparr>"

definition delete_container_pointers ::
  "'c list \<Rightarrow> ('c, 'z) zmq_heap_scheme \<Rightarrow> ('c, 'z) zmq_heap_scheme" where
  "delete_container_pointers cs st = foldl (\<lambda>st c. delete_closure c st) st cs"

definition delete_container_pair_pointers ::
  "(ptr \<times> 'c) list \<Rightarrow> ('c, 'z) zmq_heap_scheme \<Rightarrow> ('c, 'z) zmq_heap_scheme result" where
  "delete_container_pair_pointers ps st =
     foldE (\<lambda>(s, c) st. bindE (delete_socket s st) (\<lambda>st. Inr (delete_closure c st))) ps st"

definition reactor_destroy :: "('c, 'z) reactor_scheme \<Rightarrow> ('c, 'z) reactor_scheme result" where
  "reactor_destroy st =
     bindE (delete_container_pair_pointers (r_sockets st) st) (\<lambda>st.
       Inr (foldl (\<lambda>st e. delete_container_pointers (snd e) st) st (r_closure_run_map st)))"

definition reactor_add_socket :: "ptr \<Rightarrow> 'c \<Rightarrow> ('c, 'z) reactor_scheme \<Rightarrow> ('c, 'z) reactor_scheme" where
  "reactor_add_socket socket closure st =
     st\<lparr>r_sockets := r_sockets st @ [(socket, closure)], is_dirty := True\<rparr>"

definition reactor_del_socket :: "ptr \<Rightarrow> 'c \<Rightarrow> ('c, 'z) reactor_scheme \<Rightarrow> ('c, 'z) reactor_scheme" where
  "reactor_del_socket socket callback st =
     st\<lparr>r_del_sockets := mm_insert socket callback (r_del_sockets st), is_dirty := True\<rparr>"

definition reactor_run_closure_at ::
  "uint64 \<Rightarrow> 'c \<Rightarrow> ('c, 'z) reactor_scheme \<Rightarrow> ('c, 'z) reactor_scheme" where
  "reactor_run_closure_at timestamp closure st =
     st\<lparr>r_closure_run_map := map_insert timestamp
         ((case map_of (r_closure_run_map st) timestamp of None \<Rightarrow> [] | Some v \<Rightarrow> v) @ [closure])
         (r_closure_run_map st)\<rparr>"

definition set_should_quit :: "('c, 'z) reactor_scheme \<Rightarrow> ('c, 'z) reactor_scheme" where
  "set_should_quit st = st\<lparr>should_quit := True\<rparr>"

text \<open>
  The loop of \<open>process_del_sockets\<close> at index \<open>i\<close>, \<open>n\<close> being \<open>nSize\<close>: a deleted entry is
  overwritten with the last one, which the loop has already looked at.
\<close>

primrec process_del_from ::
  "('c \<Rightarrow> ('c, 'z) reactor_scheme \<Rightarrow> ('c, 'z) reactor_scheme result) \<Rightarrow> nat \<Rightarrow> nat
    \<Rightarrow> ('c, 'z) reactor_scheme \<Rightarrow> ('c, 'z) reactor_scheme result" where
  "process_del_from run 0 n st = Inr st"
| "process_del_from run (Suc j) n st =
     (if length (r_sockets st) \<le> Suc j then Inl Out_Of_Range else
      let (socket, callback) = r_sockets st ! Suc j;
          r = mm_equal_range socket (r_del_sockets st)
      in if r = [] then process_del_from run j n st
         else
           bindE (delete_socket socket st) (\<lambda>st.
           let st = delete_closure callback st;
               n = n - 1;
               st = st\<lparr>r_sockets := butlast ((r_sockets st)[Suc j := r_sockets st ! n])\<rparr>
           in boost_assert (n = length (r_sockets st)) (
              bindE (foldE run r st) (\<lambda>st.
              let st = st\<lparr>r_del_sockets := mm_erase socket (r_del_sockets st)\<rparr>
              in if r_del_sockets st = [] then Inr st else process_del_from run j n st))))"

definition process_del_sockets ::
  "('c \<Rightarrow> ('c, 'z) reactor_scheme \<Rightarrow> ('c, 'z) reactor_scheme result)
    \<Rightarrow> ('c, 'z) reactor_scheme \<Rightarrow> ('c, 'z) reactor_scheme result" where
  "process_del_sockets run st =
     (if r_del_sockets st = [] then Inr st
      else if r_sockets st = [] then Inr st
      else let n = length (r_sockets st) in process_del_from run (n - 1) n st)"

definition rebuild_poll_items ::
  "('c \<Rightarrow> ('c, 'z) reactor_scheme \<Rightarrow> ('c, 'z) reactor_scheme result)
    \<Rightarrow> ('c, 'z) reactor_scheme \<Rightarrow> ('c, 'z) reactor_scheme result" where
  "rebuild_poll_items run st =
     bindE (process_del_sockets run st) (\<lambda>st.
     let st = st\<lparr>r_del_sockets := []\<rparr> in
     bindE (foldE (\<lambda>e st. bindE (deref_socket (fst e) st) (\<lambda>_. Inr st)) (r_sockets st) st) (\<lambda>st.
     Inr (st\<lparr>r_pollitems :=
       map (\<lambda>e. \<lparr>pi_socket = fst e, pi_events = ZMQ_POLLIN, pi_revents = 0\<rparr>) (r_sockets st)\<rparr>)))"

text \<open>
  \<open>process_closure_run_map\<close>: the iterator \<open>ub\<close> is taken before the closures run and used
  again afterwards, to compute the timeout and to erase everything in front of it.
\<close>

definition process_closure_run_map ::
  "('c \<Rightarrow> ('c, 'z) reactor_scheme \<Rightarrow> ('c, 'z) reactor_scheme result) \<Rightarrow> uint64
    \<Rightarrow> ('c, 'z) reactor_scheme \<Rightarrow> (int64 \<times> ('c, 'z) reactor_scheme) result" where
  "process_closure_run_map run now_ms st =
     (let due = map_upto now_ms (r_closure_run_map st);
          ub = map_from_upper_bound now_ms (r_closure_run_map st)
      in bindE (foldE run (concat (map snd due)) st) (\<lambda>st.
         Inr (case ub of
                [] \<Rightarrow> (- 1, st\<lparr>r_closure_run_map := []\<rparr>)
              | (k, _) # _ \<Rightarrow> (k - now_ms,
                  st\<lparr>r_closure_run_map := [e \<leftarrow> r_closure_run_map st. k \<le> fst e]\<rparr>))))"

text \<open>\<open>zmq_poll\<close>: what it leaves in the poll items and on the sockets.\<close>

definition zmq_poll ::
  "poll_result \<Rightarrow> ('c, 'z) reactor_scheme \<Rightarrow> ('c, 'z) reactor_scheme" where
  "zmq_poll pr st = st\<lparr>
     r_pollitems := map (\<lambda>i. (r_pollitems st ! i)\<lparr>pi_revents := pr_revents pr i\<rparr>)
       [0..<length (r_pollitems st)],
     zsocks := (\<lambda>p. map_option (\<lambda>s. s\<lparr>sock_in := sock_in s @ pr_arrivals pr p\<rparr>) (zsocks st p))\<rparr>"

text \<open>The loop over the poll items.\<close>

definition run_ready ::
  "('c \<Rightarrow> ('c, 'z) reactor_scheme \<Rightarrow> ('c, 'z) reactor_scheme result)
    \<Rightarrow> ('c, 'z) reactor_scheme \<Rightarrow> ('c, 'z) reactor_scheme result" where
  "run_ready run st =
     foldE (\<lambda>i st.
        if length (r_pollitems st) \<le> i then Inr st
        else if pi_revents (r_pollitems st ! i) AND ZMQ_POLLIN \<noteq> 0 then
          (if length (r_sockets st) \<le> i then Inl Out_Of_Range
           else run (snd (r_sockets st ! i)) st)
        else Inr st)
      [0..<length (r_pollitems st)] st"

text \<open>One iteration: \<open>Some rc\<close> when \<open>loop()\<close> returns \<open>rc\<close>, and the timeout given to the poll.\<close>

definition loop_iteration ::
  "('c \<Rightarrow> ('c, 'z) reactor_scheme \<Rightarrow> ('c, 'z) reactor_scheme result) \<Rightarrow> poll_result
    \<Rightarrow> ('c, 'z) reactor_scheme \<Rightarrow> (int option \<times> int64 \<times> ('c, 'z) reactor_scheme) result" where
  "loop_iteration run pr st =
     bindE (if is_dirty st
            then bindE (rebuild_poll_items run st) (\<lambda>st. Inr (st\<lparr>is_dirty := False\<rparr>))
            else Inr st) (\<lambda>st.
     bindE (process_closure_run_map run (pr_now pr) st) (\<lambda>(poll_timeout_ms, st).
     let st = zmq_poll pr st in
     if pr_rc pr = - 1 \<and> pr_errno pr = EFAULT then Inl Check_Failed
     else if pr_rc pr = - 1 \<and> pr_errno pr = ETERM then Inr (Some (- 1), poll_timeout_ms, st)
     else bindE (run_ready run st) (\<lambda>st. Inr (None, poll_timeout_ms, st))))"

text \<open>
  \<open>loop()\<close> over the rounds the environment grants, each with what the closures find in their
  own environment; \<open>None\<close> when it is still running after them.
\<close>

fun reactor_loop ::
  "(('c \<Rightarrow> ('c, 'z) reactor_scheme \<Rightarrow> ('c, 'z) reactor_scheme result) \<times> poll_result) list
    \<Rightarrow> ('c, 'z) reactor_scheme \<Rightarrow> (int option \<times> ('c, 'z) reactor_scheme) result" where
  "reactor_loop [] st = Inr (if should_quit st then Some 0 else None, st)"
| "reactor_loop ((run, pr) # rounds) st =
     (if should_quit st then Inr (Some 0, st)
      else bindE (loop_iteration run pr st) (\<lambda>(rc, _, st).
        case rc of Some r \<Rightarrow> Inr (Some r, st) | None \<Rightarrow> reactor_loop rounds st))"

section \<open>Lemmas that need no closure\<close>

lemma deref_socket_eq_Inr [result_simps]: "deref_socket p st = Inr s \<longleftrightarrow> zsocks st p = Some s"
  by (auto simp: deref_socket_def split: option.splits)

lemma deref_socket_Some: "zsocks st p = Some s \<Longrightarrow> deref_socket p st = Inr s"
  by (simp add: deref_socket_def)

lemma on_socket_eq_Inr [result_simps]:
  "on_socket p f st = Inr st' \<longleftrightarrow>
     (\<exists>s s'. zsocks st p = Some s \<and> f s = Inr s' \<and> st' = st\<lparr>zsocks := (zsocks st)(p \<mapsto> s')\<rparr>)"
  by (auto simp: on_socket_def result_simps)

lemma on_socket_Some:
  "zsocks st p = Some s \<Longrightarrow> on_socket p f st =
     bindE (f s) (\<lambda>s'. Inr (st\<lparr>zsocks := (zsocks st)(p \<mapsto> s')\<rparr>))"
  by (simp add: on_socket_def deref_socket_def)

lemma delete_socket_eq_Inr [result_simps]:
  "delete_socket p st = Inr st' \<longleftrightarrow>
     (if p = NULL then st' = st
      else zsocks st p \<noteq> None \<and> st' = st\<lparr>zsocks := (zsocks st)(p := None)\<rparr>)"
  by (auto simp: delete_socket_def result_simps)

lemma delete_twice:
  "p \<noteq> NULL \<Longrightarrow> delete_socket p st = Inr st' \<Longrightarrow> delete_socket p st' = Inl Use_After_Free"
  by (auto simp: delete_socket_def deref_socket_def split: option.splits)

lemma run_closure_at_ok:
  "map_ok (r_closure_run_map st) \<Longrightarrow> map_ok (r_closure_run_map (reactor_run_closure_at t c st))"
  by (simp add: reactor_run_closure_at_def map_ok_map_insert)

definition closures_at :: "('c, 'z) reactor_scheme \<Rightarrow> uint64 \<Rightarrow> 'c list" where
  "closures_at st t = (case map_of (r_closure_run_map st) t of None \<Rightarrow> [] | Some v \<Rightarrow> v)"

lemma closures_at_run_closure_at:
  "closures_at (reactor_run_closure_at t c st) u =
     (if u = t then closures_at st t @ [c] else closures_at st u)"
  by (simp add: closures_at_def reactor_run_closure_at_def map_of_map_insert)

text \<open>The swap-with-last removal, as a list.\<close>

lemma swap_remove:
  assumes "i < length xs"
  shows "butlast (xs[i := xs ! (length xs - 1)]) =
    take i xs @ (case drop (Suc i) xs of [] \<Rightarrow> [] | z # zs \<Rightarrow> last (z # zs) # butlast (z # zs))"
proof (cases "drop (Suc i) xs")
  case Nil
  with assms have "i = length xs - 1" by simp
  with assms Nil show ?thesis by (simp add: butlast_conv_take)
next
  case (Cons z zs)
  then have "Suc i < length xs"
    by (metis drop_all leI list.distinct(1))
  have "xs ! (length xs - 1) = last (drop (Suc i) xs)"
    using \<open>Suc i < length xs\<close> by (metis last_conv_nth last_drop list.size(3) not_less_zero)
  moreover have "xs[i := w] = take i xs @ w # drop (Suc i) xs" for w
    using assms by (simp add: upd_conv_take_nth_drop)
  ultimately show ?thesis using Cons by (simp add: butlast_append)
qed

lemma swap_remove_set:
  assumes "0 < i" "i < length xs" "distinct (map fst xs)"
    and "ys = butlast (xs[i := xs ! (length xs - 1)])"
  shows "length ys = length xs - 1" "hd ys = hd xs" "distinct (map fst ys)"
    "set (tl ys) = {e \<in> set (tl xs). fst e \<noteq> fst (xs ! i)}"
    "set (drop i ys) = set (drop (Suc i) xs)"
proof -
  define zs where "zs = drop (Suc i) xs"
  define rs where "rs = (case zs of [] \<Rightarrow> [] | z # zs' \<Rightarrow> last (z # zs') # butlast (z # zs'))"
  have ys: "ys = take i xs @ rs"
    using assms(2,4) swap_remove by (simp add: rs_def zs_def)
  have xs: "xs = take i xs @ xs ! i # zs"
    using assms(2) by (simp add: zs_def id_take_nth_drop)
  have mrs: "mset rs = mset zs"
  proof (cases zs)
    case (Cons z zs')
    then have "mset zs = mset (butlast (z # zs') @ [last (z # zs')])"
      by (simp only: append_butlast_last_id list.distinct not_False_eq_True)
    also have "\<dots> = mset (last (z # zs') # butlast (z # zs'))"
      by simp
    finally show ?thesis using Cons by (simp add: rs_def)
  qed (simp add: rs_def)
  then have srs: "set rs = set zs" and lrs: "length rs = length zs"
    by (metis set_mset_mset, metis size_mset)
  obtain x t where t: "take i xs = x # t"
    using assms(1,2) by (cases "take i xs") auto
  have d: "distinct (map fst (take i xs @ xs ! i # zs))"
    using assms(3) xs by simp
  have "mset (map fst (take i xs @ rs)) = mset (map fst (take i xs @ zs))"
    using mrs by simp
  moreover have "distinct (map fst (take i xs @ zs))"
    using d by auto
  ultimately show "distinct (map fst ys)"
    unfolding ys by (metis mset_eq_imp_distinct_iff)
  show "length ys = length xs - 1"
    using assms(2) by (simp add: ys lrs zs_def)
  show "hd ys = hd xs"
    by (metis t xs append_Cons list.sel(1) ys)
  define e where "e = xs ! i"
  have "tl xs = t @ e # zs"
    unfolding e_def by (metis xs t append_Cons list.sel(3))
  then have "set (tl xs) = insert e (set t \<union> set zs)" by auto
  moreover have "set (tl ys) = set t \<union> set zs"
    by (simp add: ys t srs)
  moreover have "fst e \<notin> fst ` (set t \<union> set zs)"
    using d unfolding t e_def [symmetric] by auto
  then have "\<forall>f \<in> set t \<union> set zs. fst f \<noteq> fst e"
    by (metis image_eqI)
  ultimately show "set (tl ys) = {e \<in> set (tl xs). fst e \<noteq> fst (xs ! i)}"
    unfolding e_def [symmetric] by auto
  show "set (drop i ys) = set (drop (Suc i) xs)"
    using assms(2) by (simp add: ys srs zs_def)
qed

section \<open>What the reactor asks of its closures\<close>

text \<open>
  \<open>sockets_ok\<close>: every registered socket exists and is registered once. \<open>aligned\<close>: unless a
  rebuild is due, the poll items are those of the registered sockets, position by position.
  \<open>quiet_frame\<close>: what a closure passed to \<open>del_socket\<close> leaves as it was.
\<close>

definition sockets_ok :: "('c, 'z) reactor_scheme \<Rightarrow> bool" where
  "sockets_ok st \<longleftrightarrow> distinct (map fst (r_sockets st))
     \<and> (\<forall>e \<in> set (r_sockets st). fst e \<noteq> NULL \<and> zsocks st (fst e) \<noteq> None)"

definition aligned :: "('c, 'z) reactor_scheme \<Rightarrow> bool" where
  "aligned st \<longleftrightarrow> length (r_pollitems st) \<le> length (r_sockets st)
     \<and> map pi_socket (r_pollitems st) = map fst (take (length (r_pollitems st)) (r_sockets st))"

definition quiet_frame :: "('c, 'z) reactor_scheme \<Rightarrow> ('c, 'z) reactor_scheme \<Rightarrow> bool" where
  "quiet_frame st st' \<longleftrightarrow> should_quit st' = should_quit st \<and> is_dirty st' = is_dirty st
     \<and> r_sockets st' = r_sockets st \<and> r_del_sockets st' = r_del_sockets st
     \<and> r_pollitems st' = r_pollitems st \<and> r_closure_run_map st' = r_closure_run_map st
     \<and> reactor.more st' = reactor.more st \<and> dom (zsocks st') = dom (zsocks st)"

lemma quiet_frame_refl: "quiet_frame st st"
  by (simp add: quiet_frame_def)

lemma quiet_frame_trans: "quiet_frame st st' \<Longrightarrow> quiet_frame st' st'' \<Longrightarrow> quiet_frame st st''"
  by (simp add: quiet_frame_def)

lemma sockets_ok_quiet_frame: "quiet_frame st st' \<Longrightarrow> sockets_ok st \<Longrightarrow> sockets_ok st'"
  unfolding quiet_frame_def sockets_ok_def by (auto simp: domIff [symmetric])

abbreviation del_keys :: "('c, 'z) reactor_scheme \<Rightarrow> ptr set" where
  "del_keys st \<equiv> fst ` set (r_del_sockets st)"

text \<open>
  \<open>without_socket\<close>: one socket is gone, by the swap with the last entry. \<open>swept\<close>: exactly the marked
  sockets are gone, except the one at index 0, which the loop never looks at.
\<close>

definition same_rest :: "('c, 'z) reactor_scheme \<Rightarrow> ('c, 'z) reactor_scheme \<Rightarrow> bool" where
  "same_rest st st' \<longleftrightarrow> reactor.more st' = reactor.more st \<and> r_pollitems st' = r_pollitems st
     \<and> r_closure_run_map st' = r_closure_run_map st \<and> is_dirty st' = is_dirty st
     \<and> should_quit st' = should_quit st"

definition without_socket :: "ptr \<Rightarrow> ('c, 'z) reactor_scheme \<Rightarrow> ('c, 'z) reactor_scheme \<Rightarrow> bool" where
  "without_socket p st st' \<longleftrightarrow> length (r_sockets st') = length (r_sockets st) - 1
     \<and> hd (r_sockets st') = hd (r_sockets st)
     \<and> set (tl (r_sockets st')) = {e \<in> set (tl (r_sockets st)). fst e \<noteq> p}
     \<and> r_del_sockets st' = mm_erase p (r_del_sockets st) \<and> sockets_ok st' \<and> same_rest st st'
     \<and> dom (zsocks st') = dom (zsocks st) - {p}"

definition swept :: "('c, 'z) reactor_scheme \<Rightarrow> ('c, 'z) reactor_scheme \<Rightarrow> bool" where
  "swept st st' \<longleftrightarrow> r_sockets st' \<noteq> [] \<and> hd (r_sockets st') = hd (r_sockets st)
     \<and> set (tl (r_sockets st')) = {e \<in> set (tl (r_sockets st)). fst e \<notin> del_keys st}
     \<and> sockets_ok st' \<and> same_rest st st'
     \<and> dom (zsocks st') = dom (zsocks st) - (del_keys st \<inter> fst ` set (tl (r_sockets st)))"

lemma swept_nothing:
  assumes "r_sockets st \<noteq> []" "sockets_ok st" "\<forall>e \<in> set (tl (r_sockets st)). fst e \<notin> del_keys st"
  shows "swept st st"
proof -
  have "K \<inter> fst ` T = {} \<and> {e \<in> T. fst e \<notin> K} = T"
    if "\<forall>e \<in> T. fst e \<notin> K" for K and T :: "(ptr \<times> 'a) set"
    using that by auto
  from this [OF assms(3)] show ?thesis using assms(1,2) by (simp add: swept_def same_rest_def)
qed

lemma hd_key_other:
  assumes "distinct (map fst xs)" "Suc j < length xs"
  shows "hd xs \<in> set xs" "fst (hd xs) \<noteq> fst (xs ! Suc j)"
proof -
  obtain x ys where xs: "xs = x # ys" using assms(2) by (cases xs) auto
  with assms(2) have "ys ! j \<in> set ys" by simp
  then have key: "fst (ys ! j) \<in> fst ` set ys" by (rule imageI)
  have "fst x \<notin> fst ` set ys" using assms(1) xs by simp
  with key have "fst x \<noteq> fst (ys ! j)" by metis
  then show "hd xs \<in> set xs" "fst (hd xs) \<noteq> fst (xs ! Suc j)" by (simp_all add: xs)
qed

lemma swept_without_socket:
  assumes w: "without_socket p st st2" and p: "p \<in> del_keys st" "p \<in> fst ` set (tl (r_sockets st))"
    and s: "swept st2 st'"
  shows "swept st st'"
proof -
  have keys: "del_keys st2 = del_keys st - {p}" using w by (simp add: without_socket_def fst_mm_erase)
  have tl: "set (tl (r_sockets st2)) = {e \<in> set (tl (r_sockets st)). fst e \<noteq> p}"
    using w by (simp add: without_socket_def)
  then have fst_tl: "fst ` set (tl (r_sockets st2)) = fst ` set (tl (r_sockets st)) - {p}" by force
  have sets: "(D - {p}) - ((K - {p}) \<inter> (F - {p})) = D - (K \<inter> F)"
    "{e \<in> {e \<in> T. fst e \<noteq> p}. fst e \<notin> K - {p}} = {e \<in> T. fst e \<notin> K}"
    if "p \<in> K" "p \<in> F" for D K F :: "ptr set" and T :: "(ptr \<times> 'a) set"
    using that by auto
  have "set (tl (r_sockets st')) = {e \<in> set (tl (r_sockets st)). fst e \<notin> del_keys st}"
    using s sets(2) [OF p] by (simp add: swept_def keys tl)
  moreover have "dom (zsocks st') = dom (zsocks st) - (del_keys st \<inter> fst ` set (tl (r_sockets st)))"
    using s w sets(1) [OF p] by (simp add: swept_def without_socket_def keys fst_tl)
  ultimately show ?thesis
    using s w by (simp add: swept_def without_socket_def same_rest_def)
qed

lemma swap_remove_ok:
  assumes "sockets_ok st" "Suc j < length (r_sockets st)"
    and "r_sockets st2 = butlast ((r_sockets st)[Suc j := r_sockets st ! (length (r_sockets st) - 1)])"
    and "dom (zsocks st2) = dom (zsocks st) - {fst (r_sockets st ! Suc j)}"
  shows "sockets_ok st2"
proof -
  let ?xs = "r_sockets st" and ?p = "fst (r_sockets st ! Suc j)"
  have dist: "distinct (map fst ?xs)" using assms(1) by (simp add: sockets_ok_def)
  note sr = swap_remove_set [OF _ assms(2) dist assms(3), simplified]
  have "r_sockets st2 \<noteq> []" using sr(1) assms(2) by (cases "r_sockets st2") auto
  then have in_xs: "\<forall>e \<in> set (r_sockets st2). e \<in> set ?xs \<and> fst e \<noteq> ?p"
  proof (cases "r_sockets st2")
    case (Cons y zs)
    have "set (tl ?xs) \<subseteq> set ?xs" by (cases ?xs) auto
    with sr(2,4) Cons hd_key_other [OF dist assms(2)] show ?thesis by auto
  qed simp
  have "fst e \<noteq> NULL \<and> zsocks st2 (fst e) \<noteq> None" if e: "e \<in> set (r_sockets st2)" for e
  proof -
    have "fst e \<noteq> NULL" "fst e \<in> dom (zsocks st) - {?p}"
      using in_xs e assms(1) by (auto simp: sockets_ok_def)
    then show ?thesis unfolding assms(4) [symmetric] by blast
  qed
  with sr(3) show ?thesis by (simp add: sockets_ok_def)
qed

text \<open>
  The laws a client's closures obey. \<open>anchor\<close> is the socket the closures of \<open>del_socket\<close> write
  to; it must exist for them to run.
\<close>

locale reactor_client =
  fixes run :: "'c \<Rightarrow> ('c, 'z) reactor_scheme \<Rightarrow> ('c, 'z) reactor_scheme result"
    and quiet :: "'c \<Rightarrow> bool"
    and anchor :: "'z \<Rightarrow> ptr"
  assumes run_pollitems: "run c st = Inr st' \<Longrightarrow> r_pollitems st' = r_pollitems st"
    and run_grows: "run c st = Inr st' \<Longrightarrow> prefix (r_sockets st) (r_sockets st')"
    and run_dirty: "run c st = Inr st' \<Longrightarrow>
        is_dirty st' \<or> \<not> is_dirty st \<and> r_sockets st' = r_sockets st"
    and quiet_runs: "quiet c \<Longrightarrow> zsocks st (anchor (reactor.more st)) \<noteq> None \<Longrightarrow>
        \<exists>st'. run c st = Inr st' \<and> quiet_frame st st'"
begin

lemma foldE_quiet:
  assumes "\<forall>c \<in> set cs. quiet c" and "zsocks st (anchor (reactor.more st)) \<noteq> None"
  shows "\<exists>st'. foldE run cs st = Inr st' \<and> quiet_frame st st'"
  using assms
proof (induction cs arbitrary: st)
  case (Cons c cs)
  then obtain st1 where 1: "run c st = Inr st1" "quiet_frame st st1"
    using quiet_runs by (metis list.set_intros(1))
  then have "zsocks st1 (anchor (reactor.more st1)) \<noteq> None"
    using Cons.prems(2) by (metis domIff quiet_frame_def)
  then obtain st2 where "foldE run cs st1 = Inr st2" "quiet_frame st1 st2"
    using Cons.IH Cons.prems(1) by force
  with 1 show ?case using quiet_frame_trans by auto
qed (simp add: quiet_frame_refl)

text \<open>
  One turn of the loop that finds its socket marked: the socket and its callback are gone, the
  closures waiting for it have run, and the loop goes on with one entry less.
\<close>

lemma process_del_step:
  fixes st :: "('c, 'z) reactor_scheme"
  defines "xs \<equiv> r_sockets st"
  assumes "Suc j < length xs" and ok: "sockets_ok st"
    and key: "fst (xs ! Suc j) \<in> del_keys st"
    and quiet: "\<forall>c \<in> snd ` set (r_del_sockets st). quiet c"
    and hd: "fst (hd xs) = anchor (reactor.more st)"
  obtains st2 where
    "process_del_from run (Suc j) (length xs) st =
       (if r_del_sockets st2 = [] then Inr st2 else process_del_from run j (length xs - 1) st2)"
    "without_socket (fst (xs ! Suc j)) st st2"
    "set (drop (Suc j) (r_sockets st2)) = set (drop (Suc (Suc j)) xs)"
proof -
  obtain p c where pc: "xs ! Suc j = (p, c)" by (cases "xs ! Suc j")
  have "(p, c) \<in> set xs" using assms(2) pc by (metis nth_mem)
  then have p: "p \<noteq> NULL" "zsocks st p \<noteq> None" using ok unfolding sockets_ok_def xs_def by force+
  define ys where "ys = butlast (xs[Suc j := xs ! (length xs - 1)])"
  have dist: "distinct (map fst xs)" using ok by (simp add: sockets_ok_def xs_def)
  note sr = swap_remove_set [OF _ assms(2) dist ys_def, simplified]
  define st1 where "st1 = (delete_closure c (st\<lparr>zsocks := (zsocks st)(p := None)\<rparr>))\<lparr>r_sockets := ys\<rparr>"
  have f1: "r_sockets st1 = ys" "r_del_sockets st1 = r_del_sockets st" "same_rest st st1"
    "zsocks st1 = (zsocks st)(p := None)"
    by (simp_all add: st1_def delete_closure_def same_rest_def)
  have "hd xs \<in> set xs" "fst (hd xs) \<noteq> p" using hd_key_other [OF dist assms(2)] pc by simp_all
  then have anchor: "zsocks st1 (anchor (reactor.more st1)) \<noteq> None"
    using ok hd f1(3,4) unfolding sockets_ok_def xs_def same_rest_def by force
  let ?r = "mm_equal_range p (r_del_sockets st)"
  have r: "?r \<noteq> []" using key pc by (simp add: mm_equal_range_empty)
  have "\<forall>c \<in> set ?r. quiet c" using quiet by (auto simp: mm_equal_range_def)
  then obtain st1' where st1': "foldE run ?r st1 = Inr st1'" "quiet_frame st1 st1'"
    using foldE_quiet anchor by blast
  define st2 where "st2 = st1'\<lparr>r_del_sockets := mm_erase p (r_del_sockets st)\<rparr>"
  have f2: "r_sockets st2 = ys" "same_rest st st2" "r_del_sockets st2 = mm_erase p (r_del_sockets st)"
    "dom (zsocks st2) = dom (zsocks st) - {p}"
    using st1'(2) f1 by (auto simp: st2_def quiet_frame_def same_rest_def)
  have "sockets_ok st2"
    by (rule swap_remove_ok [OF ok, of j]) (use assms(2) f2(1,4) in \<open>simp_all add: xs_def ys_def pc [unfolded xs_def]\<close>)
  with f2 sr pc have "without_socket (fst (xs ! Suc j)) st st2" by (simp add: without_socket_def xs_def)
  moreover have del: "delete_socket p st = Inr (st\<lparr>zsocks := (zsocks st)(p := None)\<rparr>)"
    using p by (simp add: result_simps)
  have "process_del_from run (Suc j) (length xs) st =
      (if r_del_sockets st2 = [] then Inr st2 else process_del_from run j (length xs - 1) st2)"
    using assms(2) r st1'(1) sr(1) f1(1,2) st1'(2) pc
    by (simp add: del xs_def [symmetric] delete_closure_def st1_def ys_def st2_def Let_def quiet_frame_def)
  ultimately show ?thesis using that [of st2] f2(1) sr(5) by simp
qed

text \<open>The whole loop, whatever the order the sockets were marked in.\<close>

lemma process_del_from_correct:
  assumes "j < length (r_sockets st)" and "sockets_ok st"
    and "\<forall>c \<in> snd ` set (r_del_sockets st). quiet c"
    and "fst (hd (r_sockets st)) = anchor (reactor.more st)"
    and "\<forall>e \<in> set (drop (Suc j) (r_sockets st)). fst e \<notin> del_keys st"
  shows "\<exists>st'. process_del_from run j (length (r_sockets st)) st = Inr st' \<and> swept st st'"
  using assms
proof (induction j arbitrary: st)
  case 0
  then show ?case using swept_nothing [of st] by (cases "r_sockets st") simp_all
next
  case (Suc j)
  let ?xs = "r_sockets st"
  let ?p = "fst (?xs ! Suc j)"
  show ?case
  proof (cases "?p \<in> del_keys st")
    case False
    then have "process_del_from run (Suc j) (length ?xs) st = process_del_from run j (length ?xs) st"
      using Suc.prems(1) by (simp add: split_beta mm_equal_range_empty)
    moreover have "\<forall>e \<in> set (drop (Suc j) ?xs). fst e \<notin> del_keys st"
      using Suc.prems(1,5) False by (simp add: Cons_nth_drop_Suc [symmetric])
    ultimately show ?thesis using Suc.IH [of st] Suc.prems by simp
  next
    case True
    obtain st2 where eq: "process_del_from run (Suc j) (length ?xs) st =
        (if r_del_sockets st2 = [] then Inr st2 else process_del_from run j (length ?xs - 1) st2)"
      and w: "without_socket ?p st st2"
      and d: "set (drop (Suc j) (r_sockets st2)) = set (drop (Suc (Suc j)) ?xs)"
      using process_del_step [OF Suc.prems(1,2) True Suc.prems(3,4)] by blast
    have "?xs ! Suc j \<in> set (tl ?xs)" using Suc.prems(1) by (intro nth_in_set_tl) simp_all
    then have sweeps: "swept st st'" if "swept st2 st'" for st'
      using swept_without_socket [OF w True _ that] by blast
    have len: "length (r_sockets st2) = length ?xs - 1" using w by (simp add: without_socket_def)
    have ok: "sockets_ok st2" "r_sockets st2 \<noteq> []"
      using w len Suc.prems(1) by (auto simp: without_socket_def)
    show ?thesis
    proof (cases "r_del_sockets st2 = []")
      case True
      then show ?thesis using sweeps [OF swept_nothing [OF ok(2,1)]] unfolding eq by simp
    next
      case False
      have "\<exists>st'. process_del_from run j (length (r_sockets st2)) st2 = Inr st' \<and> swept st2 st'"
      proof (rule Suc.IH [OF _ ok(1)])
        show "j < length (r_sockets st2)" using Suc.prems(1) len by simp
        show "\<forall>c \<in> snd ` set (r_del_sockets st2). quiet c"
          using Suc.prems(3) w by (auto simp: without_socket_def mm_erase_def)
        show "fst (hd (r_sockets st2)) = anchor (reactor.more st2)"
          using Suc.prems(4) w by (simp add: without_socket_def same_rest_def)
        show "\<forall>e \<in> set (drop (Suc j) (r_sockets st2)). fst e \<notin> del_keys st2"
          using Suc.prems(5) w unfolding d by (auto simp: without_socket_def fst_mm_erase)
      qed
      then show ?thesis unfolding eq using False len sweeps by auto
    qed
  qed
qed

lemma process_del_sockets_correct:
  assumes "sockets_ok st" and "r_sockets st \<noteq> []"
    and "\<forall>c \<in> snd ` set (r_del_sockets st). quiet c"
    and "fst (hd (r_sockets st)) = anchor (reactor.more st)"
  shows "\<exists>st'. process_del_sockets run st = Inr st' \<and> swept st st'"
proof (cases "r_del_sockets st = []")
  case True
  with assms swept_nothing [of st] show ?thesis by (simp add: process_del_sockets_def)
next
  case False
  with assms show ?thesis
    unfolding process_del_sockets_def Let_def
    using process_del_from_correct [of "length (r_sockets st) - 1" st] by simp
qed

lemma deref_all_ok:
  "\<forall>e \<in> set es. zsocks st (fst e) \<noteq> None \<Longrightarrow>
     foldE (\<lambda>e st. bindE (deref_socket (fst e) st) (\<lambda>_. Inr st)) es st = Inr st"
  by (induction es) (auto simp: deref_socket_def)

text \<open>
  A rebuild: the poll items are then those of the remaining sockets, and none is marked.
\<close>

lemma rebuild_poll_items_correct:
  assumes "sockets_ok st" and "r_sockets st \<noteq> []"
    and "\<forall>c \<in> snd ` set (r_del_sockets st). quiet c"
    and "fst (hd (r_sockets st)) = anchor (reactor.more st)"
  shows "\<exists>st'. rebuild_poll_items run st = Inr st'
    \<and> r_sockets st' \<noteq> [] \<and> hd (r_sockets st') = hd (r_sockets st)
    \<and> set (tl (r_sockets st')) = {e \<in> set (tl (r_sockets st)). fst e \<notin> del_keys st}
    \<and> sockets_ok st' \<and> aligned st' \<and> length (r_pollitems st') = length (r_sockets st')
    \<and> r_del_sockets st' = [] \<and> reactor.more st' = reactor.more st
    \<and> r_closure_run_map st' = r_closure_run_map st
    \<and> is_dirty st' = is_dirty st \<and> should_quit st' = should_quit st
    \<and> dom (zsocks st') = dom (zsocks st) - (del_keys st \<inter> fst ` set (tl (r_sockets st)))"
proof -
  obtain st1 where "process_del_sockets run st = Inr st1" "swept st st1"
    using process_del_sockets_correct [OF assms] by blast
  note 1 = this(1) this(2) [unfolded swept_def same_rest_def]
  define st2 where "st2 = st1\<lparr>r_del_sockets := [], r_pollitems :=
    map (\<lambda>e. \<lparr>pi_socket = fst e, pi_events = ZMQ_POLLIN, pi_revents = 0\<rparr>) (r_sockets st1)\<rparr>"
  have live: "\<forall>e \<in> set (r_sockets st1). zsocks (st1\<lparr>r_del_sockets := []\<rparr>) (fst e) \<noteq> None"
    using 1(2) by (simp add: sockets_ok_def)
  have "rebuild_poll_items run st = Inr st2"
    unfolding rebuild_poll_items_def 1(1) st2_def using deref_all_ok [OF live] by simp
  moreover have "aligned st2"
    by (simp add: aligned_def st2_def comp_def)
  ultimately show ?thesis
    using 1 by (simp add: st2_def sockets_ok_def)
qed

lemma aligned_zmq_poll: "aligned (zmq_poll pr st) = aligned st"
proof -
  have "map pi_socket (map (\<lambda>i. (r_pollitems st ! i)\<lparr>pi_revents := pr_revents pr i\<rparr>)
      [0..<length (r_pollitems st)]) = map pi_socket (r_pollitems st)"
    by (rule nth_equalityI) simp_all
  then show ?thesis by (simp add: aligned_def zmq_poll_def)
qed

lemma run_aligned: "run c st = Inr st' \<Longrightarrow> aligned st \<Longrightarrow> aligned st'"
  using run_pollitems [of c st st'] run_grows [of c st st']
  by (auto simp: aligned_def prefix_def)

lemma foldE_run_aligned:
  assumes "foldE run cs st = Inr st'" and "aligned st"
  shows "aligned st'"
  using foldE_invariant [where I = aligned, OF assms] run_aligned by blast

text \<open>
  While the loop dispatches, every index below the number of poll items is an index of
  \<open>sockets_\<close>, and the entry there is still the one the poll item was made from: the closure that
  runs is the one registered for the socket that is readable.
\<close>

definition ready_step :: "nat \<Rightarrow> ('c, 'z) reactor_scheme \<Rightarrow> ('c, 'z) reactor_scheme result" where
  "ready_step i st =
     (if length (r_pollitems st) \<le> i then Inr st
      else if pi_revents (r_pollitems st ! i) AND ZMQ_POLLIN \<noteq> 0 then
        (if length (r_sockets st) \<le> i then Inl Out_Of_Range
         else run (snd (r_sockets st ! i)) st)
      else Inr st)"

lemma run_ready_eq: "run_ready run st = foldE ready_step [0..<length (r_pollitems st)] st"
  by (simp add: run_ready_def ready_step_def [abs_def])

lemma ready_step_in_range:
  assumes "aligned st"
  shows "ready_step i st =
     (if i < length (r_pollitems st) \<and> pi_revents (r_pollitems st ! i) AND ZMQ_POLLIN \<noteq> 0
      then run (snd (r_sockets st ! i)) st else Inr st)"
  using assms by (auto simp: ready_step_def aligned_def)

lemma ready_step_keeps:
  assumes "ready_step i st = Inr st'" and "aligned st"
  shows "aligned st' \<and> r_pollitems st' = r_pollitems st \<and> prefix (r_sockets st) (r_sockets st')"
  using assms run_aligned run_pollitems run_grows
  by (auto simp: ready_step_in_range split: if_splits)

lemma ready_fold_runs:
  assumes "aligned st" and "n \<le> length (r_pollitems st)"
    and "foldE ready_step [0..<n] st = Inr st'"
  shows "foldE run (map (\<lambda>i. snd (r_sockets st ! i))
      [i \<leftarrow> [0..<n]. pi_revents (r_pollitems st ! i) AND ZMQ_POLLIN \<noteq> 0]) st = Inr st'
    \<and> aligned st' \<and> r_pollitems st' = r_pollitems st \<and> prefix (r_sockets st) (r_sockets st')"
  using assms(2,3)
proof (induction n arbitrary: st')
  case 0
  with assms(1) show ?case by simp
next
  case (Suc n)
  from Suc.prems(2) obtain st1 where 1: "foldE ready_step [0..<n] st = Inr st1"
    "ready_step n st1 = Inr st'"
    by (auto simp: foldE_append result_simps)
  from Suc.IH [OF _ 1(1)] Suc.prems(1)
  have IH: "foldE run (map (\<lambda>i. snd (r_sockets st ! i))
      [i \<leftarrow> [0..<n]. pi_revents (r_pollitems st ! i) AND ZMQ_POLLIN \<noteq> 0]) st = Inr st1"
    "aligned st1" "r_pollitems st1 = r_pollitems st" "prefix (r_sockets st) (r_sockets st1)"
    by simp_all
  have nth: "r_sockets st1 ! n = r_sockets st ! n"
    using IH(4) assms(1) Suc.prems(1) by (auto simp: prefix_def aligned_def nth_append)
  from ready_step_keeps [OF 1(2) IH(2)] IH(3,4)
  have keeps: "aligned st'" "r_pollitems st' = r_pollitems st"
    "prefix (r_sockets st) (r_sockets st')"
    by (auto intro: prefix_order.trans)
  show ?case
    using IH 1(2) nth Suc.prems(1) keeps
    by (auto simp: foldE_append ready_step_in_range split: if_splits)
qed

lemma run_ready_dispatch:
  assumes "aligned st" and "run_ready run st = Inr st'"
  shows "foldE run (map (\<lambda>i. snd (r_sockets st ! i))
      [i \<leftarrow> [0..<length (r_pollitems st)].
         pi_revents (r_pollitems st ! i) AND ZMQ_POLLIN \<noteq> 0]) st = Inr st'
    \<and> aligned st'"
  using ready_fold_runs [OF assms(1) order_refl assms(2) [unfolded run_ready_eq]] by blast

lemma run_ready_in_range:
  assumes "aligned st" and "\<And>c st. run c st \<noteq> Inl Out_Of_Range"
  shows "run_ready run st \<noteq> Inl Out_Of_Range"
proof -
  have "aligned u \<Longrightarrow> foldE ready_step is u \<noteq> Inl Out_Of_Range" for u "is"
  proof (induction "is" arbitrary: u)
    case (Cons i "is")
    then show ?case
      using assms(2) ready_step_keeps [of i u]
      by (cases "ready_step i u") (auto simp: ready_step_in_range split: if_splits)
  qed simp
  with assms(1) show ?thesis by (simp add: run_ready_eq)
qed

end

section \<open>Timers\<close>

text \<open>
  Closures that schedule nothing themselves: with them, a pass over the run map runs the
  closures that are due, earliest first, each once, and keeps the later ones.
\<close>

locale reactor_timers = reactor_client +
  fixes timer :: "'a \<Rightarrow> bool"
  assumes timer_runs: "timer c \<Longrightarrow> run c st = Inr st' \<Longrightarrow>
      r_closure_run_map st' = r_closure_run_map st"
begin

lemma foldE_timers:
  assumes "foldE run cs st = Inr st'" and "\<forall>c \<in> set cs. timer c"
  shows "r_closure_run_map st' = r_closure_run_map st"
  using assms
proof (induction cs arbitrary: st)
  case (Cons c cs)
  then obtain st1 where "run c st = Inr st1" "foldE run cs st1 = Inr st'"
    by (auto simp: result_simps)
  with Cons show ?case by (metis list.set_intros timer_runs)
qed simp

lemma process_closure_run_map_timers:
  assumes "map_ok (r_closure_run_map st)"
    and "\<forall>cs \<in> snd ` set (r_closure_run_map st). \<forall>c \<in> set cs. timer c"
    and "process_closure_run_map run now st = Inr (timeout, st')"
  shows "r_closure_run_map st' = [e \<leftarrow> r_closure_run_map st. now < fst e]"
    and "\<exists>st1. foldE run (concat (map snd [e \<leftarrow> r_closure_run_map st. fst e \<le> now])) st = Inr st1
      \<and> st' = st1\<lparr>r_closure_run_map := [e \<leftarrow> r_closure_run_map st. now < fst e]\<rparr>"
    and "timeout = (case [e \<leftarrow> r_closure_run_map st. now < fst e] of [] \<Rightarrow> - 1
      | e # _ \<Rightarrow> fst e - now)"
proof -
  let ?m = "r_closure_run_map st"
  let ?cs = "concat (map snd [e \<leftarrow> ?m. fst e \<le> now])"
  note up = map_upto_eq_filter [OF assms(1), of now]
    map_from_upper_bound_eq_filter [OF assms(1), of now]
  obtain st1 where 1: "foldE run ?cs st = Inr st1"
    and res: "(timeout, st') = (case [e \<leftarrow> ?m. now < fst e] of
        [] \<Rightarrow> (- 1, st1\<lparr>r_closure_run_map := []\<rparr>)
      | (k, _) # _ \<Rightarrow> (k - now, st1\<lparr>r_closure_run_map :=
          [e \<leftarrow> r_closure_run_map st1. k \<le> fst e]\<rparr>))"
    using assms(3) unfolding process_closure_run_map_def Let_def up
    by (auto simp: result_simps)
  have m1: "r_closure_run_map st1 = ?m"
  proof (rule foldE_timers [OF 1], rule ballI)
    fix c assume "c \<in> set ?cs"
    then obtain e where "e \<in> set ?m" "c \<in> set (snd e)" by auto
    with assms(2) show "timer c" by simp
  qed
  show tm: "timeout = (case [e \<leftarrow> ?m. now < fst e] of [] \<Rightarrow> - 1 | e # _ \<Rightarrow> fst e - now)"
    using res by (auto split: list.splits prod.splits)
  have st': "st' = st1\<lparr>r_closure_run_map := [e \<leftarrow> ?m. now < fst e]\<rparr>"
  proof (cases "[e \<leftarrow> ?m. now < fst e]")
    case (Cons e r)
    obtain k v where e: "e = (k, v)" by (cases e)
    with filter_from_first [OF assms(1)] Cons have "[e \<leftarrow> ?m. k \<le> fst e] = [e \<leftarrow> ?m. now < fst e]"
      by metis
    then show ?thesis using res m1 Cons e by simp
  qed (use res in simp)
  then show "\<exists>st1. foldE run ?cs st = Inr st1
      \<and> st' = st1\<lparr>r_closure_run_map := [e \<leftarrow> ?m. now < fst e]\<rparr>"
    and "r_closure_run_map st' = [e \<leftarrow> ?m. now < fst e]"
    using 1 by auto
qed

end

end
