(* ===== verification/Callback.thy ===== *)
theory Callback
  imports Prelude
begin

text \<open>
  \<open>include/rpcz/callback.hpp\<close>: a closure is a function or method with its arguments bound, and
  the flag \<open>self_deleting_\<close>. The classes of that file, one pair for every number of arguments,
  differ in the bound call alone; here the call is of any type \<open>'c\<close>, and \<open>invoke\<close> is what
  calling it does. \<open>delete this\<close> is the parameter \<open>delete\<close>.
\<close>

record 'c closure =
  bound_call :: 'c
  self_deleting :: bool

definition new_callback :: "'c \<Rightarrow> 'c closure" where
  "new_callback c = \<lparr>bound_call = c, self_deleting = True\<rparr>"

definition new_permanent_callback :: "'c \<Rightarrow> 'c closure" where
  "new_permanent_callback c = \<lparr>bound_call = c, self_deleting = False\<rparr>"

definition closure_run ::
  "('c \<Rightarrow> 's \<Rightarrow> 's result) \<Rightarrow> ('c closure \<Rightarrow> 's \<Rightarrow> 's) \<Rightarrow> 'c closure \<Rightarrow> 's \<Rightarrow> 's result" where
  "closure_run invoke delete cl st =
     (let needs_delete = self_deleting cl
      in bindE (invoke (bound_call cl) st) (\<lambda>st.
         Inr (if needs_delete then delete cl st else st)))"

lemma closure_sel [simp]:
  "bound_call (new_callback c) = c" "self_deleting (new_callback c)"
  "bound_call (new_permanent_callback c) = c" "\<not> self_deleting (new_permanent_callback c)"
  by (simp_all add: new_callback_def new_permanent_callback_def)

lemma closure_run_callback:
  "closure_run invoke delete (new_callback c) st =
     bindE (invoke c st) (\<lambda>st. Inr (delete (new_callback c) st))"
  by (simp add: closure_run_def)

lemma bindE_Inr_id [simp]: "bindE r (\<lambda>x. Inr x) = r"
  by (cases r) simp_all

lemma closure_run_permanent:
  "closure_run invoke delete (new_permanent_callback c) st = invoke c st"
  by (simp add: closure_run_def)

text \<open>What the call and the deletion both keep, a run keeps.\<close>

lemma closure_run_keeps:
  assumes "closure_run invoke delete cl st = Inr st'"
    and "\<And>st'. invoke (bound_call cl) st = Inr st' \<Longrightarrow> R st st'"
    and "\<And>st'. R st st' \<Longrightarrow> R st (delete cl st')"
  shows "R st st'"
  using assms by (auto simp: closure_run_def result_simps)

end
