(* ===== verification/Connection_Info.thy ===== *)
theory Connection_Info
  imports Zmq_Utils
begin

text \<open>
  \<open>src/rpcz/connection_info.hpp\<close>, its hash (\<open>connection_info_hash.hpp\<close>) and its encoding as
  ZeroMQ frames (\<open>connection_info_zmq.hpp\<close>). The encoding is stated against the interface
  \<open>frame_codec\<close>: what is written with some flags is read back, and the reader stops exactly
  where the writer did. Every value the broker's commands carry is an instance of it.
\<close>

section \<open>The structure\<close>

record connection_info =
  ci_is_router :: bool
  ci_index :: uint64
  ci_sender :: string

definition connection_info_default :: connection_info where
  "connection_info_default = \<lparr>ci_is_router = False, ci_index = 0, ci_sender = []\<rparr>"

definition connection_info_router :: "uint64 \<Rightarrow> string \<Rightarrow> connection_info" where
  "connection_info_router router_index sndr =
     \<lparr>ci_is_router = True, ci_index = router_index, ci_sender = sndr\<rparr>"

definition connection_info_dealer :: "uint64 \<Rightarrow> connection_info" where
  "connection_info_dealer dealer_index =
     \<lparr>ci_is_router = False, ci_index = dealer_index, ci_sender = []\<rparr>"

definition connection_info_eq :: "connection_info \<Rightarrow> connection_info \<Rightarrow> bool" where
  "connection_info_eq lhs rhs \<longleftrightarrow>
     ci_is_router lhs = ci_is_router rhs
     \<and> ci_index lhs = ci_index rhs
     \<and> ci_sender lhs = ci_sender rhs"

lemma connection_info_eq_iff: "connection_info_eq a b \<longleftrightarrow> a = b"
  by (auto simp: connection_info_eq_def)

text \<open>A dealer connection has no sender: what the constructors establish.\<close>

definition info_wf :: "connection_info \<Rightarrow> bool" where
  "info_wf i \<longleftrightarrow> (\<not> ci_is_router i \<longrightarrow> ci_sender i = [])"

lemma info_wf_intros [simp]:
  "info_wf connection_info_default" "info_wf (connection_info_router r s)"
  "info_wf (connection_info_dealer d)"
  by (simp_all add: info_wf_def connection_info_default_def connection_info_router_def
      connection_info_dealer_def)

lemma connection_info_sel [simp]:
  "ci_is_router (connection_info_router r s)" "ci_index (connection_info_router r s) = r"
  "ci_sender (connection_info_router r s) = s" "\<not> ci_is_router (connection_info_dealer d)"
  "ci_index (connection_info_dealer d) = d" "ci_sender (connection_info_dealer d) = []"
  by (simp_all add: connection_info_router_def connection_info_dealer_def)

lemma info_wf_dealer:
  "info_wf i \<Longrightarrow> \<not> ci_is_router i \<Longrightarrow> i = connection_info_dealer (ci_index i)"
  by (cases i) (simp add: info_wf_def connection_info_dealer_def)

section \<open>Hash\<close>

text \<open>
  \<open>boost::hash_combine\<close> at the three types it is used with is a parameter: the hash value is a
  function of the three fields in this order.
\<close>

record boost_hash =
  hash_combine_bool :: "size_t \<Rightarrow> bool \<Rightarrow> size_t"
  hash_combine_uint64 :: "size_t \<Rightarrow> uint64 \<Rightarrow> size_t"
  hash_combine_string :: "size_t \<Rightarrow> string \<Rightarrow> size_t"

definition hash_value :: "boost_hash \<Rightarrow> connection_info \<Rightarrow> size_t" where
  "hash_value bh info =
     (let seed = 0;
          seed = hash_combine_bool bh seed (ci_is_router info);
          seed = hash_combine_uint64 bh seed (ci_index info);
          seed = hash_combine_string bh seed (ci_sender info)
      in seed)"

section \<open>Frames\<close>

definition read_connection_info ::
  "message_iterator \<Rightarrow> connection_info \<Rightarrow> (connection_info \<times> message_iterator) result" where
  "read_connection_info iter info =
     boost_assert (has_more iter) (bindE (next_msg iter) (\<lambda>(msg, iter).
     bindE (interpret_char msg) (\<lambda>is_router.
     boost_assert (has_more iter) (
       let info = info\<lparr>ci_is_router := (is_router \<noteq> CHR 0x00)\<rparr> in
       bindE (next_msg iter) (\<lambda>(msg, iter).
       bindE (interpret_uint64 msg) (\<lambda>idx.
       let info = info\<lparr>ci_index := idx\<rparr> in
       if is_router = CHR 0x00 then Inr (info, iter)
       else boost_assert (has_more iter) (bindE (next_msg iter) (\<lambda>(msg, iter).
         Inr (info\<lparr>ci_sender := message_to_string msg\<rparr>, iter)))))))))"

definition write_connection_info :: "connection_info \<Rightarrow> flags \<Rightarrow> socket \<Rightarrow> socket" where
  "write_connection_info info flags s =
     (let s = send_char (if ci_is_router info then CHR 0x01 else CHR 0x00) ZMQ_SNDMORE s in
      if ci_is_router info then
        (let s = send_uint64 (ci_index info) ZMQ_SNDMORE s in
         send_string (ci_sender info) flags s)
      else send_uint64 (ci_index info) flags s)"

section \<open>The interface of a frame encoding\<close>

text \<open>
  \<open>enc x b\<close> are the frames of \<open>x\<close> when the last of them announces more frames iff \<open>b\<close>.
\<close>

locale frame_codec =
  fixes wr :: "'a \<Rightarrow> flags \<Rightarrow> socket \<Rightarrow> socket"
    and rd :: "message_iterator \<Rightarrow> ('a \<times> message_iterator) result"
    and enc :: "'a \<Rightarrow> bool \<Rightarrow> message list"
    and ok :: "'a \<Rightarrow> bool"
  assumes wr_enc: "wr x f s = s\<lparr>sock_out := sock_out s @ enc x (sndmore f)\<rparr>"
    and rd_enc: "ok x \<Longrightarrow> it_has_more it \<Longrightarrow> it_socket it = enc x b @ rest \<Longrightarrow>
      \<exists>it'. rd it = Inr (x, it') \<and> it_socket it' = rest \<and> it_has_more it' = b"
begin

lemma wr_in: "sock_in (wr x f s) = sock_in s"
  by (simp add: wr_enc)

text \<open>What one end wrote, the other end reads, and only that.\<close>

lemma round_trip:
  assumes "ok x" and "it_has_more it" and "it_socket it = sock_out (wr x f s) @ rest"
    and "sock_out s = []"
  shows "\<exists>it'. rd it = Inr (x, it') \<and> it_socket it' = rest \<and> it_has_more it' = sndmore f"
  using rd_enc [of x it "sndmore f" rest] assms by (simp add: wr_enc)

text \<open>Two values in a row, the first with \<open>ZMQ_SNDMORE\<close>.\<close>

lemma round_trip2:
  assumes "ok x" and "ok y" and "it_has_more it"
    and "it_socket it = sock_out (wr y f (wr x ZMQ_SNDMORE s)) @ rest" and "sock_out s = []"
  shows "\<exists>it' it''. rd it = Inr (x, it') \<and> rd it' = Inr (y, it'') \<and> it_socket it'' = rest
    \<and> it_has_more it'' = sndmore f"
proof -
  have "it_socket it = enc x True @ (enc y (sndmore f) @ rest)"
    using assms(4,5) by (simp add: wr_enc)
  then obtain it' where "rd it = Inr (x, it')" "it_socket it' = enc y (sndmore f) @ rest"
    "it_has_more it'"
    using rd_enc [OF assms(1,3)] by blast
  then show ?thesis using rd_enc [OF assms(2)] by blast
qed

text \<open>Decoding is a function of the frames: two encodings that start alike are of one value.\<close>

lemma enc_prefix_inject:
  assumes "ok x" "ok y" "enc x b @ r = enc y c @ r'"
  shows "x = y \<and> b = c \<and> r = r'"
proof -
  let ?it = "\<lparr>it_socket = enc x b @ r, it_message = [], it_has_more = True\<rparr>"
  have "\<exists>it'. rd ?it = Inr (x, it') \<and> it_socket it' = r \<and> it_has_more it' = b"
    by (rule rd_enc) (simp_all add: assms)
  moreover have "\<exists>it'. rd ?it = Inr (y, it') \<and> it_socket it' = r' \<and> it_has_more it' = c"
    by (rule rd_enc) (simp_all add: assms)
  ultimately show ?thesis by auto
qed

end

section \<open>Instances\<close>

definition frame_enc :: "bytes \<Rightarrow> bool \<Rightarrow> message list" where
  "frame_enc d b = [\<lparr>msg_data = d, msg_more = b\<rparr>]"

text \<open>\<open>interpret_message<T>(iter.next())\<close> and \<open>message_to_string(iter.next())\<close>.\<close>

definition read_char :: "message_iterator \<Rightarrow> (char \<times> message_iterator) result" where
  "read_char iter = bindE (next_msg iter) (\<lambda>(msg, iter).
     bindE (interpret_char msg) (\<lambda>c. Inr (c, iter)))"

definition read_uint64 :: "message_iterator \<Rightarrow> (uint64 \<times> message_iterator) result" where
  "read_uint64 iter = bindE (next_msg iter) (\<lambda>(msg, iter).
     bindE (interpret_uint64 msg) (\<lambda>v. Inr (v, iter)))"

definition read_pointer :: "message_iterator \<Rightarrow> (ptr \<times> message_iterator) result" where
  "read_pointer iter = bindE (next_msg iter) (\<lambda>(msg, iter).
     bindE (interpret_pointer msg) (\<lambda>v. Inr (v, iter)))"

definition read_string :: "message_iterator \<Rightarrow> (string \<times> message_iterator) result" where
  "read_string iter = bindE (next_msg iter) (\<lambda>(msg, iter). Inr (message_to_string msg, iter))"

lemmas read_defs = read_char_def read_uint64_def read_pointer_def read_string_def

interpretation char_codec: frame_codec send_char read_char "\<lambda>c. frame_enc [c]" "\<lambda>_. True"
  by unfold_locales
    (auto simp: send_char_def socket_send_def frame_def frame_enc_def read_char_def next_msg_def)

interpretation uint64_codec: frame_codec send_uint64 read_uint64
  "\<lambda>v. frame_enc (uint64_bytes v)" "\<lambda>_. True"
  by unfold_locales
    (auto simp: send_uint64_def socket_send_def frame_def frame_enc_def read_uint64_def
      next_msg_def)

interpretation pointer_codec: frame_codec send_pointer read_pointer
  "\<lambda>v. frame_enc (uint64_bytes v)" "\<lambda>_. True"
  by unfold_locales
    (auto simp: send_pointer_def socket_send_def frame_def frame_enc_def read_pointer_def
      next_msg_def)

interpretation string_codec: frame_codec send_string read_string frame_enc "\<lambda>_. True"
  by unfold_locales
    (auto simp: send_string_def socket_send_def frame_def frame_enc_def read_string_def
      next_msg_def)

definition connection_info_enc :: "connection_info \<Rightarrow> bool \<Rightarrow> message list" where
  "connection_info_enc info b =
     (if ci_is_router info
      then frame_enc [CHR 0x01] True @ frame_enc (uint64_bytes (ci_index info)) True
        @ frame_enc (ci_sender info) b
      else frame_enc [CHR 0x00] True @ frame_enc (uint64_bytes (ci_index info)) b)"

lemma read_connection_info_enc:
  assumes "info_wf x" and "it_has_more it" and "it_socket it = connection_info_enc x b @ rest"
  shows "\<exists>d. read_connection_info it connection_info_default =
    Inr (x, \<lparr>it_socket = rest, it_message = d, it_has_more = b\<rparr>)"
  using assms
  by (cases x; cases "ci_is_router x")
    (simp_all add: read_connection_info_def connection_info_enc_def frame_enc_def has_more_def
      next_msg_def Let_def connection_info_default_def info_wf_def)

lemma write_connection_info_enc:
  "write_connection_info x f s = s\<lparr>sock_out := sock_out s @ connection_info_enc x (sndmore f)\<rparr>"
  by (simp add: write_connection_info_def connection_info_enc_def Let_def frame_enc_def
      send_char_def send_uint64_def send_string_def socket_send_def frame_def)

interpretation info_codec: frame_codec write_connection_info
  "\<lambda>it. read_connection_info it connection_info_default" connection_info_enc info_wf
proof unfold_locales
  fix x :: connection_info and f s
  show "write_connection_info x f s =
      s\<lparr>sock_out := sock_out s @ connection_info_enc x (sndmore f)\<rparr>"
    by (rule write_connection_info_enc)
next
  fix x :: connection_info and it :: message_iterator and b rest
  assume "info_wf x" and "it_has_more it" and "it_socket it = connection_info_enc x b @ rest"
  then obtain d where "read_connection_info it connection_info_default =
      Inr (x, \<lparr>it_socket = rest, it_message = d, it_has_more = b\<rparr>)"
    using read_connection_info_enc by blast
  then show "\<exists>it'. read_connection_info it connection_info_default = Inr (x, it')
      \<and> it_socket it' = rest \<and> it_has_more it' = b"
    by simp
qed

end
