(* ===== verification/Worker_Cmd.thy ===== *)
theory Worker_Cmd
  imports Connection_Info
begin

text \<open>
  The commands threads exchange: \<open>src/rpcz/internal_commands.hpp\<close> (any thread to the broker,
  one byte in a frame), \<open>src/rpcz/worker/worker_cmd.hpp\<close> and \<open>worker_cmd.cc\<close> (the broker to a
  worker, an object in the worker's queue), and \<open>src/rpcz/worker/workers_commander\<close>, which owns
  the queues. A \<open>tbb::concurrent_bounded_queue\<close> is the list of its elements, first in first out.
\<close>

section \<open>Commands to the broker\<close>

definition kRequest :: char where "kRequest = CHR 0x01"
definition kConnect :: char where "kConnect = CHR 0x02"
definition kBind :: char where "kBind = CHR 0x03"
definition kUnbind :: char where "kUnbind = CHR 0x04"
definition kReply :: char where "kReply = CHR 0x05"
definition kRunClosure :: char where "kRunClosure = CHR 0x06"
definition kRegisterSvc :: char where "kRegisterSvc = CHR 0x07"
definition kQuit :: char where "kQuit = CHR 0x0F"

lemmas c2b_defs = kRequest_def kConnect_def kBind_def kUnbind_def kReply_def kRunClosure_def
  kRegisterSvc_def kQuit_def

section \<open>Commands to a worker\<close>

datatype worker_cmd_enum =
    kIllegalCmd
  | b2w_kRunClosure
  | b2w_kStartRpc
  | b2w_kHandleData
  | b2w_kHandleTimeout
  | b2w_kRegisterSvc
  | b2w_kQuitWorker
  | kMaxCmd

fun enum_value :: "worker_cmd_enum \<Rightarrow> nat" where
  "enum_value kIllegalCmd = 0"
| "enum_value b2w_kRunClosure = 1"
| "enum_value b2w_kStartRpc = 2"
| "enum_value b2w_kHandleData = 3"
| "enum_value b2w_kHandleTimeout = 4"
| "enum_value b2w_kRegisterSvc = 5"
| "enum_value b2w_kQuitWorker = 6"
| "enum_value kMaxCmd = 7"

lemma enum_value_inject: "enum_value a = enum_value b \<Longrightarrow> a = b"
  by (cases a; cases b) simp_all

text \<open>Enumerators compare as the integers they are.\<close>

instantiation worker_cmd_enum :: linorder
begin

definition less_eq_worker_cmd_enum :: "worker_cmd_enum \<Rightarrow> worker_cmd_enum \<Rightarrow> bool" where
  "less_eq_worker_cmd_enum a b \<longleftrightarrow> enum_value a \<le> enum_value b"

definition less_worker_cmd_enum :: "worker_cmd_enum \<Rightarrow> worker_cmd_enum \<Rightarrow> bool" where
  "less_worker_cmd_enum a b \<longleftrightarrow> enum_value a < enum_value b"

instance
  by standard (auto simp: less_eq_worker_cmd_enum_def less_worker_cmd_enum_def
      dest: enum_value_inject)

end

record handle_data_cmd =
  hd_info :: "connection_info option"
  hd_header :: bytes
  hd_payload :: bytes

datatype worker_cmd =
    Run_Closure_Cmd (clsr: ptr)
  | Start_Rpc_Cmd (ctrl: ptr)
  | Handle_Data_Cmd handle_data_cmd
  | Handle_Timeout_Cmd (event_id: uint64)
  | Register_Svc_Cmd (reg_info: connection_info) (reg_name: string) (reg_svc: ptr)
  | Quit_Worker_Cmd

text \<open>The field \<open>cmd\<close> the constructors of the command structs fill in.\<close>

fun cmd :: "worker_cmd \<Rightarrow> worker_cmd_enum" where
  "cmd (Run_Closure_Cmd _) = b2w_kRunClosure"
| "cmd (Start_Rpc_Cmd _) = b2w_kStartRpc"
| "cmd (Handle_Data_Cmd _) = b2w_kHandleData"
| "cmd (Handle_Timeout_Cmd _) = b2w_kHandleTimeout"
| "cmd (Register_Svc_Cmd _ _ _) = b2w_kRegisterSvc"
| "cmd Quit_Worker_Cmd = b2w_kQuitWorker"

text \<open>\<open>worker_cmd(worker_cmd_enum c)\<close> and the constructors of the derived structs.\<close>

definition new_worker_cmd :: "worker_cmd \<Rightarrow> worker_cmd result" where
  "new_worker_cmd c =
     boost_assert (cmd c > kIllegalCmd) (boost_assert (cmd c < kMaxCmd) (Inr c))"

definition new_run_closure_cmd :: "ptr \<Rightarrow> worker_cmd result" where
  "new_run_closure_cmd cl = bindE (new_worker_cmd (Run_Closure_Cmd cl)) (\<lambda>c.
     boost_assert (cl \<noteq> NULL) (Inr c))"

definition new_start_rpc_cmd :: "ptr \<Rightarrow> worker_cmd result" where
  "new_start_rpc_cmd controller = bindE (new_worker_cmd (Start_Rpc_Cmd controller)) (\<lambda>c.
     boost_assert (controller \<noteq> NULL) (Inr c))"

definition new_handle_data_cmd :: handle_data_cmd where
  "new_handle_data_cmd = \<lparr>hd_info = None, hd_header = [], hd_payload = []\<rparr>"

definition new_handle_timeout_cmd :: "uint64 \<Rightarrow> worker_cmd result" where
  "new_handle_timeout_cmd ev_id = new_worker_cmd (Handle_Timeout_Cmd ev_id)"

definition new_register_svc_cmd ::
  "connection_info \<Rightarrow> string \<Rightarrow> ptr \<Rightarrow> worker_cmd result" where
  "new_register_svc_cmd conn_info svc_name service =
     new_worker_cmd (Register_Svc_Cmd conn_info svc_name service)"

definition new_quit_worker_cmd :: "worker_cmd result" where
  "new_quit_worker_cmd = new_worker_cmd Quit_Worker_Cmd"

lemma new_worker_cmd [simp]: "new_worker_cmd c = Inr c"
  by (cases c) (simp_all add: new_worker_cmd_def less_worker_cmd_enum_def)

section \<open>\<open>workers_commander\<close>\<close>

type_synonym unsigned_int = "32 word"

record workers_commander =
  wc_workers :: int32
  worker_cmd_queues :: "worker_cmd list option list"

definition new_workers_commander :: "int32 \<Rightarrow> workers_commander result" where
  "new_workers_commander workers =
     boost_assert (0 < sint workers)
       (Inr \<lparr>wc_workers = workers, worker_cmd_queues = replicate (nat (sint workers)) None\<rparr>)"

definition get_workers :: "workers_commander \<Rightarrow> int32" where
  "get_workers wc = wc_workers wc"

definition is_worker_index_legal :: "workers_commander \<Rightarrow> unsigned_int \<Rightarrow> bool" where
  "is_worker_index_legal wc worker_index \<longleftrightarrow>
     worker_index < wc_workers wc \<and> worker_cmd_queues wc ! unat worker_index \<noteq> None"

definition set_cmd_queue ::
  "unsigned_int \<Rightarrow> worker_cmd list option \<Rightarrow> workers_commander \<Rightarrow> workers_commander result" where
  "set_cmd_queue worker_index cmd_queue wc =
     boost_assert (worker_index < wc_workers wc)
     (boost_assert (cmd_queue \<noteq> None)
     (boost_assert (worker_cmd_queues wc ! unat worker_index = None)
       (Inr (wc\<lparr>worker_cmd_queues := (worker_cmd_queues wc)[unat worker_index := cmd_queue]\<rparr>))))"

text \<open>\<open>worker_cmd_queues_[worker_index]->push(cmd)\<close>.\<close>

definition push :: "unsigned_int \<Rightarrow> worker_cmd \<Rightarrow> workers_commander \<Rightarrow> workers_commander" where
  "push worker_index c wc = wc\<lparr>worker_cmd_queues :=
     (worker_cmd_queues wc)[unat worker_index :=
        map_option (\<lambda>q. q @ [c]) (worker_cmd_queues wc ! unat worker_index)]\<rparr>"

definition commander_run_closure ::
  "unsigned_int \<Rightarrow> ptr \<Rightarrow> workers_commander \<Rightarrow> workers_commander result" where
  "commander_run_closure worker_index cl wc =
     boost_assert (is_worker_index_legal wc worker_index)
       (bindE (new_run_closure_cmd cl) (\<lambda>c. Inr (push worker_index c wc)))"

definition commander_start_rpc ::
  "unsigned_int \<Rightarrow> ptr \<Rightarrow> workers_commander \<Rightarrow> workers_commander result" where
  "commander_start_rpc worker_index controller wc =
     boost_assert (is_worker_index_legal wc worker_index)
       (bindE (new_start_rpc_cmd controller) (\<lambda>c. Inr (push worker_index c wc)))"

definition commander_handle_data ::
  "unsigned_int \<Rightarrow> handle_data_cmd \<Rightarrow> workers_commander \<Rightarrow> workers_commander result" where
  "commander_handle_data worker_index c wc =
     boost_assert (is_worker_index_legal wc worker_index)
       (Inr (push worker_index (Handle_Data_Cmd c) wc))"

definition commander_handle_timeout ::
  "unsigned_int \<Rightarrow> uint64 \<Rightarrow> workers_commander \<Rightarrow> workers_commander result" where
  "commander_handle_timeout worker_index ev_id wc =
     boost_assert (is_worker_index_legal wc worker_index)
       (bindE (new_handle_timeout_cmd ev_id) (\<lambda>c. Inr (push worker_index c wc)))"

definition commander_register_svc ::
  "unsigned_int \<Rightarrow> connection_info \<Rightarrow> string \<Rightarrow> ptr \<Rightarrow> workers_commander
    \<Rightarrow> workers_commander result" where
  "commander_register_svc worker_index info name svc wc =
     boost_assert (is_worker_index_legal wc worker_index)
     (boost_assert (svc \<noteq> NULL)
       (bindE (new_register_svc_cmd info name svc) (\<lambda>c. Inr (push worker_index c wc))))"

definition quit_worker ::
  "unsigned_int \<Rightarrow> workers_commander \<Rightarrow> workers_commander result" where
  "quit_worker worker_index wc =
     boost_assert (is_worker_index_legal wc worker_index)
       (bindE new_quit_worker_cmd (\<lambda>c. Inr (push worker_index c wc)))"

lemmas commander_defs = commander_run_closure_def commander_start_rpc_def
  commander_handle_data_def commander_handle_timeout_def commander_register_svc_def
  quit_worker_def new_run_closure_cmd_def new_start_rpc_cmd_def new_handle_timeout_cmd_def
  new_register_svc_cmd_def new_quit_worker_cmd_def

text \<open>The commands queued for a worker, none when it has no queue.\<close>

definition queue_of :: "workers_commander \<Rightarrow> unsigned_int \<Rightarrow> worker_cmd list" where
  "queue_of wc i = (case worker_cmd_queues wc ! unat i of None \<Rightarrow> [] | Some q \<Rightarrow> q)"

text \<open>Every worker below \<open>workers_\<close> has its queue: the state after \<open>worker_thread_group\<close>.\<close>

definition commander_ok :: "workers_commander \<Rightarrow> bool" where
  "commander_ok wc \<longleftrightarrow> 0 < sint (wc_workers wc)
     \<and> length (worker_cmd_queues wc) = nat (sint (wc_workers wc))
     \<and> (\<forall>q \<in> set (worker_cmd_queues wc). q \<noteq> None)"

lemma sint_pos_unat: "0 < sint (w :: int32) \<Longrightarrow> nat (sint w) = unat w"
proof -
  assume "0 < sint w"
  moreover have "sint w < 2 ^ 31"
    using sint_lt [of w] by simp
  ultimately have "uint w = sint w"
    by (simp add: uint_sint take_bit_eq_mod)
  then show "nat (sint w) = unat w"
    by (metis nat_uint_eq)
qed

lemma commander_ok_legal:
  assumes "commander_ok wc" and "i < wc_workers wc"
  shows "is_worker_index_legal wc i"
proof -
  have "unat i < length (worker_cmd_queues wc)"
    using assms by (simp add: commander_ok_def sint_pos_unat word_less_nat_alt)
  with assms show ?thesis
    unfolding is_worker_index_legal_def commander_ok_def using nth_mem by blast
qed

lemma commander_ok_push:
  assumes "commander_ok wc" and "i < wc_workers wc"
  shows "commander_ok (push i c wc)"
proof -
  obtain q where "worker_cmd_queues wc ! unat i = Some q"
    using commander_ok_legal [OF assms] by (auto simp: is_worker_index_legal_def)
  with assms(1) show ?thesis
    by (auto simp: commander_ok_def push_def dest: set_update_subset_insert [THEN subsetD])
qed

lemma wc_workers_push [simp]: "wc_workers (push i c wc) = wc_workers wc"
  by (simp add: push_def)

lemma length_queues_push [simp]:
  "length (worker_cmd_queues (push i c wc)) = length (worker_cmd_queues wc)"
  by (simp add: push_def)

lemma commander_ok_bound:
  "commander_ok wc \<Longrightarrow> i < wc_workers wc \<Longrightarrow> unat i < length (worker_cmd_queues wc)"
  by (simp add: commander_ok_def sint_pos_unat word_less_nat_alt)

lemma queue_of_push:
  assumes "commander_ok wc" and "i < wc_workers wc"
  shows "queue_of (push i c wc) j = (if j = i then queue_of wc i @ [c] else queue_of wc j)"
proof -
  obtain q where "worker_cmd_queues wc ! unat i = Some q"
    using commander_ok_legal [OF assms] by (auto simp: is_worker_index_legal_def)
  then show ?thesis
    using commander_ok_bound [OF assms] by (auto simp: queue_of_def push_def nth_list_update word_unat_eq_iff)
qed

text \<open>\<open>cmd_queue.pop(cmd)\<close> in the worker's thread; \<open>None\<close> while the queue is empty.\<close>

definition pop :: "unsigned_int \<Rightarrow> workers_commander \<Rightarrow> (worker_cmd \<times> workers_commander) option" where
  "pop worker_index wc = (case queue_of wc worker_index of
     [] \<Rightarrow> None
   | c # q \<Rightarrow> Some (c,
       wc\<lparr>worker_cmd_queues := (worker_cmd_queues wc)[unat worker_index := Some q]\<rparr>))"

lemma commander_ok_pop:
  assumes "commander_ok wc" and "pop i wc = Some (c, wc')"
  shows "commander_ok wc'"
proof -
  obtain q where wc': "wc' = wc\<lparr>worker_cmd_queues := (worker_cmd_queues wc)[unat i := Some q]\<rparr>"
    using assms(2) by (auto simp: pop_def split: list.splits)
  have "\<forall>x \<in> set (worker_cmd_queues wc). x \<noteq> None"
    using assms(1) unfolding commander_ok_def by blast
  then have "\<forall>x \<in> set ((worker_cmd_queues wc)[unat i := Some q]). x \<noteq> None"
    by (rule list_update_all) simp
  then show ?thesis using assms(1) unfolding wc' commander_ok_def by simp
qed

lemma pop_workers: "pop i wc = Some (c, wc') \<Longrightarrow> wc_workers wc' = wc_workers wc"
  by (auto simp: pop_def split: list.splits)

section \<open>What the broker relies on: ordered delivery\<close>

text \<open>
  A channel to numbered receivers. The clients need that a sent command ends up behind all
  earlier ones of its receiver and that no other receiver sees it.
\<close>

locale command_channel =
  fixes post :: "'i \<Rightarrow> 'c \<Rightarrow> 'w \<Rightarrow> 'w"
    and pending :: "'w \<Rightarrow> 'i \<Rightarrow> 'c list"
    and legal :: "'w \<Rightarrow> 'i \<Rightarrow> bool"
    and ok :: "'w \<Rightarrow> bool"
  assumes pending_post: "ok w \<Longrightarrow> legal w i \<Longrightarrow>
      pending (post i c w) j = (if j = i then pending w i @ [c] else pending w j)"
    and ok_post: "ok w \<Longrightarrow> legal w i \<Longrightarrow> ok (post i c w)"
    and legal_post: "ok w \<Longrightarrow> legal w i \<Longrightarrow> legal (post i c w) j = legal w j"
begin

text \<open>A run of sends: each receiver sees exactly its own commands, in the order sent.\<close>

fun post_all :: "('i \<times> 'c) list \<Rightarrow> 'w \<Rightarrow> 'w" where
  "post_all [] w = w"
| "post_all ((i, c) # cs) w = post_all cs (post i c w)"

lemma pending_post_all:
  assumes "ok w" and "\<forall>(i, c) \<in> set cs. legal w i"
  shows "pending (post_all cs w) j = pending w j @ map snd [e \<leftarrow> cs. fst e = j]"
  using assms
proof (induction cs arbitrary: w)
  case (Cons e cs)
  obtain i c where e: "e = (i, c)" by (cases e)
  with Cons.prems have "legal w i" by simp
  then have "ok (post i c w)" and "\<forall>(i', c') \<in> set cs. legal (post i c w) i'"
    using Cons.prems ok_post legal_post by auto
  from Cons.IH [OF this] show ?case
    using Cons.prems \<open>legal w i\<close> e by (simp add: pending_post)
qed simp

text \<open>Two commands to one receiver keep their order, whatever is sent in between.\<close>

lemma post_order:
  assumes "ok w" "legal w i" "legal w k" "k \<noteq> i"
  shows "pending (post i d (post k x (post i c w))) i = pending w i @ [c, d]"
  using assms by (simp add: pending_post ok_post legal_post)

end

interpretation commander: command_channel push queue_of "\<lambda>wc i. i < wc_workers wc" commander_ok
  by unfold_locales (simp_all add: queue_of_push commander_ok_push)

end
