(* ===== verification/Rpc_Controller.thy ===== *)
theory Rpc_Controller
  imports Prelude
begin

text \<open>
  What a client leaves behind when it sends a request, and what happens to it: the error codes
  and \<open>rpc_error\<close>, the wire headers of \<open>src/rpcz/proto/rpcz.proto\<close>, \<open>rpc_controller\<close>, which
  calls the response handler, the one-shot \<open>sync_event\<close>, and the two handlers the library itself
  supplies: \<open>sync_call_handler\<close> (with \<open>sync_requester\<close>, the blocking call) and
  \<open>cpp_handler_wrapper\<close>. Parsing a protobuf message and printing an integer
  (\<open>boost::lexical_cast\<close>) are parameters.
\<close>

section \<open>Error codes\<close>

definition INVALID_HEADER :: int where "INVALID_HEADER = - 1"
definition NO_SUCH_SERVICE :: int where "NO_SUCH_SERVICE = - 2"
definition NO_SUCH_METHOD :: int where "NO_SUCH_METHOD = - 3"
definition INVALID_MESSAGE :: int where "INVALID_MESSAGE = - 4"
definition METHOD_NOT_IMPLEMENTED :: int where "METHOD_NOT_IMPLEMENTED = - 5"
definition TIMEOUT_EXPIRED :: int where "TIMEOUT_EXPIRED = - 6"

lemmas error_code_defs = INVALID_HEADER_def NO_SUCH_SERVICE_def NO_SUCH_METHOD_def
  INVALID_MESSAGE_def METHOD_NOT_IMPLEMENTED_def TIMEOUT_EXPIRED_def

text \<open>The enumeration of the wire protocol, and the compile-time comparison of the two.\<close>

datatype application_error_code =
    P_INVALID_HEADER | P_NO_SUCH_SERVICE | P_NO_SUCH_METHOD | P_INVALID_MESSAGE
  | P_METHOD_NOT_IMPLEMENTED | P_TIMEOUT_EXPIRED

fun application_error_code_value :: "application_error_code \<Rightarrow> int" where
  "application_error_code_value P_INVALID_HEADER = - 1"
| "application_error_code_value P_NO_SUCH_SERVICE = - 2"
| "application_error_code_value P_NO_SUCH_METHOD = - 3"
| "application_error_code_value P_INVALID_MESSAGE = - 4"
| "application_error_code_value P_METHOD_NOT_IMPLEMENTED = - 5"
| "application_error_code_value P_TIMEOUT_EXPIRED = - 6"

definition assert_application_error_code :: bool where
  "assert_application_error_code \<longleftrightarrow>
     INVALID_HEADER = application_error_code_value P_INVALID_HEADER
     \<and> NO_SUCH_SERVICE = application_error_code_value P_NO_SUCH_SERVICE
     \<and> NO_SUCH_METHOD = application_error_code_value P_NO_SUCH_METHOD
     \<and> INVALID_MESSAGE = application_error_code_value P_INVALID_MESSAGE
     \<and> METHOD_NOT_IMPLEMENTED = application_error_code_value P_METHOD_NOT_IMPLEMENTED
     \<and> TIMEOUT_EXPIRED = application_error_code_value P_TIMEOUT_EXPIRED"

lemma assert_application_error_code: assert_application_error_code
  by (simp add: assert_application_error_code_def error_code_defs)

section \<open>\<open>rpc_error\<close>\<close>

record rpc_error =
  err_code :: int
  err_str :: string
  err_what :: string

definition to_string :: "(int \<Rightarrow> string) \<Rightarrow> int \<Rightarrow> string \<Rightarrow> string" where
  "to_string lexical_cast error_code error_str =
     (let result = ''('' @ lexical_cast error_code @ '')''
      in if error_str \<noteq> [] then result @ '': '' @ error_str else result)"

definition new_rpc_error :: "(int \<Rightarrow> string) \<Rightarrow> int \<Rightarrow> string \<Rightarrow> rpc_error" where
  "new_rpc_error lexical_cast error_code error_str =
     \<lparr>err_code = error_code, err_str = error_str,
      err_what = to_string lexical_cast error_code error_str\<rparr>"

definition get_error_code :: "rpc_error \<Rightarrow> int" where
  "get_error_code e = err_code e"

definition get_error_str :: "rpc_error \<Rightarrow> string" where
  "get_error_str e = err_str e"

section \<open>Wire headers\<close>

record rpc_request_header =
  rq_event_id :: "uint64 option"
  rq_service :: "string option"
  rq_method :: "string option"

record rpc_response_header =
  rs_error_code :: "int option"
  rs_error_str :: "string option"
  rs_event_id :: "uint64 option"

record rpc_header =
  req_hdr :: "rpc_request_header option"
  resp_hdr :: "rpc_response_header option"

text \<open>An accessor of an absent optional field gives the default of its type.\<close>

definition get_or :: "'a \<Rightarrow> 'a option \<Rightarrow> 'a" where
  "get_or d v = (case v of None \<Rightarrow> d | Some x \<Rightarrow> x)"

lemma get_or_simps [simp]: "get_or d None = d" "get_or d (Some x) = x"
  by (simp_all add: get_or_def)

definition rpc_header_default :: rpc_header where
  "rpc_header_default = \<lparr>req_hdr = None, resp_hdr = None\<rparr>"

section \<open>\<open>rpc_controller\<close>\<close>

text \<open>
  A \<open>boost::function\<close> is empty or has a target; a call of it is the target with the arguments.
\<close>

datatype response_message_handler = Empty_Handler | Handler nat

record handler_call =
  hc_target :: nat
  hc_error :: "rpc_error option"
  hc_data :: "bytes option"

record rpc_controller =
  rc_event_id :: uint64
  rc_handler :: response_message_handler
  rc_timeout_ms :: int64

definition new_rpc_controller ::
  "uint64 \<Rightarrow> response_message_handler \<Rightarrow> int64 \<Rightarrow> rpc_controller" where
  "new_rpc_controller event_id handler timeout_ms =
     \<lparr>rc_event_id = event_id, rc_handler = handler, rc_timeout_ms = timeout_ms\<rparr>"

definition get_event_id :: "rpc_controller \<Rightarrow> uint64" where
  "get_event_id c = rc_event_id c"

definition get_timeout_ms :: "rpc_controller \<Rightarrow> int64" where
  "get_timeout_ms c = rc_timeout_ms c"

definition controller_handle_response ::
  "rpc_controller \<Rightarrow> bytes option \<Rightarrow> handler_call list result" where
  "controller_handle_response c data =
     boost_assert (data \<noteq> None)
       (Inr (case rc_handler c of Empty_Handler \<Rightarrow> []
             | Handler h \<Rightarrow> [\<lparr>hc_target = h, hc_error = None, hc_data = data\<rparr>]))"

definition controller_handle_error ::
  "(int \<Rightarrow> string) \<Rightarrow> rpc_controller \<Rightarrow> int \<Rightarrow> string \<Rightarrow> handler_call list" where
  "controller_handle_error lexical_cast c error_code error_str =
     (case rc_handler c of Empty_Handler \<Rightarrow> []
      | Handler h \<Rightarrow> [\<lparr>hc_target = h,
          hc_error = Some (new_rpc_error lexical_cast error_code error_str), hc_data = None\<rparr>])"

definition controller_handle_timeout ::
  "(int \<Rightarrow> string) \<Rightarrow> rpc_controller \<Rightarrow> handler_call list" where
  "controller_handle_timeout lexical_cast c =
     controller_handle_error lexical_cast c TIMEOUT_EXPIRED []"

section \<open>\<open>sync_event\<close>\<close>

record sync_event =
  ev_ready :: bool

definition new_sync_event :: sync_event where
  "new_sync_event = \<lparr>ev_ready = False\<rparr>"

definition sync_event_signal :: "sync_event \<Rightarrow> sync_event" where
  "sync_event_signal e = e\<lparr>ev_ready := True\<rparr>"

text \<open>\<open>wait()\<close> returns once the event is ready and changes nothing; \<open>None\<close> while it blocks.\<close>

definition sync_event_wait :: "sync_event \<Rightarrow> sync_event option" where
  "sync_event_wait e = (if ev_ready e then Some e else None)"

section \<open>\<open>sync_call_handler\<close> and \<open>sync_requester\<close>\<close>

text \<open>
  \<open>sch_response\<close> is a pointer to the message the caller passed, \<open>None\<close> for \<open>NULL\<close>.
  \<open>parse d m\<close> is \<open>m.ParseFromArray(d)\<close>: whether it succeeded, and the message afterwards.
\<close>

record 'm sync_call_handler =
  sch_sync :: sync_event
  sch_response :: "'m option"
  sch_error :: "rpc_error option"

definition new_sync_call_handler :: "'m option \<Rightarrow> 'm sync_call_handler" where
  "new_sync_call_handler response =
     \<lparr>sch_sync = new_sync_event, sch_response = response, sch_error = None\<rparr>"

definition sync_handle_error :: "rpc_error \<Rightarrow> 'm sync_call_handler \<Rightarrow> 'm sync_call_handler" where
  "sync_handle_error err h = h\<lparr>sch_error := Some err\<rparr>"

definition sync_handle_invalid_message ::
  "(int \<Rightarrow> string) \<Rightarrow> 'm sync_call_handler \<Rightarrow> 'm sync_call_handler" where
  "sync_handle_invalid_message lexical_cast h =
     sync_handle_error (new_rpc_error lexical_cast INVALID_MESSAGE []) h"

definition sync_signal :: "'m sync_call_handler \<Rightarrow> 'm sync_call_handler" where
  "sync_signal h = h\<lparr>sch_sync := sync_event_signal (sch_sync h)\<rparr>"

definition sync_call_handler_call ::
  "(int \<Rightarrow> string) \<Rightarrow> (bytes \<Rightarrow> 'm \<Rightarrow> bool \<times> 'm) \<Rightarrow> rpc_error option \<Rightarrow> bytes option
    \<Rightarrow> 'm sync_call_handler \<Rightarrow> 'm sync_call_handler result" where
  "sync_call_handler_call lexical_cast parse error data h =
     (case error of
        Some err \<Rightarrow> Inr (sync_signal (sync_handle_error err h))
      | None \<Rightarrow>
          (case data of
             None \<Rightarrow> Inl Boost_Assert
           | Some d \<Rightarrow>
               (case sch_response h of
                  None \<Rightarrow> Inr (sync_signal h)
                | Some m \<Rightarrow>
                    (let (ok, m') = parse d m; h' = h\<lparr>sch_response := Some m'\<rparr>
                     in if ok then boost_assert (sch_error h' = None) (Inr (sync_signal h'))
                        else Inr (sync_signal (sync_handle_invalid_message lexical_cast h'))))))"

text \<open>
  \<open>sync_requester::request\<close>: the calls of the handler that have been made when \<open>wait()\<close> is
  reached decide. \<open>None\<close> while the caller blocks, else the exception it throws or the response.
\<close>

definition sync_requester_request ::
  "(int \<Rightarrow> string) \<Rightarrow> (bytes \<Rightarrow> 'm \<Rightarrow> bool \<times> 'm) \<Rightarrow> 'm option
    \<Rightarrow> (rpc_error option \<times> bytes option) list \<Rightarrow> 'm option result option" where
  "sync_requester_request lexical_cast parse response calls =
     (case foldE (\<lambda>(e, d) h. sync_call_handler_call lexical_cast parse e d h) calls
             (new_sync_call_handler response) of
        Inl e \<Rightarrow> Some (Inl e)
      | Inr handler \<Rightarrow>
          (case sync_event_wait (sch_sync handler) of
             None \<Rightarrow> None
           | Some _ \<Rightarrow>
               (case sch_error handler of
                  Some err \<Rightarrow> Some (Inl (Rpc_Error (err_code err) (err_str err)))
                | None \<Rightarrow> Some (Inr (sch_response handler)))))"

section \<open>\<open>cpp_handler_wrapper\<close>\<close>

text \<open>
  The user's handler may be empty (\<open>None\<close>); a call of it carries the error and the response,
  which starts as \<open>fresh\<close>, the default-constructed message.
\<close>

definition cpp_handler_wrapper_call ::
  "(int \<Rightarrow> string) \<Rightarrow> (bytes \<Rightarrow> 'm \<Rightarrow> bool \<times> 'm) \<Rightarrow> 'm \<Rightarrow> nat option
    \<Rightarrow> rpc_error option \<Rightarrow> bytes option \<Rightarrow> (nat \<times> rpc_error option \<times> 'm) list result" where
  "cpp_handler_wrapper_call lexical_cast parse fresh cpp_handler error data =
     (case cpp_handler of
        None \<Rightarrow> Inr []
      | Some h \<Rightarrow>
          (case error of
             Some e \<Rightarrow> Inr [(h, Some e, fresh)]
           | None \<Rightarrow>
               (case data of
                  None \<Rightarrow> Inl Boost_Assert
                | Some d \<Rightarrow>
                    (let (ok, resp) = parse d fresh
                     in if ok then Inr [(h, None, resp)]
                        else Inr [(h, Some (new_rpc_error lexical_cast INVALID_MESSAGE []), resp)]))))"

section \<open>Lemmas\<close>

lemma new_rpc_controller_sel [simp]:
  "get_event_id (new_rpc_controller e h t) = e" "get_timeout_ms (new_rpc_controller e h t) = t"
  "rc_handler (new_rpc_controller e h t) = h"
  by (simp_all add: new_rpc_controller_def get_event_id_def get_timeout_ms_def)

text \<open>The handler is called once, or not at all when it is empty.\<close>

lemma controller_handle_response_once:
  "controller_handle_response c (Some d) = Inr cs \<Longrightarrow>
     length cs = (if rc_handler c = Empty_Handler then 0 else 1)"
  by (cases "rc_handler c") (auto simp: controller_handle_response_def)

lemma sync_event_wait_signal: "sync_event_wait (sync_event_signal e) = Some (sync_event_signal e)"
  by (simp add: sync_event_wait_def sync_event_signal_def)

text \<open>Whatever the handler is called with, the waiting thread is released.\<close>

lemma sync_call_handler_signals:
  "sync_call_handler_call lx parse e d h = Inr h' \<Longrightarrow> ev_ready (sch_sync h')"
  by (auto simp: sync_call_handler_call_def sync_signal_def sync_event_signal_def
      sync_handle_error_def sync_handle_invalid_message_def Let_def
      split: option.splits prod.splits if_splits)

end
