(* ===== verification/Broker.thy ===== *)
theory Broker
  imports Reactor Callback Worker_Cmd Rpc_Controller "HOL-Library.Signed_Division"
begin

text \<open>
  \<open>src/rpcz/broker_thread.hpp\<close> and \<open>broker_thread.cc\<close>: the one thread that owns every network
  socket. It reads commands from the frontend socket, messages from the router sockets of
  servers and the dealer sockets of clients, and hands work to the worker threads. Its state
  extends the reactor's, because the closures the reactor runs are its own methods.
\<close>

section \<open>State\<close>

text \<open>
  The methods that are bound in closures, with their arguments; \<open>this\<close> is the one broker.
\<close>

datatype broker_callback =
    Handle_Frontend_Socket ptr
  | Handle_Dealer_Socket uint64
  | Handle_Router_Socket uint64
  | Handle_Timeout uint64 size_t
  | Handle_Socket_Deleted string

type_synonym broker_closure = "broker_callback closure"

text \<open>
  \<open>ctrl_heap\<close> are the controllers the frontend passes as pointers; \<open>worker.cc\<close> deletes them.
\<close>

record broker_thread = "broker_closure reactor" +
  bt_workers :: int32
  dealer_sockets :: "ptr list"
  router_sockets :: "ptr list"
  bind_map :: "(string, ptr) std_map"
  frontend_socket :: ptr
  bt_commander :: workers_commander
  ctrl_heap :: "ptr \<Rightarrow> rpc_controller option"

text \<open>
  What the system gives one round of the loop: the address the next \<open>new zmq::socket_t\<close>
  returns, the clock, the value of \<open>rand()\<close>, whether ZeroMQ accepts an endpoint, and the
  combining function of \<open>boost::hash\<close>.
\<close>

record broker_env =
  be_new_socket :: ptr
  be_now :: uint64
  be_rand :: int32
  be_connect_ok :: "string \<Rightarrow> bool"
  be_bind_ok :: "string \<Rightarrow> bool"
  be_hash :: boost_hash

section \<open>Helpers\<close>

text \<open>A \<open>std::string\<close> seen through \<open>c_str()\<close> ends at its first NUL.\<close>

definition c_str :: "string \<Rightarrow> string" where
  "c_str s = takeWhile (\<lambda>c. c \<noteq> CHR 0x00) s"

text \<open>
  The scope of a \<open>message_iterator\<close> on the socket at \<open>p\<close>: the rest of the message is read when
  the scope is left.
\<close>

definition with_iterator ::
  "ptr \<Rightarrow> (message_iterator \<Rightarrow> broker_thread \<Rightarrow> (message_iterator \<times> broker_thread) result)
    \<Rightarrow> broker_thread \<Rightarrow> broker_thread result" where
  "with_iterator p body st =
     bindE (deref_socket p st) (\<lambda>s.
     bindE (body (message_iterator_new (sock_in s)) st) (\<lambda>(iter, st).
     bindE (message_iterator_destroy iter) (\<lambda>rest.
     on_socket p (\<lambda>s. Inr (s\<lparr>sock_in := rest\<rparr>)) st)))"

definition on_commander ::
  "(workers_commander \<Rightarrow> workers_commander result) \<Rightarrow> broker_thread \<Rightarrow> broker_thread result" where
  "on_commander f st = bindE (f (bt_commander st)) (\<lambda>wc. Inr (st\<lparr>bt_commander := wc\<rparr>))"

section \<open>Construction\<close>

definition new_broker_thread ::
  "bool \<Rightarrow> ptr \<Rightarrow> socket \<Rightarrow> workers_commander \<Rightarrow> (ptr \<Rightarrow> rpc_controller option)
    \<Rightarrow> sync_event \<Rightarrow> (broker_thread \<times> sync_event) result" where
  "new_broker_thread uninitialised frontend fe_sock wkrs_cmdr ctrls ready_event =
     (let st = reactor.extend ((new_reactor uninitialised)\<lparr>zsocks := [frontend \<mapsto> fe_sock]\<rparr>)
                 (broker_thread.fields (get_workers wkrs_cmdr) [] [] [] frontend wkrs_cmdr ctrls)
      in boost_assert (0 < sint (bt_workers st)) (
         let st = st\<lparr>dealer_sockets := dealer_sockets st @ [NULL]\<rparr>
         in boost_assert (length (dealer_sockets st) = 1) (
         let st = st\<lparr>router_sockets := router_sockets st @ [NULL]\<rparr>
         in boost_assert (length (router_sockets st) = 1) (
         let ready_event = sync_event_signal ready_event
         in Inr (reactor_add_socket frontend
                   (new_permanent_callback (Handle_Frontend_Socket frontend)) st,
                 ready_event)))))"

section \<open>Indices and workers\<close>

definition is_dealer_index_legal :: "uint64 \<Rightarrow> broker_thread \<Rightarrow> bool" where
  "is_dealer_index_legal dealer_index st \<longleftrightarrow>
     0 < dealer_index \<and> unat dealer_index < length (dealer_sockets st)"

definition is_router_index_legal :: "uint64 \<Rightarrow> broker_thread \<Rightarrow> bool" where
  "is_router_index_legal router_index st \<longleftrightarrow>
     0 < router_index \<and> unat router_index < length (router_sockets st)"

definition is_connection_info_legal :: "connection_info \<Rightarrow> broker_thread \<Rightarrow> bool" where
  "is_connection_info_legal info st =
     (if ci_is_router info then is_router_index_legal (ci_index info) st
      else is_dealer_index_legal (ci_index info) st)"

text \<open>The \<open>int\<close> number of workers is converted to \<open>size_t\<close> for the remainder.\<close>

definition get_worker_index :: "boost_hash \<Rightarrow> connection_info \<Rightarrow> broker_thread \<Rightarrow> size_t result" where
  "get_worker_index bh info st =
     boost_assert (bt_workers st \<noteq> 0)
       (Inr (hash_value bh info mod (scast (bt_workers st) :: size_t)))"

section \<open>Commands from the frontend\<close>

definition add_closure :: "broker_env \<Rightarrow> ptr \<Rightarrow> broker_thread \<Rightarrow> broker_thread result" where
  "add_closure env cl st =
     boost_assert (0 < sint (bt_workers st)) (
       let worker_index = (word_of_int (sint (be_rand env) smod sint (bt_workers st)) :: size_t)
       in on_commander (commander_run_closure (ucast worker_index) cl) st)"

definition handle_connect_command ::
  "broker_env \<Rightarrow> string \<Rightarrow> string \<Rightarrow> broker_thread \<Rightarrow> broker_thread result" where
  "handle_connect_command env sender endpoint st =
     boost_assert (dealer_sockets st \<noteq> []) (
     let socket = be_new_socket env;
         st = st\<lparr>zsocks := (zsocks st)(socket \<mapsto> new_socket_t ZMQ_DEALER)\<rparr>;
         st = st\<lparr>dealer_sockets := dealer_sockets st @ [socket]\<rparr>;
         dealer_index = (word_of_nat (length (dealer_sockets st) - 1) :: uint64)
     in bindE (on_socket socket (\<lambda>s. Inr (socket_setsockopt_linger 0 s)) st) (\<lambda>st.
        bindE (on_socket socket (\<lambda>s. if be_connect_ok env (c_str endpoint)
            then Inr (socket_connect (c_str endpoint) s) else Inl Zmq_Error) st) (\<lambda>st.
        let st = reactor_add_socket socket
              (new_permanent_callback (Handle_Dealer_Socket dealer_index)) st
        in on_socket (frontend_socket st) (\<lambda>s.
             let s = send_string sender ZMQ_SNDMORE s;
                 s = send_empty_message ZMQ_SNDMORE s
             in Inr (send_uint64 dealer_index 0 s)) st)))"

definition handle_bind_command ::
  "broker_env \<Rightarrow> string \<Rightarrow> string \<Rightarrow> broker_thread \<Rightarrow> broker_thread result" where
  "handle_bind_command env sender endpoint st =
     (let socket = be_new_socket env;
          st = st\<lparr>zsocks := (zsocks st)(socket \<mapsto> new_socket_t ZMQ_ROUTER)\<rparr>
      in bindE (on_socket socket (\<lambda>s. Inr (socket_setsockopt_sndhwm (1000 * 1000) s)) st) (\<lambda>st.
         bindE (on_socket socket (\<lambda>s. Inr (socket_setsockopt_linger 0 s)) st) (\<lambda>st.
         bindE (on_socket socket (\<lambda>s. if be_bind_ok env (c_str endpoint)
             then Inr (socket_bind (c_str endpoint) s) else Inl Zmq_Error) st) (\<lambda>st.
         boost_assert (router_sockets st \<noteq> []) (
         let router_index = (word_of_nat (length (router_sockets st)) :: uint64);
             st = st\<lparr>router_sockets := router_sockets st @ [socket]\<rparr>;
             st = st\<lparr>bind_map := map_insert endpoint socket (bind_map st)\<rparr>;
             st = reactor_add_socket socket
               (new_permanent_callback (Handle_Router_Socket router_index)) st
         in on_socket (frontend_socket st) (\<lambda>s.
              let s = send_string sender ZMQ_SNDMORE s;
                  s = send_empty_message ZMQ_SNDMORE s
              in Inr (send_uint64 router_index 0 s)) st)))))"

definition handle_bind_command_iter ::
  "broker_env \<Rightarrow> string \<Rightarrow> message_iterator \<Rightarrow> broker_thread
    \<Rightarrow> (message_iterator \<times> broker_thread) result" where
  "handle_bind_command_iter env sender iter st =
     bindE (read_string iter) (\<lambda>(endpoint, iter).
     bindE (handle_bind_command env sender endpoint st) (\<lambda>st. Inr (iter, st)))"

definition handle_unbind_command ::
  "string \<Rightarrow> string \<Rightarrow> broker_thread \<Rightarrow> broker_thread result" where
  "handle_unbind_command sender endpoint st =
     (case map_of (bind_map st) endpoint of
        None \<Rightarrow> Inr st
      | Some socket \<Rightarrow>
          boost_assert (socket \<noteq> NULL) (
          let st = reactor_del_socket socket (new_callback (Handle_Socket_Deleted sender)) st
          in Inr (st\<lparr>bind_map := map_erase endpoint (bind_map st)\<rparr>)))"

definition handle_quit_command :: "broker_thread \<Rightarrow> broker_thread" where
  "handle_quit_command st = set_should_quit st"

definition handle_socket_deleted :: "string \<Rightarrow> broker_thread \<Rightarrow> broker_thread result" where
  "handle_socket_deleted sender st =
     on_socket (frontend_socket st) (\<lambda>s.
       let s = send_string sender ZMQ_SNDMORE s;
           s = send_empty_message ZMQ_SNDMORE s
       in Inr (send_empty_message 0 s)) st"

definition forward_to ::
  "connection_info \<Rightarrow> message_iterator \<Rightarrow> broker_thread
    \<Rightarrow> (message_iterator \<times> broker_thread) result" where
  "forward_to conn_info iter st =
     boost_assert (is_connection_info_legal conn_info st) (
     if ci_is_router conn_info then
       let socket = router_sockets st ! unat (ci_index conn_info)
       in boost_assert (socket \<noteq> NULL) (
          bindE (deref_socket socket st) (\<lambda>s.
          let s = send_string (ci_sender conn_info) ZMQ_SNDMORE s;
              s = send_empty_message ZMQ_SNDMORE s
          in bindE (forward_messages iter s) (\<lambda>(iter, s).
             Inr (iter, st\<lparr>zsocks := (zsocks st)(socket \<mapsto> s)\<rparr>))))
     else
       let socket = dealer_sockets st ! unat (ci_index conn_info)
       in boost_assert (socket \<noteq> NULL) (
          bindE (deref_socket socket st) (\<lambda>s.
          let s = send_empty_message ZMQ_SNDMORE s
          in bindE (forward_messages iter s) (\<lambda>(iter, s).
             Inr (iter, st\<lparr>zsocks := (zsocks st)(socket \<mapsto> s)\<rparr>)))))"

definition start_rpc ::
  "boost_hash \<Rightarrow> connection_info \<Rightarrow> ptr \<Rightarrow> broker_thread \<Rightarrow> broker_thread result" where
  "start_rpc bh info controller st =
     bindE (get_worker_index bh info st) (\<lambda>w. on_commander (commander_start_rpc (ucast w) controller) st)"

definition deref_ctrl :: "ptr \<Rightarrow> broker_thread \<Rightarrow> rpc_controller result" where
  "deref_ctrl p st = (case ctrl_heap st p of None \<Rightarrow> Inl Use_After_Free | Some c \<Rightarrow> Inr c)"

definition send_request ::
  "broker_env \<Rightarrow> message_iterator \<Rightarrow> broker_thread \<Rightarrow> (message_iterator \<times> broker_thread) result" where
  "send_request env iter st =
     boost_assert (has_more iter) (
     bindE (read_connection_info iter connection_info_default) (\<lambda>(info, iter).
     boost_assert (is_connection_info_legal info st) (
     boost_assert (has_more iter) (
     bindE (read_pointer iter) (\<lambda>(controller, iter).
     boost_assert (controller \<noteq> NULL) (
     bindE (deref_ctrl controller st) (\<lambda>c.
     let ev_id = get_event_id c;
         timeout_ms = get_timeout_ms c
     in bindE (if timeout_ms \<noteq> - 1
               then bindE (get_worker_index (be_hash env) info st) (\<lambda>w.
                    Inr (reactor_run_closure_at (be_now env + timeout_ms)
                           (new_callback (Handle_Timeout ev_id w)) st))
               else Inr st) (\<lambda>st.
        bindE (forward_to info iter st) (\<lambda>(iter, st).
        bindE (start_rpc (be_hash env) info controller st) (\<lambda>st.
        Inr (iter, st)))))))))))"

definition send_reply ::
  "message_iterator \<Rightarrow> broker_thread \<Rightarrow> (message_iterator \<times> broker_thread) result" where
  "send_reply iter st =
     boost_assert (has_more iter) (
     bindE (read_connection_info iter connection_info_default) (\<lambda>(info, iter).
     boost_assert (is_connection_info_legal info st) (forward_to info iter st)))"

definition register_service ::
  "boost_hash \<Rightarrow> message_iterator \<Rightarrow> broker_thread
    \<Rightarrow> (message_iterator \<times> broker_thread) result" where
  "register_service bh iter st =
     boost_assert (has_more iter) (
     bindE (read_connection_info iter connection_info_default) (\<lambda>(info, iter).
     boost_assert (is_connection_info_legal info st) (
     boost_assert (has_more iter) (
     bindE (read_string iter) (\<lambda>(name, iter).
     boost_assert (has_more iter) (
     bindE (read_pointer iter) (\<lambda>(svc, iter).
     boost_assert (\<not> has_more iter) (
     boost_assert (svc \<noteq> NULL) (
     bindE (get_worker_index bh info st) (\<lambda>w.
     bindE (on_commander (commander_register_svc (ucast w) info name svc) st) (\<lambda>st.
     Inr (iter, st))))))))))))"

section \<open>Messages from the network\<close>

definition handle_socket ::
  "boost_hash \<Rightarrow> connection_info \<Rightarrow> message_iterator \<Rightarrow> broker_thread
    \<Rightarrow> (message_iterator \<times> broker_thread) result" where
  "handle_socket bh info iter st =
     bindE (next_msg iter) (\<lambda>(msg, iter).
     if length msg \<noteq> 0 then Inr (iter, st)
     else if \<not> has_more iter then Inr (iter, st)
     else
       let cmd = new_handle_data_cmd
       in bindE (next_msg iter) (\<lambda>(header, iter).
          let cmd = cmd\<lparr>hd_header := header\<rparr>
          in bindE (if has_more iter
                    then bindE (next_msg iter) (\<lambda>(payload, iter).
                         Inr (cmd\<lparr>hd_payload := payload\<rparr>, iter))
                    else Inr (cmd, iter)) (\<lambda>(cmd, iter).
             let cmd = cmd\<lparr>hd_info := Some info\<rparr>
             in bindE (get_worker_index bh info st) (\<lambda>w.
                bindE (on_commander (commander_handle_data (ucast w) cmd) st) (\<lambda>st.
                Inr (iter, st))))))"

definition handle_router_socket ::
  "boost_hash \<Rightarrow> uint64 \<Rightarrow> broker_thread \<Rightarrow> broker_thread result" where
  "handle_router_socket bh router_index st =
     boost_assert (is_router_index_legal router_index st) (
     with_iterator (router_sockets st ! unat router_index) (\<lambda>iter st.
       bindE (read_string iter) (\<lambda>(sender, iter).
       if \<not> has_more iter then Inr (iter, st)
       else handle_socket bh (connection_info_router router_index sender) iter st)) st)"

definition handle_dealer_socket ::
  "boost_hash \<Rightarrow> uint64 \<Rightarrow> broker_thread \<Rightarrow> broker_thread result" where
  "handle_dealer_socket bh dealer_index st =
     boost_assert (is_dealer_index_legal dealer_index st) (
     with_iterator (dealer_sockets st ! unat dealer_index) (\<lambda>iter st.
       handle_socket bh (connection_info_dealer dealer_index) iter st) st)"

definition handle_timeout :: "uint64 \<Rightarrow> size_t \<Rightarrow> broker_thread \<Rightarrow> broker_thread result" where
  "handle_timeout ev_id worker_index st =
     boost_assert (bt_workers st \<noteq> 0) (
     let worker_index = worker_index mod scast (bt_workers st)
     in on_commander (commander_handle_timeout (ucast worker_index) ev_id) st)"

section \<open>The frontend socket\<close>

definition dispatch_command ::
  "broker_env \<Rightarrow> char \<Rightarrow> string \<Rightarrow> message_iterator \<Rightarrow> broker_thread
    \<Rightarrow> (message_iterator \<times> broker_thread) result" where
  "dispatch_command env command sender iter st =
     (if command = kQuit then Inr (iter, handle_quit_command st)
      else if command = kConnect then
        bindE (read_string iter) (\<lambda>(endpoint, iter).
        bindE (handle_connect_command env sender endpoint st) (\<lambda>st. Inr (iter, st)))
      else if command = kBind then handle_bind_command_iter env sender iter st
      else if command = kUnbind then
        bindE (read_string iter) (\<lambda>(endpoint, iter).
        bindE (handle_unbind_command sender endpoint st) (\<lambda>st. Inr (iter, st)))
      else if command = kRequest then send_request env iter st
      else if command = kReply then send_reply iter st
      else if command = kRunClosure then
        bindE (read_pointer iter) (\<lambda>(cl, iter).
        bindE (add_closure env cl st) (\<lambda>st. Inr (iter, st)))
      else if command = kRegisterSvc then register_service (be_hash env) iter st
      else Inl Boost_Assert)"

definition handle_frontend_socket ::
  "broker_env \<Rightarrow> ptr \<Rightarrow> broker_thread \<Rightarrow> broker_thread result" where
  "handle_frontend_socket env frontend st =
     with_iterator frontend (\<lambda>iter st.
       bindE (read_string iter) (\<lambda>(sender, iter).
       bindE (next_msg iter) (\<lambda>(msg, iter).
       google_check (length msg = 0) (
       bindE (read_char iter) (\<lambda>(command, iter).
       dispatch_command env command sender iter st))))) st"

section \<open>The thread\<close>

fun invoke :: "broker_env \<Rightarrow> broker_callback \<Rightarrow> broker_thread \<Rightarrow> broker_thread result" where
  "invoke env (Handle_Frontend_Socket p) st = handle_frontend_socket env p st"
| "invoke env (Handle_Dealer_Socket i) st = handle_dealer_socket (be_hash env) i st"
| "invoke env (Handle_Router_Socket i) st = handle_router_socket (be_hash env) i st"
| "invoke env (Handle_Timeout e w) st = handle_timeout e w st"
| "invoke env (Handle_Socket_Deleted s) st = handle_socket_deleted s st"

definition broker_closure_run ::
  "broker_env \<Rightarrow> broker_closure \<Rightarrow> broker_thread \<Rightarrow> broker_thread result" where
  "broker_closure_run env = closure_run (invoke env) delete_closure"

definition broker_run ::
  "bool \<Rightarrow> ptr \<Rightarrow> socket \<Rightarrow> workers_commander \<Rightarrow> (ptr \<Rightarrow> rpc_controller option) \<Rightarrow> sync_event
    \<Rightarrow> (broker_env \<times> poll_result) list \<Rightarrow> (int option \<times> broker_thread) result" where
  "broker_run uninitialised frontend fe_sock wkrs_cmdr ctrls ready_event rounds =
     bindE (new_broker_thread uninitialised frontend fe_sock wkrs_cmdr ctrls ready_event)
       (\<lambda>(st, _).
     bindE (reactor_loop (map (\<lambda>(env, pr). (broker_closure_run env, pr)) rounds) st)
       (\<lambda>(rc, st).
     case rc of None \<Rightarrow> Inr (None, st)
     | Some r \<Rightarrow> bindE (reactor_destroy st) (\<lambda>st. Inr (Some r, st))))"

section \<open>The laws the reactor asks for\<close>

text \<open>
  No closure of the broker touches the poll items or removes a registered socket, and one that
  registers a socket marks the reactor dirty.
\<close>

named_theorems grew_intros "operations under which the broker only grows"

definition grows :: "broker_thread \<Rightarrow> broker_thread \<Rightarrow> bool" where
  "grows st st' \<longleftrightarrow> r_pollitems st' = r_pollitems st \<and> prefix (r_sockets st) (r_sockets st')
     \<and> (is_dirty st' \<or> \<not> is_dirty st \<and> r_sockets st' = r_sockets st)
     \<and> frontend_socket st' = frontend_socket st \<and> bt_workers st' = bt_workers st
     \<and> ctrl_heap st' = ctrl_heap st"

lemma grows_refl [simp]: "grows st st"
  by (auto simp: grows_def)

lemma grows_trans: "grows a b \<Longrightarrow> grows b c \<Longrightarrow> grows a c"
  by (auto simp: grows_def)

lemma grows_zsocks [simp]: "grows st (st'\<lparr>zsocks := z\<rparr>) = grows st st'"
  by (simp add: grows_def)

lemma grows_add_socket [grew_intros]: "grows st st' \<Longrightarrow> grows st (reactor_add_socket p c st')"
  by (auto simp: grows_def reactor_add_socket_def prefix_def)

lemma grows_del_socket [grew_intros]: "grows st st' \<Longrightarrow> grows st (reactor_del_socket p c st')"
  by (auto simp: grows_def reactor_del_socket_def)

lemma grows_run_closure_at [grew_intros]:
  "grows st st' \<Longrightarrow> grows st (reactor_run_closure_at t c st')"
  by (auto simp: grows_def reactor_run_closure_at_def)

lemma grows_fields [simp]:
  "grows st (st'\<lparr>dealer_sockets := d\<rparr>) = grows st st'"
  "grows st (st'\<lparr>router_sockets := d\<rparr>) = grows st st'"
  "grows st (st'\<lparr>bind_map := m\<rparr>) = grows st st'"
  "grows st (st'\<lparr>bt_commander := wc\<rparr>) = grows st st'"
  "grows st (set_should_quit st') = grows st st'"
  "grows st (delete_closure cl st') = grows st st'"
  by (simp_all add: grows_def set_should_quit_def delete_closure_def)

abbreviation grew :: "broker_thread \<Rightarrow> broker_thread result \<Rightarrow> bool" where
  "grew st \<equiv> ensures (grows st)"

abbreviation grew_iter :: "broker_thread \<Rightarrow> (message_iterator \<times> broker_thread) result \<Rightarrow> bool" where
  "grew_iter st \<equiv> ensures (\<lambda>(it, st'). grows st st')"

text \<open>Sequencing, by what the first operation returns.\<close>

lemma grew_bindE [grew_intros]:
  "grew st r \<Longrightarrow> (\<And>x. grows st x \<Longrightarrow> ensures P (k x)) \<Longrightarrow> ensures P (bindE r k)"
  by (rule ensures_bindE)

lemma grew_iter_bindE [grew_intros]:
  "grew_iter st r \<Longrightarrow> (\<And>it x. grows st x \<Longrightarrow> ensures P (k (it, x))) \<Longrightarrow> ensures P (bindE r k)"
  by (rule ensures_bindE [where Q = "\<lambda>(it, x). grows st x"]) auto

lemma ensures_bindE_reads [ensures_intros]:
  fixes r :: "('a \<times> message_iterator) result"
  shows "(\<And>x it. ensures P (k (x, it))) \<Longrightarrow> ensures P (bindE r k)"
  by (rule ensures_bindE_any) auto

lemma ensures_bindE_socket [ensures_intros]:
  "(\<And>s. ensures P (k s)) \<Longrightarrow> ensures P (bindE (deref_socket p st) k)"
  by (rule ensures_bindE_any)

lemma ensures_bindE_ctrl [ensures_intros]:
  "(\<And>s. ensures P (k s)) \<Longrightarrow> ensures P (bindE (deref_ctrl p st) k)"
  by (rule ensures_bindE_any)

lemma ensures_bindE_worker [ensures_intros]:
  "(\<And>s. ensures P (k s)) \<Longrightarrow> ensures P (bindE (get_worker_index bh info st) k)"
  by (rule ensures_bindE_any)

lemma grew_on_socket [grew_intros]: "grows st st' \<Longrightarrow> grew st (on_socket p f st')"
  by (rule ensuresI) (auto simp: result_simps)

lemma grew_on_commander [grew_intros]: "grows st st' \<Longrightarrow> grew st (on_commander f st')"
  by (rule ensuresI) (auto simp: on_commander_def result_simps)

lemma grew_with_iterator [grew_intros]:
  "(\<And>it. grew_iter st (body it st)) \<Longrightarrow> grew st (with_iterator p body st)"
  unfolding with_iterator_def
  by (intro ensures_intros grew_intros ensures_bindE_any [where r = "message_iterator_destroy it" for it]) auto

lemma grew_handle_connect_command [grew_intros]:
  "grows st st' \<Longrightarrow> grew st (handle_connect_command env sender endpoint st')"
  unfolding handle_connect_command_def Let_def
  by (intro ensures_intros grew_intros) simp_all

lemma grew_handle_bind_command [grew_intros]:
  "grows st st' \<Longrightarrow> grew st (handle_bind_command env sender endpoint st')"
  unfolding handle_bind_command_def Let_def
  by (intro ensures_intros grew_intros) simp_all

lemma grew_handle_bind_command_iter [grew_intros]:
  "grows st st' \<Longrightarrow> grew_iter st (handle_bind_command_iter env sender iter st')"
  unfolding handle_bind_command_iter_def
  by (intro ensures_intros grew_intros) simp_all

lemma grew_handle_unbind_command [grew_intros]:
  "grows st st' \<Longrightarrow> grew st (handle_unbind_command sender endpoint st')"
  unfolding handle_unbind_command_def Let_def
  by (auto split: option.split intro!: ensures_intros grew_intros)

lemma grew_handle_socket_deleted [grew_intros]:
  "grows st st' \<Longrightarrow> grew st (handle_socket_deleted sender st')"
  unfolding handle_socket_deleted_def by (intro ensures_intros grew_intros)

lemma grew_forward_to [grew_intros]:
  "grows st st' \<Longrightarrow> grew_iter st (forward_to info iter st')"
  unfolding forward_to_def Let_def
  by (intro ensures_intros grew_intros ensures_bindE_any [where r = "forward_messages it s" for it s])
    simp_all

lemma grew_start_rpc [grew_intros]: "grows st st' \<Longrightarrow> grew st (start_rpc bh info c st')"
  unfolding start_rpc_def by (intro ensures_intros grew_intros)

lemma grew_add_closure [grew_intros]: "grows st st' \<Longrightarrow> grew st (add_closure env c st')"
  unfolding add_closure_def Let_def by (intro ensures_intros grew_intros)

lemma grew_send_request [grew_intros]:
  "grows st st' \<Longrightarrow> grew_iter st (send_request env iter st')"
  unfolding send_request_def Let_def
  by (intro ensures_intros grew_intros) simp_all

lemma grew_send_reply [grew_intros]: "grows st st' \<Longrightarrow> grew_iter st (send_reply iter st')"
  unfolding send_reply_def by (intro ensures_intros grew_intros)

lemma grew_register_service [grew_intros]:
  "grows st st' \<Longrightarrow> grew_iter st (register_service bh iter st')"
  unfolding register_service_def by (intro ensures_intros grew_intros) simp_all

lemma grew_handle_socket [grew_intros]:
  "grows st st' \<Longrightarrow> grew_iter st (handle_socket bh info iter st')"
  unfolding handle_socket_def Let_def by (intro ensures_intros grew_intros) simp_all

lemma grew_handle_router_socket [grew_intros]: "grew st (handle_router_socket bh i st)"
  unfolding handle_router_socket_def by (intro ensures_intros grew_intros) simp_all

lemma grew_handle_dealer_socket [grew_intros]: "grew st (handle_dealer_socket bh i st)"
  unfolding handle_dealer_socket_def by (intro ensures_intros grew_intros) simp_all

lemma grew_handle_timeout [grew_intros]: "grew st (handle_timeout e w st)"
  unfolding handle_timeout_def Let_def by (intro ensures_intros grew_intros) simp_all

lemma grew_dispatch_command [grew_intros]:
  "grew_iter st (dispatch_command env c sender iter st)"
  unfolding dispatch_command_def handle_quit_command_def
  by (intro ensures_intros grew_intros) simp_all

lemma grew_handle_frontend_socket [grew_intros]: "grew st (handle_frontend_socket env p st)"
  unfolding handle_frontend_socket_def by (intro ensures_intros grew_intros)

lemma grew_invoke: "grew st (invoke env c st)"
  by (cases c) (simp_all add: grew_intros)

lemma broker_closure_run_grows: "broker_closure_run env cl st = Inr st' \<Longrightarrow> grows st st'"
  unfolding broker_closure_run_def
  by (erule closure_run_keeps) (auto intro: ensuresD [OF grew_invoke])

text \<open>The closure \<open>del_socket\<close> gets writes one message to the frontend socket.\<close>

definition is_socket_deleted :: "broker_closure \<Rightarrow> bool" where
  "is_socket_deleted cl = (case bound_call cl of Handle_Socket_Deleted _ \<Rightarrow> True | _ \<Rightarrow> False)"

definition is_timer :: "broker_closure \<Rightarrow> bool" where
  "is_timer cl = (case bound_call cl of Handle_Timeout _ _ \<Rightarrow> True | _ \<Rightarrow> False)"

lemma broker_closure_run_socket_deleted:
  assumes "is_socket_deleted cl" and "zsocks st (frontend_socket st) \<noteq> None"
  shows "\<exists>st'. broker_closure_run env cl st = Inr st' \<and> quiet_frame st st'"
proof -
  obtain s where s: "bound_call cl = Handle_Socket_Deleted s"
    using assms(1) by (auto simp: is_socket_deleted_def split: broker_callback.splits)
  show ?thesis
    using assms(2)
    by (auto simp: broker_closure_run_def closure_run_def s handle_socket_deleted_def on_socket_Some
        quiet_frame_def delete_closure_def Let_def)
qed

lemma broker_closure_run_timer:
  assumes "is_timer cl" and "broker_closure_run env cl st = Inr st'"
  shows "r_closure_run_map st' = r_closure_run_map st"
proof -
  obtain e w where "bound_call cl = Handle_Timeout e w"
    using assms(1) by (auto simp: is_timer_def split: broker_callback.splits)
  then show ?thesis
    using assms(2)
    by (auto simp: broker_closure_run_def closure_run_def handle_timeout_def on_commander_def
        delete_closure_def Let_def result_simps split: if_splits)
qed

lemma frontend_socket_extend [simp]:
  "frontend_socket (reactor.extend r (reactor.more st)) = frontend_socket st"
  by (cases st) (simp add: reactor.defs)

interpretation broker_loop: reactor_timers "broker_closure_run env" is_socket_deleted
  "\<lambda>z. frontend_socket (reactor.extend (new_reactor False) z)" is_timer for env
proof unfold_locales
  fix cl and st st' :: broker_thread
  assume run: "broker_closure_run env cl st = Inr st'"
  show "r_pollitems st' = r_pollitems st" "prefix (r_sockets st) (r_sockets st')"
    "is_dirty st' \<or> \<not> is_dirty st \<and> r_sockets st' = r_sockets st"
    using broker_closure_run_grows [OF run] by (simp_all add: grows_def)
next
  fix cl and st :: broker_thread
  assume "is_socket_deleted cl"
    and "zsocks st (frontend_socket (reactor.extend (new_reactor False) (reactor.more st))) \<noteq> None"
  then show "\<exists>st'. broker_closure_run env cl st = Inr st' \<and> quiet_frame st st'"
    using broker_closure_run_socket_deleted by simp
next
  fix cl and st st' :: broker_thread
  assume "is_timer cl" and "broker_closure_run env cl st = Inr st'"
  then show "r_closure_run_map st' = r_closure_run_map st"
    by (rule broker_closure_run_timer)
qed

end
