(* ===== verification/Broker_Inv.thy ===== *)
theory Broker_Inv
  imports Broker
begin

text \<open>
  The invariant of the broker: which sockets exist, which closure is registered for which of
  them, what the index vectors and the map of bound endpoints say about them, and what waits in
  the timer map. Every closure, every poll round and the whole loop keep it.
\<close>

section \<open>The invariant\<close>

definition router_entry :: "(ptr \<times> broker_closure) set \<Rightarrow> ptr \<Rightarrow> bool" where
  "router_entry rs p \<longleftrightarrow> (\<exists>i. (p, new_permanent_callback (Handle_Router_Socket i)) \<in> rs)"

text \<open>What a registered entry other than the frontend's is.\<close>

definition registered :: "ptr list \<Rightarrow> ptr list \<Rightarrow> ptr \<times> broker_closure \<Rightarrow> bool" where
  "registered dealers routers e \<longleftrightarrow>
     (\<exists>i. 0 < i \<and> unat i < length dealers \<and> dealers ! unat i = fst e
        \<and> snd e = new_permanent_callback (Handle_Dealer_Socket i))
     \<or> (\<exists>i. 0 < i \<and> unat i < length routers \<and> routers ! unat i = fst e
        \<and> snd e = new_permanent_callback (Handle_Router_Socket i))"

definition sockets_inv ::
  "(ptr \<times> broker_closure) list \<Rightarrow> (ptr, broker_closure) std_multimap \<Rightarrow> ptr set \<Rightarrow> ptr list
    \<Rightarrow> ptr list \<Rightarrow> (string, ptr) std_map \<Rightarrow> ptr \<Rightarrow> bool" where
  "sockets_inv rs del live dealers routers bm frontend \<longleftrightarrow>
     rs \<noteq> [] \<and> hd rs = (frontend, new_permanent_callback (Handle_Frontend_Socket frontend))
     \<and> distinct (map fst rs) \<and> NULL \<notin> fst ` set rs \<and> fst ` set rs \<subseteq> live
     \<and> (\<forall>e \<in> set (tl rs). registered dealers routers e)
     \<and> dealers \<noteq> [] \<and> hd dealers = NULL \<and> routers \<noteq> [] \<and> hd routers = NULL
     \<and> length dealers < 2 ^ 64 \<and> length routers < 2 ^ 64
     \<and> (\<forall>i. 0 < i \<and> unat i < length dealers \<longrightarrow>
          (dealers ! unat i, new_permanent_callback (Handle_Dealer_Socket i)) \<in> set (tl rs))
     \<and> map_ok bm \<and> distinct (map snd bm)
     \<and> (\<forall>p \<in> snd ` set bm. router_entry (set (tl rs)) p \<and> p \<notin> fst ` set del)
     \<and> (\<forall>p \<in> fst ` set del. router_entry (set (tl rs)) p)
     \<and> (\<forall>c \<in> snd ` set del. is_socket_deleted c)"

definition broker_sockets_inv :: "broker_thread \<Rightarrow> bool" where
  "broker_sockets_inv st \<longleftrightarrow> sockets_inv (r_sockets st) (r_del_sockets st) (dom (zsocks st))
     (dealer_sockets st) (router_sockets st) (bind_map st) (frontend_socket st)"

definition workers_inv :: "broker_thread \<Rightarrow> bool" where
  "workers_inv st \<longleftrightarrow> commander_ok (bt_commander st) \<and> bt_workers st = wc_workers (bt_commander st)"

definition timers_inv :: "(uint64, broker_closure list) std_map \<Rightarrow> bool" where
  "timers_inv m \<longleftrightarrow> map_ok m \<and> (\<forall>cs \<in> snd ` set m. \<forall>c \<in> set cs. is_timer c)"

definition broker_inv :: "broker_thread \<Rightarrow> bool" where
  "broker_inv st \<longleftrightarrow> broker_sockets_inv st \<and> workers_inv st
     \<and> timers_inv (r_closure_run_map st)"

text \<open>What a round's environment must satisfy: the address of a new object is of no live one.\<close>

definition env_ok :: "broker_env \<Rightarrow> broker_thread \<Rightarrow> bool" where
  "env_ok env st \<longleftrightarrow> be_new_socket env \<noteq> NULL \<and> zsocks st (be_new_socket env) = None
     \<and> length (dealer_sockets st) < 2 ^ 64 - 1 \<and> length (router_sockets st) < 2 ^ 64 - 1"

section \<open>Consequences\<close>

lemma broker_inv_sockets_ok:
  assumes "broker_inv st"
  shows "sockets_ok st" "r_sockets st \<noteq> []" "fst (hd (r_sockets st)) = frontend_socket st"
    "\<forall>c \<in> snd ` set (r_del_sockets st). is_socket_deleted c"
  using assms
  by (auto simp: broker_inv_def broker_sockets_inv_def sockets_inv_def sockets_ok_def)

lemma broker_inv_frontend:
  assumes "broker_inv st"
  shows "\<exists>s. zsocks st (frontend_socket st) = Some s"
proof -
  have "hd (r_sockets st) \<in> set (r_sockets st)" "sockets_ok st"
    "fst (hd (r_sockets st)) = frontend_socket st"
    using broker_inv_sockets_ok [OF assms] by simp_all
  then show ?thesis unfolding sockets_ok_def by (metis not_Some_eq)
qed

text \<open>A legal dealer index is the index of a live socket that is not the frontend socket.\<close>

lemma broker_inv_dealer:
  assumes "broker_inv st" and "is_dealer_index_legal i st"
  shows "\<exists>s. zsocks st (dealer_sockets st ! unat i) = Some s"
    and "dealer_sockets st ! unat i \<noteq> frontend_socket st"
    and "dealer_sockets st ! unat i \<noteq> NULL"
proof -
  let ?p = "dealer_sockets st ! unat i"
  let ?e = "(?p, new_permanent_callback (Handle_Dealer_Socket i))"
  have inv: "r_sockets st \<noteq> []" "fst (hd (r_sockets st)) = frontend_socket st"
    "distinct (map fst (r_sockets st))" "NULL \<notin> fst ` set (r_sockets st)"
    "fst ` set (r_sockets st) \<subseteq> dom (zsocks st)" and e: "?e \<in> set (tl (r_sockets st))"
    using assms unfolding broker_inv_def broker_sockets_inv_def sockets_inv_def
      is_dealer_index_legal_def by auto
  obtain x xs where xs: "r_sockets st = x # xs" using inv(1) by (cases "r_sockets st") auto
  define K where "K = fst ` set xs"
  have "?p \<in> K" using e xs unfolding K_def by force
  moreover have "frontend_socket st \<notin> K" "NULL \<notin> K" "K \<subseteq> dom (zsocks st)"
    using inv xs unfolding K_def by auto
  ultimately show "\<exists>s. zsocks st ?p = Some s" "?p \<noteq> frontend_socket st" "?p \<noteq> NULL"
    by auto
qed

section \<open>Steps that keep the parts\<close>

abbreviation keeps_sockets :: "broker_thread result \<Rightarrow> bool" where
  "keeps_sockets \<equiv> ensures broker_sockets_inv"

named_theorems inv_intros "operations that keep the invariant"

lemma dom_update_Some: "m p = Some y \<Longrightarrow> dom (m(p \<mapsto> x)) = dom m"
  by (simp add: insert_absorb domIff)

lemma on_socket_dom: "on_socket p f st = Inr st' \<Longrightarrow> dom (zsocks st') = dom (zsocks st)"
  unfolding on_socket_eq_Inr using dom_update_Some [of "zsocks st" p] by fastforce

lemma broker_inv_frames [simp]:
  "broker_inv (st\<lparr>deleted_closures := cs\<rparr>) = broker_inv st"
  "broker_inv (st\<lparr>should_quit := q\<rparr>) = broker_inv st"
  "broker_inv (st\<lparr>is_dirty := d\<rparr>) = broker_inv st"
  "broker_inv (st\<lparr>r_pollitems := ps\<rparr>) = broker_inv st"
  by (simp_all add: broker_inv_def broker_sockets_inv_def workers_inv_def)

lemma broker_inv_zsocks:
  "dom z = dom (zsocks st) \<Longrightarrow> broker_inv (st\<lparr>zsocks := z\<rparr>) = broker_inv st"
  by (simp add: broker_inv_def broker_sockets_inv_def workers_inv_def)

lemma broker_inv_update:
  "zsocks st p = Some y \<Longrightarrow> broker_inv (st\<lparr>zsocks := (zsocks st)(p \<mapsto> x)\<rparr>) = broker_inv st"
  by (rule broker_inv_zsocks) (rule dom_update_Some)

lemma broker_inv_on_socket [inv_intros]:
  "broker_inv st \<Longrightarrow> ensures broker_inv (on_socket p f st)"
  unfolding ensures_def on_socket_def deref_socket_def bindE_def
  by (auto simp: broker_inv_update split: option.split sum.split)

lemma broker_inv_commander [inv_intros]:
  assumes "broker_inv st"
    and "\<And>wc'. f (bt_commander st) = Inr wc' \<Longrightarrow> \<exists>i c. i < wc_workers (bt_commander st)
      \<and> wc' = push i c (bt_commander st)"
  shows "ensures broker_inv (on_commander f st)"
proof (rule ensuresI)
  fix st' assume "on_commander f st = Inr st'"
  then obtain i c where "i < wc_workers (bt_commander st)"
    "st' = st\<lparr>bt_commander := push i c (bt_commander st)\<rparr>"
    using assms(2) by (auto simp: on_commander_def result_simps)
  with assms(1) show "broker_inv st'"
    by (auto simp: broker_inv_def broker_sockets_inv_def workers_inv_def commander_ok_push)
qed

lemma broker_inv_run_closure_at:
  assumes "broker_inv st" and "is_timer c"
  shows "broker_inv (reactor_run_closure_at t c st)"
proof -
  let ?m = "r_closure_run_map st"
  let ?v = "(case map_of ?m t of None \<Rightarrow> [] | Some v \<Rightarrow> v) @ [c]"
  have m: "map_ok ?m" "\<forall>cs \<in> snd ` set ?m. \<forall>c \<in> set cs. is_timer c"
    using assms(1) by (simp_all add: broker_inv_def timers_inv_def)
  have v: "\<forall>d \<in> set ?v. is_timer d"
    using m(2) assms(2) by (cases "map_of ?m t") (auto dest: map_of_SomeD)
  have "timers_inv (map_insert t ?v ?m)"
    using m v set_map_insert [of t ?v ?m] map_ok_map_insert [OF m(1)] unfolding timers_inv_def by fastforce
  then show ?thesis
    using assms(1)
    by (simp add: broker_inv_def reactor_run_closure_at_def broker_sockets_inv_def workers_inv_def)
qed

section \<open>New sockets\<close>

lemma registered_append:
  "registered ds rts e \<Longrightarrow> registered (ds @ xs) (rts @ ys) e"
  unfolding registered_def by (auto simp: nth_append)

lemma of_nat_unat_length:
  "unat (i :: 64 word) = n \<Longrightarrow> word_of_nat n = i"
  by auto

lemma unat_of_nat_small: "n < 2 ^ 64 \<Longrightarrow> unat (word_of_nat n :: 64 word) = n"
  by (simp add: unat_of_nat)

lemma word_of_nat_pos: "0 < n \<Longrightarrow> n < 2 ^ 64 \<Longrightarrow> 0 < (word_of_nat n :: 64 word)"
  by (simp add: word_less_nat_alt unat_of_nat_small)

lemma router_entry_mono: "router_entry rs p \<Longrightarrow> rs \<subseteq> rs' \<Longrightarrow> router_entry rs' p"
  by (auto simp: router_entry_def)

lemma router_entry_live:
  "router_entry (set (tl rs)) p \<Longrightarrow> fst ` set rs \<subseteq> live \<Longrightarrow> p \<in> live"
  unfolding router_entry_def by (metis fst_conv image_eqI list.set_sel(2) list.sel(2) subsetD)

lemma sockets_invD:
  assumes "sockets_inv rs del live ds rts bm fe"
  shows "rs \<noteq> []" "hd rs = (fe, new_permanent_callback (Handle_Frontend_Socket fe))"
    "distinct (map fst rs)" "NULL \<notin> fst ` set rs" "fst ` set rs \<subseteq> live"
    "\<forall>e \<in> set (tl rs). registered ds rts e"
    "ds \<noteq> []" "hd ds = NULL" "rts \<noteq> []" "hd rts = NULL"
    "length ds < 2 ^ 64" "length rts < 2 ^ 64"
    "\<forall>i. 0 < i \<and> unat i < length ds \<longrightarrow>
        (ds ! unat i, new_permanent_callback (Handle_Dealer_Socket i)) \<in> set (tl rs)"
    "map_ok bm" "distinct (map snd bm)"
    "\<forall>p \<in> snd ` set bm. router_entry (set (tl rs)) p \<and> p \<notin> fst ` set del"
    "\<forall>p \<in> fst ` set del. router_entry (set (tl rs)) p"
    "\<forall>c \<in> snd ` set del. is_socket_deleted c"
  using assms unfolding sockets_inv_def by - (elim conjE, assumption)+

lemma sockets_invI:
  assumes "rs \<noteq> []" "hd rs = (fe, new_permanent_callback (Handle_Frontend_Socket fe))"
    "distinct (map fst rs)" "NULL \<notin> fst ` set rs" "fst ` set rs \<subseteq> live"
    "\<forall>e \<in> set (tl rs). registered ds rts e"
    "ds \<noteq> []" "hd ds = NULL" "rts \<noteq> []" "hd rts = NULL"
    "length ds < 2 ^ 64" "length rts < 2 ^ 64"
    "\<And>i. 0 < i \<Longrightarrow> unat i < length ds \<Longrightarrow>
        (ds ! unat i, new_permanent_callback (Handle_Dealer_Socket i)) \<in> set (tl rs)"
    "map_ok bm" "distinct (map snd bm)"
    "\<And>p. p \<in> snd ` set bm \<Longrightarrow> router_entry (set (tl rs)) p"
    "\<And>p. p \<in> snd ` set bm \<Longrightarrow> p \<notin> fst ` set del"
    "\<And>p. p \<in> fst ` set del \<Longrightarrow> router_entry (set (tl rs)) p"
    "\<And>c. c \<in> snd ` set del \<Longrightarrow> is_socket_deleted c"
  shows "sockets_inv rs del live ds rts bm fe"
  unfolding sockets_inv_def using assms by (intro conjI allI impI ballI; (elim conjE)?; assumption?) auto

text \<open>The entries that one more socket does not touch.\<close>

lemma sockets_inv_new_entry:
  assumes "sockets_inv rs del live ds rts bm fe" and "p \<notin> live" "p \<noteq> NULL"
  shows "rs @ [(p, c)] \<noteq> []" "tl (rs @ [(p, c)]) = tl rs @ [(p, c)]"
    "hd (rs @ [(p, c)]) = (fe, new_permanent_callback (Handle_Frontend_Socket fe))"
    "distinct (map fst (rs @ [(p, c)]))" "NULL \<notin> fst ` set (rs @ [(p, c)])"
    "fst ` set (rs @ [(p, c)]) \<subseteq> insert p live"
    "p \<notin> snd ` set bm" "p \<notin> fst ` set del"
    "\<And>q. router_entry (set (tl rs)) q \<Longrightarrow> router_entry (set (tl rs @ [(p, c)])) q"
proof -
  note inv = sockets_invD [OF assms(1)]
  show "rs @ [(p, c)] \<noteq> []" "tl (rs @ [(p, c)]) = tl rs @ [(p, c)]"
    "hd (rs @ [(p, c)]) = (fe, new_permanent_callback (Handle_Frontend_Socket fe))"
    using inv(1,2) by simp_all
  have "p \<notin> fst ` set rs" using inv(5) assms(2) by blast
  then show "distinct (map fst (rs @ [(p, c)]))" "NULL \<notin> fst ` set (rs @ [(p, c)])"
    using inv(3,4) assms(3) by simp_all
  show "fst ` set (rs @ [(p, c)]) \<subseteq> insert p live" using inv(5) by auto
  have "q \<in> live" if "router_entry (set (tl rs)) q" for q
    using router_entry_live [OF that inv(5)] .
  then show "p \<notin> snd ` set bm" "p \<notin> fst ` set del"
    using inv(16,17) assms(2) by blast+
  show "router_entry (set (tl rs @ [(p, c)])) q" if "router_entry (set (tl rs)) q" for q
    using that by (rule router_entry_mono) auto
qed

lemma sockets_inv_connect:
  assumes "sockets_inv rs del live ds rts bm fe" and "p \<notin> live" "p \<noteq> NULL"
    and "length ds < 2 ^ 64 - 1"
  shows "sockets_inv
    (rs @ [(p, new_permanent_callback (Handle_Dealer_Socket (word_of_nat (length ds))))]) del
    (insert p live) (ds @ [p]) rts bm fe"
proof -
  let ?e = "(p, new_permanent_callback (Handle_Dealer_Socket (word_of_nat (length ds))))"
  note inv = sockets_invD [OF assms(1)]
  note new = sockets_inv_new_entry [OF assms(1-3)]
  have n: "0 < length ds" "length ds < 2 ^ 64" using inv(7) assms(4) by simp_all
  show ?thesis
  proof (rule sockets_invI)
    have "registered (ds @ [p]) rts ?e"
      unfolding registered_def using n
      by (intro disjI1 exI [of _ "word_of_nat (length ds)"])
        (simp add: word_of_nat_pos unat_of_nat_small)
    then show "\<forall>e \<in> set (tl (rs @ [?e])). registered (ds @ [p]) rts e"
      using inv(6) registered_append [of ds rts _ "[p]" "[]"] by (simp add: new(2))
  next
    fix i :: uint64
    assume i: "0 < i" "unat i < length (ds @ [p])"
    show "((ds @ [p]) ! unat i, new_permanent_callback (Handle_Dealer_Socket i))
        \<in> set (tl (rs @ [?e]))"
    proof (cases "unat i < length ds")
      case True
      with inv(13) i(1) show ?thesis by (simp add: nth_append new(2))
    next
      case False
      with i(2) have "unat i = length ds" by simp
      then show ?thesis using of_nat_unat_length [of i "length ds"] by (simp add: new(2))
    qed
  next
    show "length (ds @ [p]) < 2 ^ 64" using assms(4) by simp
    show "hd (ds @ [p]) = NULL" using inv(7,8) by simp
  next
    fix q assume "q \<in> snd ` set bm"
    then show "router_entry (set (tl (rs @ [?e]))) q" using inv(16) new(9) unfolding new(2) by blast
    show "q \<notin> fst ` set del" using inv(16) \<open>q \<in> snd ` set bm\<close> by blast
  next
    fix q assume "q \<in> fst ` set del"
    then show "router_entry (set (tl (rs @ [?e]))) q" using inv(17) new(9) unfolding new(2) by blast
  next
    fix c assume "c \<in> snd ` set del"
    then show "is_socket_deleted c" using inv(18) by blast
  qed (use inv new in simp_all)
qed

lemma sockets_inv_bind:
  assumes "sockets_inv rs del live ds rts bm fe" and "p \<notin> live" "p \<noteq> NULL"
    and "length rts < 2 ^ 64 - 1"
  shows "sockets_inv
    (rs @ [(p, new_permanent_callback (Handle_Router_Socket (word_of_nat (length rts))))]) del
    (insert p live) ds (rts @ [p]) (map_insert ep p bm) fe"
proof -
  let ?e = "(p, new_permanent_callback (Handle_Router_Socket (word_of_nat (length rts))))"
  note inv = sockets_invD [OF assms(1)]
  note new = sockets_inv_new_entry [OF assms(1-3)]
  have n: "0 < length rts" "length rts < 2 ^ 64" using inv(9) assms(4) by simp_all
  have vals: "q = p \<or> q \<in> snd ` set bm" if "q \<in> snd ` set (map_insert ep p bm)" for q
    using that set_map_insert [of ep p bm] by auto
  have p: "router_entry (set (tl rs @ [?e])) p"
    unfolding router_entry_def by auto
  show ?thesis
  proof (rule sockets_invI)
    have "registered ds (rts @ [p]) ?e"
      unfolding registered_def using n
      by (intro disjI2 exI [of _ "word_of_nat (length rts)"])
        (simp add: word_of_nat_pos unat_of_nat_small)
    then show "\<forall>e \<in> set (tl (rs @ [?e])). registered ds (rts @ [p]) e"
      using inv(6) registered_append [of ds rts _ "[]" "[p]"] by (simp add: new(2))
  next
    fix i :: uint64
    assume "0 < i" "unat i < length ds"
    then show "(ds ! unat i, new_permanent_callback (Handle_Dealer_Socket i))
        \<in> set (tl (rs @ [?e]))"
      using inv(13) by (simp add: new(2))
  next
    show "length (rts @ [p]) < 2 ^ 64" using assms(4) by simp
    show "hd (rts @ [p]) = NULL" using inv(9,10) by simp
    show "map_ok (map_insert ep p bm)" using inv(14) by (rule map_ok_map_insert)
    show "distinct (map snd (map_insert ep p bm))" using inv(15) new(7) by (rule distinct_map_insert)
  next
    fix q assume "q \<in> snd ` set (map_insert ep p bm)"
    from vals [OF this] show "router_entry (set (tl (rs @ [?e]))) q" "q \<notin> fst ` set del"
      using inv(16) new(8,9) p unfolding new(2) by blast+
  next
    fix q assume "q \<in> fst ` set del"
    then show "router_entry (set (tl (rs @ [?e]))) q" using inv(17) new(9) unfolding new(2) by blast
  next
    fix c assume "c \<in> snd ` set del"
    then show "is_socket_deleted c" using inv(18) by blast
  qed (use inv new in simp_all)
qed

lemma sockets_inv_unbind:
  assumes "sockets_inv rs del live ds rts bm fe" and "map_of bm ep = Some p"
    and "is_socket_deleted c"
  shows "sockets_inv rs (mm_insert p c del) live ds rts (map_erase ep bm) fe"
proof -
  note inv = sockets_invD [OF assms(1)]
  have mem: "(ep, p) \<in> set bm" using assms(2) by (rule map_of_SomeD)
  then have p: "p \<in> snd ` set bm" by force
  have keys: "fst ` set (mm_insert p c del) = insert p (fst ` set del)"
    "snd ` set (mm_insert p c del) = insert c (snd ` set del)"
    by (auto simp: mm_insert_def)
  have sub: "q \<in> snd ` set bm \<and> q \<noteq> p" if "q \<in> snd ` set (map_erase ep bm)" for q
    using that mem inv(15) unfolding map_erase_def distinct_map inj_on_def by force
  show ?thesis
  proof (rule sockets_invI)
    show "map_ok (map_erase ep bm)" using inv(14) by (rule map_ok_map_erase)
    show "distinct (map snd (map_erase ep bm))"
      using inv(15) unfolding map_erase_def by (rule distinct_map_filter)
  next
    fix q assume "q \<in> snd ` set (map_erase ep bm)"
    from sub [OF this] show "router_entry (set (tl rs)) q" "q \<notin> fst ` set (mm_insert p c del)"
      using inv(16) unfolding keys by auto
  next
    fix q assume "q \<in> fst ` set (mm_insert p c del)"
    then show "router_entry (set (tl rs)) q"
      using inv(16,17) p unfolding keys by blast
  next
    fix d assume "d \<in> snd ` set (mm_insert p c del)"
    then show "is_socket_deleted d" using inv(18) assms(3) unfolding keys by auto
  qed (use inv in simp_all)
qed

section \<open>What each command does\<close>

definition reply_frames :: "string \<Rightarrow> bytes \<Rightarrow> message list" where
  "reply_frames sender body = frame_enc sender True @ frame_enc [] True @ frame_enc body False"

definition the_socket :: "ptr \<Rightarrow> broker_thread \<Rightarrow> socket" where
  "the_socket p st = the (zsocks st p)"

lemma the_socket: "zsocks st p = Some s \<Longrightarrow> the_socket p st = s"
  by (simp add: the_socket_def)

lemma reply_out:
  "send_uint64 n 0 (send_empty_message ZMQ_SNDMORE (send_string sender ZMQ_SNDMORE s)) =
     s\<lparr>sock_out := sock_out s @ reply_frames sender (uint64_bytes n)\<rparr>"
  "send_empty_message 0 (send_empty_message ZMQ_SNDMORE (send_string sender ZMQ_SNDMORE s)) =
     s\<lparr>sock_out := sock_out s @ reply_frames sender []\<rparr>"
  by (simp_all add: reply_frames_def frame_enc_def send_defs socket_send_def frame_def)

text \<open>A command's reply goes out on the frontend socket.\<close>

definition replied :: "string \<Rightarrow> bytes \<Rightarrow> broker_thread \<Rightarrow> broker_thread" where
  "replied sender body st =
     (let fe = frontend_socket st; s = the_socket fe st
      in st\<lparr>zsocks := (zsocks st)(fe \<mapsto> s\<lparr>sock_out := sock_out s @ reply_frames sender body\<rparr>)\<rparr>)"

definition connected :: "broker_env \<Rightarrow> string \<Rightarrow> broker_thread \<Rightarrow> broker_thread" where
  "connected env endpoint st =
     (let p = be_new_socket env; n = word_of_nat (length (dealer_sockets st)) in
      st\<lparr>zsocks := (zsocks st)(p \<mapsto> (new_socket_t ZMQ_DEALER)
           \<lparr>sock_linger := Some 0, sock_connected := [c_str endpoint]\<rparr>),
         dealer_sockets := dealer_sockets st @ [p],
         r_sockets := r_sockets st @ [(p, new_permanent_callback (Handle_Dealer_Socket n))],
         is_dirty := True\<rparr>)"

definition bound :: "broker_env \<Rightarrow> string \<Rightarrow> broker_thread \<Rightarrow> broker_thread" where
  "bound env endpoint st =
     (let p = be_new_socket env; n = word_of_nat (length (router_sockets st)) in
      st\<lparr>zsocks := (zsocks st)(p \<mapsto> (new_socket_t ZMQ_ROUTER)
           \<lparr>sock_linger := Some 0, sock_sndhwm := Some 1000000, sock_bound := [c_str endpoint]\<rparr>),
         router_sockets := router_sockets st @ [p],
         bind_map := map_insert endpoint p (bind_map st),
         r_sockets := r_sockets st @ [(p, new_permanent_callback (Handle_Router_Socket n))],
         is_dirty := True\<rparr>)"

definition unbound :: "string \<Rightarrow> ptr \<Rightarrow> string \<Rightarrow> broker_thread \<Rightarrow> broker_thread" where
  "unbound endpoint p sender st =
     (reactor_del_socket p (new_callback (Handle_Socket_Deleted sender)) st)
       \<lparr>bind_map := map_erase endpoint (bind_map st)\<rparr>"

lemma broker_inv_lists:
  assumes "broker_inv st"
  shows "dealer_sockets st \<noteq> []" "router_sockets st \<noteq> []"
  using assms by (simp_all add: broker_inv_def broker_sockets_inv_def sockets_inv_def)

lemma handle_connect_command_eq:
  assumes "broker_inv st" and "env_ok env st"
  shows "handle_connect_command env sender endpoint st =
    (if be_connect_ok env (c_str endpoint)
     then Inr (replied sender (uint64_bytes (word_of_nat (length (dealer_sockets st))))
                 (connected env endpoint st))
     else Inl Zmq_Error)"
proof -
  obtain s where s: "zsocks st (frontend_socket st) = Some s"
    using broker_inv_frontend [OF assms(1)] by blast
  have "frontend_socket st \<noteq> be_new_socket env"
    using s assms(2) by (auto simp: env_ok_def)
  with s show ?thesis
    using broker_inv_lists [OF assms(1)]
    by (simp add: handle_connect_command_def Let_def on_socket_Some connected_def replied_def
        reactor_add_socket_def socket_setsockopt_linger_def socket_connect_def new_socket_t_def
        the_socket_def reply_out)
qed

lemma handle_bind_command_eq:
  assumes "broker_inv st" and "env_ok env st"
  shows "handle_bind_command env sender endpoint st =
    (if be_bind_ok env (c_str endpoint)
     then Inr (replied sender (uint64_bytes (word_of_nat (length (router_sockets st))))
                 (bound env endpoint st))
     else Inl Zmq_Error)"
proof -
  obtain s where s: "zsocks st (frontend_socket st) = Some s"
    using broker_inv_frontend [OF assms(1)] by blast
  have "frontend_socket st \<noteq> be_new_socket env"
    using s assms(2) by (auto simp: env_ok_def)
  with s show ?thesis
    using broker_inv_lists [OF assms(1)]
    by (simp add: handle_bind_command_def Let_def on_socket_Some bound_def replied_def
        reactor_add_socket_def socket_setsockopt_linger_def socket_setsockopt_sndhwm_def
        socket_bind_def new_socket_t_def the_socket_def reply_out)
qed

lemma bind_map_values_not_NULL:
  assumes "broker_inv st" and "map_of (bind_map st) endpoint = Some p"
  shows "p \<noteq> NULL"
proof -
  note inv = sockets_invD [OF assms(1) [unfolded broker_inv_def broker_sockets_inv_def, THEN conjunct1]]
  have "p \<in> snd ` set (bind_map st)" using map_of_SomeD [OF assms(2)] by force
  then have "router_entry (set (tl (r_sockets st))) p" using inv(16) by blast
  then have "p \<in> fst ` set (r_sockets st)" by (rule router_entry_live) simp
  with inv(4) show ?thesis by blast
qed

lemma handle_unbind_command_eq:
  assumes "broker_inv st"
  shows "handle_unbind_command sender endpoint st =
    (case map_of (bind_map st) endpoint of None \<Rightarrow> Inr st
     | Some p \<Rightarrow> Inr (unbound endpoint p sender st))"
  using bind_map_values_not_NULL [OF assms]
  by (auto simp: handle_unbind_command_def unbound_def reactor_del_socket_def Let_def
      split: option.split)

lemma handle_socket_deleted_eq:
  assumes "zsocks st (frontend_socket st) = Some s"
  shows "handle_socket_deleted sender st = Inr (replied sender [] st)"
  using assms
  by (simp add: handle_socket_deleted_def replied_def on_socket_Some the_socket_def reply_out Let_def)

lemma broker_inv_replied:
  assumes "zsocks st (frontend_socket st) \<noteq> None"
  shows "broker_inv (replied sender body st) = broker_inv st"
  using assms by (auto simp: replied_def Let_def broker_inv_update)

lemma broker_inv_connected:
  assumes "broker_inv st" and "env_ok env st"
  shows "broker_inv (connected env endpoint st)"
    and "zsocks (connected env endpoint st) (frontend_socket (connected env endpoint st)) \<noteq> None"
proof -
  show "zsocks (connected env endpoint st) (frontend_socket (connected env endpoint st)) \<noteq> None"
    using broker_inv_frontend [OF assms(1)] by (auto simp: connected_def Let_def)
  have "broker_sockets_inv (connected env endpoint st)"
    using assms sockets_inv_connect [of "r_sockets st" "r_del_sockets st" "dom (zsocks st)"
        "dealer_sockets st" "router_sockets st" "bind_map st" "frontend_socket st" "be_new_socket env"]
    by (auto simp: broker_inv_def broker_sockets_inv_def connected_def Let_def env_ok_def)
  then show "broker_inv (connected env endpoint st)"
    using assms(1) by (simp add: broker_inv_def workers_inv_def connected_def Let_def)
qed

lemma broker_inv_bound:
  assumes "broker_inv st" and "env_ok env st"
  shows "broker_inv (bound env endpoint st)"
    and "zsocks (bound env endpoint st) (frontend_socket (bound env endpoint st)) \<noteq> None"
proof -
  show "zsocks (bound env endpoint st) (frontend_socket (bound env endpoint st)) \<noteq> None"
    using broker_inv_frontend [OF assms(1)] by (auto simp: bound_def Let_def)
  have "broker_sockets_inv (bound env endpoint st)"
    using assms sockets_inv_bind [of "r_sockets st" "r_del_sockets st" "dom (zsocks st)"
        "dealer_sockets st" "router_sockets st" "bind_map st" "frontend_socket st" "be_new_socket env"]
    by (auto simp: broker_inv_def broker_sockets_inv_def bound_def Let_def env_ok_def)
  then show "broker_inv (bound env endpoint st)"
    using assms(1) by (simp add: broker_inv_def workers_inv_def bound_def Let_def)
qed

lemma broker_inv_unbound:
  assumes "broker_inv st" and "map_of (bind_map st) endpoint = Some p"
  shows "broker_inv (unbound endpoint p sender st)"
proof -
  have "is_socket_deleted (new_callback (Handle_Socket_Deleted sender))"
    by (simp add: is_socket_deleted_def)
  then show ?thesis
    using assms sockets_inv_unbind [of "r_sockets st" "r_del_sockets st" "dom (zsocks st)"
        "dealer_sockets st" "router_sockets st" "bind_map st" "frontend_socket st" endpoint p]
    by (simp add: broker_inv_def workers_inv_def unbound_def broker_sockets_inv_def
        reactor_del_socket_def)
qed

section \<open>Every closure keeps the invariant\<close>

lemma inv_bindE [inv_intros]:
  "ensures broker_inv r \<Longrightarrow> (\<And>x. broker_inv x \<Longrightarrow> ensures P (k x)) \<Longrightarrow> ensures P (bindE r k)"
  by (rule ensures_bindE)

abbreviation keeps_iter :: "(message_iterator \<times> broker_thread) result \<Rightarrow> bool" where
  "keeps_iter \<equiv> ensures (\<lambda>(it, st). broker_inv st)"

lemma inv_iter_bindE [inv_intros]:
  "keeps_iter r \<Longrightarrow> (\<And>it x. broker_inv x \<Longrightarrow> ensures P (k (it, x))) \<Longrightarrow> ensures P (bindE r k)"
  by (rule ensures_bindE [where Q = "\<lambda>(it, x). broker_inv x"]) auto

lemma commander_pushes:
  "commander_run_closure i c wc = Inr wc' \<Longrightarrow> \<exists>x. i < wc_workers wc \<and> wc' = push i x wc"
  "commander_start_rpc i c wc = Inr wc' \<Longrightarrow> \<exists>x. i < wc_workers wc \<and> wc' = push i x wc"
  "commander_handle_data i d wc = Inr wc' \<Longrightarrow> \<exists>x. i < wc_workers wc \<and> wc' = push i x wc"
  "commander_handle_timeout i e wc = Inr wc' \<Longrightarrow> \<exists>x. i < wc_workers wc \<and> wc' = push i x wc"
  "commander_register_svc i info n c wc = Inr wc' \<Longrightarrow> \<exists>x. i < wc_workers wc \<and> wc' = push i x wc"
  "quit_worker i wc = Inr wc' \<Longrightarrow> \<exists>x. i < wc_workers wc \<and> wc' = push i x wc"
  by (auto simp: commander_defs is_worker_index_legal_def split: if_splits)

lemma broker_inv_pushes [inv_intros]:
  assumes "broker_inv st"
  shows "ensures broker_inv (on_commander (commander_run_closure i c) st)"
    "ensures broker_inv (on_commander (commander_start_rpc i c) st)"
    "ensures broker_inv (on_commander (commander_handle_data i d) st)"
    "ensures broker_inv (on_commander (commander_handle_timeout i e) st)"
    "ensures broker_inv (on_commander (commander_register_svc i info n c) st)"
  by (rule broker_inv_commander [OF assms]; blast dest: commander_pushes)+

lemma inv_with_iterator:
  assumes "broker_inv st" and "\<And>it. keeps_iter (body it st)"
  shows "ensures broker_inv (with_iterator p body st)"
  unfolding with_iterator_def
  by (intro ensures_intros inv_intros ensures_bindE_any [where r = "message_iterator_destroy it" for it]
      assms) simp_all

lemma inv_forward_to [inv_intros]: "broker_inv st \<Longrightarrow> keeps_iter (forward_to info iter st)"
  unfolding forward_to_def Let_def
  by (intro ensures_intros ensures_bindE_any [where r = "forward_messages it s" for it s]
      ensures_bindE_any [where r = "deref_socket p st" for p])
    (simp_all add: broker_inv_update result_simps)

lemma inv_start_rpc [inv_intros]: "broker_inv st \<Longrightarrow> ensures broker_inv (start_rpc bh info c st)"
  unfolding start_rpc_def by (intro ensures_intros inv_intros)

lemma is_timer_new_callback [simp]: "is_timer (new_callback (Handle_Timeout e w))"
  by (simp add: is_timer_def)

lemma inv_send_request [inv_intros]:
  "broker_inv st \<Longrightarrow> keeps_iter (send_request env iter st)"
  unfolding send_request_def Let_def
  by (intro ensures_intros inv_intros) (simp_all add: broker_inv_run_closure_at)

lemma inv_send_reply [inv_intros]: "broker_inv st \<Longrightarrow> keeps_iter (send_reply iter st)"
  unfolding send_reply_def by (intro ensures_intros inv_intros)

lemma inv_register_service [inv_intros]:
  "broker_inv st \<Longrightarrow> keeps_iter (register_service bh iter st)"
  unfolding register_service_def by (intro ensures_intros inv_intros) simp_all

lemma inv_add_closure [inv_intros]: "broker_inv st \<Longrightarrow> ensures broker_inv (add_closure env c st)"
  unfolding add_closure_def Let_def by (intro ensures_intros inv_intros)

lemma inv_handle_socket [inv_intros]:
  "broker_inv st \<Longrightarrow> keeps_iter (handle_socket bh info iter st)"
  unfolding handle_socket_def Let_def by (intro ensures_intros inv_intros) simp_all

lemma inv_handle_router_socket [inv_intros]:
  "broker_inv st \<Longrightarrow> ensures broker_inv (handle_router_socket bh i st)"
  unfolding handle_router_socket_def by (intro ensures_intros inv_with_iterator inv_intros) simp_all

lemma inv_handle_dealer_socket [inv_intros]:
  "broker_inv st \<Longrightarrow> ensures broker_inv (handle_dealer_socket bh i st)"
  unfolding handle_dealer_socket_def by (intro ensures_intros inv_with_iterator inv_intros) simp_all

lemma inv_handle_timeout [inv_intros]:
  "broker_inv st \<Longrightarrow> ensures broker_inv (handle_timeout e w st)"
  unfolding handle_timeout_def Let_def by (intro ensures_intros inv_intros)

lemma inv_handle_connect_command:
  "broker_inv st \<Longrightarrow> env_ok env st \<Longrightarrow> ensures broker_inv (handle_connect_command env sndr ep st)"
  by (simp add: handle_connect_command_eq ensures_intros broker_inv_replied broker_inv_connected)

lemma inv_handle_bind_command:
  "broker_inv st \<Longrightarrow> env_ok env st \<Longrightarrow> ensures broker_inv (handle_bind_command env sndr ep st)"
  by (simp add: handle_bind_command_eq ensures_intros broker_inv_replied broker_inv_bound)

lemma inv_handle_unbind_command:
  "broker_inv st \<Longrightarrow> ensures broker_inv (handle_unbind_command sndr ep st)"
  by (auto simp: handle_unbind_command_eq broker_inv_unbound split: option.split
      intro!: ensures_intros)

lemma inv_dispatch_command:
  "broker_inv st \<Longrightarrow> env_ok env st \<Longrightarrow> keeps_iter (dispatch_command env c sndr iter st)"
  unfolding dispatch_command_def handle_bind_command_iter_def handle_quit_command_def
    set_should_quit_def
  by (intro ensures_intros inv_intros inv_handle_connect_command inv_handle_bind_command
      inv_handle_unbind_command) simp_all

lemma inv_handle_frontend_socket:
  "broker_inv st \<Longrightarrow> env_ok env st \<Longrightarrow> ensures broker_inv (handle_frontend_socket env p st)"
  unfolding handle_frontend_socket_def
  by (intro ensures_intros inv_with_iterator inv_dispatch_command)

lemma inv_handle_socket_deleted [inv_intros]:
  "broker_inv st \<Longrightarrow> ensures broker_inv (handle_socket_deleted sndr st)"
  unfolding handle_socket_deleted_def by (intro inv_intros)

definition is_frontend :: "broker_closure \<Rightarrow> bool" where
  "is_frontend cl = (case bound_call cl of Handle_Frontend_Socket _ \<Rightarrow> True | _ \<Rightarrow> False)"

lemma inv_closure_run:
  assumes "broker_inv st" and "is_frontend cl \<Longrightarrow> env_ok env st"
  shows "ensures broker_inv (broker_closure_run env cl st)"
proof (rule ensuresI)
  fix st' assume "broker_closure_run env cl st = Inr st'"
  moreover have "ensures broker_inv (invoke env (bound_call cl) st)"
    using assms
    by (cases "bound_call cl") (simp_all add: inv_intros inv_handle_frontend_socket is_frontend_def)
  ultimately show "broker_inv st'"
    unfolding broker_closure_run_def
    by (elim closure_run_keeps) (auto simp: delete_closure_def dest: ensuresD)
qed

section \<open>Every round keeps the invariant\<close>

lemma more_fields:
  fixes st st' :: broker_thread
  assumes "reactor.more st' = reactor.more st"
  shows "dealer_sockets st' = dealer_sockets st" "router_sockets st' = router_sockets st"
    "bind_map st' = bind_map st" "frontend_socket st' = frontend_socket st"
    "bt_workers st' = bt_workers st" "bt_commander st' = bt_commander st"
    "ctrl_heap st' = ctrl_heap st"
  using assms by (cases st; cases st'; simp)+

lemma env_ok_mono:
  assumes "env_ok env st" and "dom (zsocks st') \<subseteq> dom (zsocks st)"
    and "dealer_sockets st' = dealer_sockets st" "router_sockets st' = router_sockets st"
  shows "env_ok env st'"
  using assms by (auto simp: env_ok_def)

lemma inv_rebuild:
  assumes "broker_inv st" and "rebuild_poll_items (broker_closure_run env) st = Inr st'"
  shows "broker_inv st'" "aligned st'" "dom (zsocks st') \<subseteq> dom (zsocks st)"
    "reactor.more st' = reactor.more st" "r_closure_run_map st' = r_closure_run_map st"
proof -
  have anchor: "fst (hd (r_sockets st)) =
      frontend_socket (reactor.extend (new_reactor False) (reactor.more st))"
    using broker_inv_sockets_ok(3) [OF assms(1)] by simp
  obtain st2 where "rebuild_poll_items (broker_closure_run env) st = Inr st2" and
    2: "r_sockets st2 \<noteq> []" "hd (r_sockets st2) = hd (r_sockets st)"
    "set (tl (r_sockets st2)) = {e \<in> set (tl (r_sockets st)). fst e \<notin> del_keys st}"
    "sockets_ok st2" "aligned st2" "r_del_sockets st2 = []" "reactor.more st2 = reactor.more st"
    "r_closure_run_map st2 = r_closure_run_map st"
    "dom (zsocks st2) = dom (zsocks st) - (del_keys st \<inter> fst ` set (tl (r_sockets st)))"
    using broker_loop.rebuild_poll_items_correct [OF broker_inv_sockets_ok(1,2,4) [OF assms(1)]
        anchor] by blast
  with assms(2) have st': "st' = st2" by simp
  note more = more_fields [OF 2(7)]
  note inv = sockets_invD [OF assms(1) [unfolded broker_inv_def broker_sockets_inv_def,
        THEN conjunct1]]
  define T where "T = set (tl (r_sockets st))"
  define K where "K = del_keys st"
  have T: "set (tl (r_sockets st2)) = {e \<in> T. fst e \<notin> K}" using 2(3) by (simp add: T_def K_def)
  have entries: "distinct (map fst (tl (r_sockets st)))"
    using inv(3) by (simp add: map_tl distinct_tl)
  have same: "c = d" if "(p, c) \<in> T" "(p, d) \<in> T" for p c d
    using entries that unfolding T_def by (rule eq_key_imp_eq_value)
  have "sockets_inv (r_sockets st2) [] (dom (zsocks st2)) (dealer_sockets st)
      (router_sockets st) (bind_map st) (frontend_socket st)"
  proof (rule sockets_invI)
    show "hd (r_sockets st2) = (frontend_socket st,
        new_permanent_callback (Handle_Frontend_Socket (frontend_socket st)))"
      using 2(2) inv(2) by simp
    show "distinct (map fst (r_sockets st2))" "NULL \<notin> fst ` set (r_sockets st2)"
      "fst ` set (r_sockets st2) \<subseteq> dom (zsocks st2)"
      using 2(4) by (auto simp: sockets_ok_def)
    show "\<forall>e \<in> set (tl (r_sockets st2)). registered (dealer_sockets st) (router_sockets st) e"
      using inv(6) unfolding T T_def by blast
  next
    fix i :: uint64
    assume i: "0 < i" "unat i < length (dealer_sockets st)"
    let ?e = "(dealer_sockets st ! unat i, new_permanent_callback (Handle_Dealer_Socket i))"
    have e: "?e \<in> T" using inv(13) i unfolding T_def by blast
    moreover have "fst ?e \<notin> K"
    proof
      assume "fst ?e \<in> K"
      then have "router_entry T (fst ?e)" using inv(17) unfolding T_def K_def by blast
      then obtain j where "(fst ?e, new_permanent_callback (Handle_Router_Socket j)) \<in> T"
        unfolding router_entry_def by blast
      with same [OF e [folded fst_conv]] have
        "new_permanent_callback (Handle_Dealer_Socket i) =
         new_permanent_callback (Handle_Router_Socket j)"
        using same [of "fst ?e"] e by simp
      then show False by (simp add: new_permanent_callback_def)
    qed
    ultimately show "?e \<in> set (tl (r_sockets st2))" unfolding T by simp
  next
    fix p assume p: "p \<in> snd ` set (bind_map st)"
    then have "router_entry T p" "p \<notin> K" using inv(16) unfolding T_def K_def by blast+
    then show "router_entry (set (tl (r_sockets st2))) p" unfolding T router_entry_def by auto
  qed (use inv 2(1) in simp_all)
  then have "broker_sockets_inv st2"
    by (simp add: broker_sockets_inv_def 2(6) more)
  then have "broker_inv st2"
    using assms(1) by (simp add: broker_inv_def workers_inv_def more 2(8))
  moreover have "dom (zsocks st2) \<subseteq> dom (zsocks st)" using 2(9) by blast
  ultimately show "broker_inv st'" "aligned st'" "dom (zsocks st') \<subseteq> dom (zsocks st)"
    "reactor.more st' = reactor.more st" "r_closure_run_map st' = r_closure_run_map st"
    using 2(5,7,8) st' by simp_all
qed

lemma broker_inv_timers:
  "broker_inv st \<Longrightarrow> timers_inv m \<Longrightarrow> broker_inv (st\<lparr>r_closure_run_map := m\<rparr>)"
  by (simp add: broker_inv_def broker_sockets_inv_def workers_inv_def)

lemma inv_run_map:
  assumes "broker_inv st" and "aligned st"
    and "process_closure_run_map (broker_closure_run env) now st = Inr (t, st')"
  shows "broker_inv st'" "aligned st'" "zsocks st' = zsocks st"
    "dealer_sockets st' = dealer_sockets st" "router_sockets st' = router_sockets st"
proof -
  let ?run = "broker_closure_run env"
  let ?m = "r_closure_run_map st"
  let ?cs = "concat (map snd [e \<leftarrow> ?m. fst e \<le> now])"
  have m: "map_ok ?m" "\<forall>cs \<in> snd ` set ?m. \<forall>c \<in> set cs. is_timer c"
    using assms(1) by (simp_all add: broker_inv_def timers_inv_def)
  obtain st1 where 1: "foldE ?run ?cs st = Inr st1"
    and st': "st' = st1\<lparr>r_closure_run_map := [e \<leftarrow> ?m. now < fst e]\<rparr>"
    using broker_loop.process_closure_run_map_timers(2) [OF m assms(3)] by blast
  have timers: "is_timer c" if "c \<in> set ?cs" for c
    using that m(2) by fastforce
  let ?I = "\<lambda>u. broker_inv u \<and> aligned u \<and> zsocks u = zsocks st
    \<and> dealer_sockets u = dealer_sockets st \<and> router_sockets u = router_sockets st"
  have "?I st1"
  proof (rule foldE_invariant [OF 1])
    show "?I st" using assms(1,2) by simp
  next
    fix c u v assume c: "c \<in> set ?cs" and u: "?I u" and run: "?run c u = Inr v"
    obtain e w where b: "bound_call c = Handle_Timeout e w"
      using timers [OF c] by (auto simp: is_timer_def split: broker_callback.splits)
    then have "broker_inv v"
      using ensuresD [OF inv_closure_run run] u by (simp add: is_frontend_def)
    moreover have "aligned v" using broker_loop.run_aligned [OF run] u by simp
    moreover have "zsocks v = zsocks u \<and> dealer_sockets v = dealer_sockets u
        \<and> router_sockets v = router_sockets u"
      using run b by (auto simp: broker_closure_run_def closure_run_def handle_timeout_def
          on_commander_def delete_closure_def Let_def result_simps split: if_splits)
    ultimately show "?I v" using u by simp
  qed
  moreover have "timers_inv [e \<leftarrow> ?m. now < fst e]"
    using m map_ok_filter [OF m(1)] by (auto simp: timers_inv_def)
  ultimately show "broker_inv st'" "aligned st'" "zsocks st' = zsocks st"
    "dealer_sockets st' = dealer_sockets st" "router_sockets st' = router_sockets st"
    unfolding st' by (simp_all add: broker_inv_timers aligned_def)
qed

text \<open>
  Among the entries that are dispatched in one round only the one at index 0 is the frontend's.
\<close>

lemma not_frontend_tl:
  assumes "broker_inv st" and "e \<in> set (tl (r_sockets st))"
  shows "\<not> is_frontend (snd e)"
proof -
  have "registered (dealer_sockets st) (router_sockets st) e"
    using sockets_invD(6) [OF assms(1) [unfolded broker_inv_def broker_sockets_inv_def,
          THEN conjunct1]] assms(2) by blast
  then show ?thesis by (auto simp: registered_def is_frontend_def)
qed

lemma inv_dispatch_rest:
  assumes "foldE (broker_closure_run env) cs st = Inr st'" and "broker_inv st"
    and "\<forall>c \<in> set cs. \<not> is_frontend c"
  shows "broker_inv st'"
  using assms(1,2)
proof (rule foldE_invariant)
  fix c u v assume "c \<in> set cs" "broker_inv u" "broker_closure_run env c u = Inr v"
  then show "broker_inv v" using assms(3) ensuresD [OF inv_closure_run] by blast
qed

lemma inv_run_ready:
  assumes "broker_inv st" "aligned st" "env_ok env st"
    and "run_ready (broker_closure_run env) st = Inr st'"
  shows "broker_inv st'" "aligned st'"
proof -
  let ?run = "broker_closure_run env"
  let ?n = "length (r_pollitems st)"
  let ?ready = "\<lambda>i. pi_revents (r_pollitems st ! i) AND ZMQ_POLLIN \<noteq> 0"
  let ?cs = "\<lambda>is. map (\<lambda>i. snd (r_sockets st ! i)) [i \<leftarrow> is. ?ready i]"
  have run: "foldE ?run (?cs [0..<?n]) st = Inr st'" and al: "aligned st'"
    using broker_loop.run_ready_dispatch [OF assms(2,4)] by blast+
  show "aligned st'" by (rule al)
  have n: "?n \<le> length (r_sockets st)" using assms(2) by (simp add: aligned_def)
  have rest: "\<not> is_frontend c" if "c \<in> set (?cs [1..<?n])" for c
  proof -
    obtain i where i: "1 \<le> i" "i < ?n" "c = snd (r_sockets st ! i)" using \<open>c \<in> _\<close> by auto
    then have "r_sockets st ! i \<in> set (tl (r_sockets st))"
      using n by (intro nth_in_set_tl) simp_all
    with not_frontend_tl [OF assms(1)] i(3) show ?thesis by blast
  qed
  show "broker_inv st'"
  proof (cases "?n = 0")
    case True
    with run assms(1) show ?thesis by simp
  next
    case False
    then have up: "[0..<?n] = 0 # [1..<?n]" by (simp add: upt_rec)
    show ?thesis
    proof (cases "?ready 0")
      case True
      then obtain st1 where 1: "?run (snd (r_sockets st ! 0)) st = Inr st1"
        and 2: "foldE ?run (?cs [1..<?n]) st1 = Inr st'"
        using run unfolding up by (auto simp: result_simps)
      have "broker_inv st1" using ensuresD [OF inv_closure_run 1] assms(1,3) by blast
      with 2 rest show ?thesis by (auto intro: inv_dispatch_rest)
    next
      case False
      then have "foldE ?run (?cs [1..<?n]) st = Inr st'" using run unfolding up by simp
      with assms(1) rest show ?thesis by (auto intro: inv_dispatch_rest)
    qed
  qed
qed

definition loop_inv :: "broker_thread \<Rightarrow> bool" where
  "loop_inv st \<longleftrightarrow> broker_inv st \<and> (is_dirty st \<or> aligned st)"

lemma inv_loop_iteration:
  assumes "loop_inv st" and "env_ok env st"
    and "loop_iteration (broker_closure_run env) pr st = Inr (rc, t, st')"
  shows "loop_inv st'"
proof -
  let ?run = "broker_closure_run env"
  obtain st1 where 1: "(if is_dirty st then bindE (rebuild_poll_items ?run st)
      (\<lambda>st. Inr (st\<lparr>is_dirty := False\<rparr>)) else Inr st) = Inr st1"
    and rest: "bindE (process_closure_run_map ?run (pr_now pr) st1) (\<lambda>(poll_timeout_ms, st).
     let st = zmq_poll pr st in
     if pr_rc pr = - 1 \<and> pr_errno pr = EFAULT then Inl Check_Failed
     else if pr_rc pr = - 1 \<and> pr_errno pr = ETERM then Inr (Some (- 1), poll_timeout_ms, st)
     else bindE (run_ready ?run st) (\<lambda>st. Inr (None, poll_timeout_ms, st))) = Inr (rc, t, st')"
    using assms(3) unfolding loop_iteration_def bindE_eq_Inr by blast
  have st1: "broker_inv st1 \<and> aligned st1 \<and> env_ok env st1"
  proof (cases "is_dirty st")
    case True
    then obtain u where u: "rebuild_poll_items ?run st = Inr u" "st1 = u\<lparr>is_dirty := False\<rparr>"
      using 1 by (auto simp: result_simps)
    note r = inv_rebuild [OF _ u(1)]
    have "broker_inv st" using assms(1) by (simp add: loop_inv_def)
    then show ?thesis
      using r more_fields(1,2) [OF r(4)] env_ok_mono [OF assms(2)]
      by (simp add: u(2) aligned_def env_ok_def)
  next
    case False
    with 1 assms(1,2) show ?thesis by (simp add: loop_inv_def)
  qed
  obtain t2 st2 where 2: "process_closure_run_map ?run (pr_now pr) st1 = Inr (t2, st2)"
    using rest unfolding bindE_eq_Inr by auto
  note m = inv_run_map [OF conjunct1 [OF st1] conjunct1 [OF conjunct2 [OF st1]] 2]
  define st3 where "st3 = zmq_poll pr st2"
  have "dom (zsocks st3) = dom (zsocks st2)" by (auto simp: st3_def zmq_poll_def)
  moreover have "dealer_sockets st3 = dealer_sockets st2" "router_sockets st3 = router_sockets st2"
    by (simp_all add: st3_def zmq_poll_def)
  ultimately have env3: "env_ok env st3"
    using st1 m(3-5) env_ok_mono [of env st1 st3] by simp
  have inv3: "broker_inv st3"
    using m(1) \<open>dom (zsocks st3) = dom (zsocks st2)\<close>
    by (simp add: st3_def zmq_poll_def broker_inv_zsocks [OF refl] broker_inv_def
        broker_sockets_inv_def workers_inv_def)
  have al3: "aligned st3" using m(2) by (simp add: st3_def broker_loop.aligned_zmq_poll)
  show ?thesis
  proof (cases "pr_rc pr = - 1 \<and> pr_errno pr = ETERM")
    case True
    then have "st' = st3" using rest 2 by (simp add: st3_def Let_def)
    then show ?thesis using inv3 al3 by (simp add: loop_inv_def)
  next
    case False
    then have "run_ready ?run st3 = Inr st'"
      using rest 2 by (auto simp: st3_def Let_def result_simps split: if_splits)
    from inv_run_ready [OF inv3 al3 env3 this] show ?thesis by (simp add: loop_inv_def)
  qed
qed

section \<open>Reachable states\<close>

text \<open>
  Between rounds other threads act: user threads create controllers and workers delete them, and
  workers take commands out of their queues.
\<close>

inductive broker_reachable :: "broker_thread \<Rightarrow> bool" where
  start: "new_broker_thread uninitialised fe fe_sock wc ctrls ev = Inr (st, ev') \<Longrightarrow>
    commander_ok wc \<Longrightarrow> fe \<noteq> NULL \<Longrightarrow> broker_reachable st"
| round: "broker_reachable st \<Longrightarrow> env_ok env st \<Longrightarrow>
    loop_iteration (broker_closure_run env) pr st = Inr (rc, t, st') \<Longrightarrow> broker_reachable st'"
| controllers: "broker_reachable st \<Longrightarrow> broker_reachable (st\<lparr>ctrl_heap := h\<rparr>)"
| worker_pops: "broker_reachable st \<Longrightarrow> pop i (bt_commander st) = Some (c, wc') \<Longrightarrow>
    broker_reachable (st\<lparr>bt_commander := wc'\<rparr>)"

lemma new_broker_thread_inv:
  assumes "new_broker_thread u fe fe_sock wc ctrls ev = Inr (st, ev')"
    and "commander_ok wc" and "fe \<noteq> NULL"
  shows "loop_inv st"
  using assms
  by (auto simp: new_broker_thread_def Let_def reactor_add_socket_def loop_inv_def broker_inv_def
      broker_sockets_inv_def workers_inv_def timers_inv_def sockets_inv_def reactor.defs
      broker_thread.defs new_reactor_def get_workers_def unat_eq_zero split: if_splits)

lemma reachable_loop_inv: "broker_reachable st \<Longrightarrow> loop_inv st"
proof (induction rule: broker_reachable.induct)
  case start
  then show ?case by (rule new_broker_thread_inv)
next
  case round
  then show ?case using inv_loop_iteration by blast
next
  case (controllers st h)
  then show ?case
    by (simp add: loop_inv_def broker_inv_def broker_sockets_inv_def workers_inv_def aligned_def)
next
  case (worker_pops st i c wc')
  then show ?case
    using commander_ok_pop [OF _ worker_pops(2)] pop_workers [OF worker_pops(2)]
    by (simp add: loop_inv_def broker_inv_def broker_sockets_inv_def workers_inv_def aligned_def)
qed

lemma reachable_inv: "broker_reachable st \<Longrightarrow> broker_inv st"
  using reachable_loop_inv by (simp add: loop_inv_def)

end
