(* ===== verification/Broker_Spec.thy ===== *)
theory Broker_Spec
  imports Broker_Inv
begin

text \<open>
  What the broker does with each kind of message, stated as whole transitions: the frames that
  leave, the command a worker gets and the timer that is set. The commands of the frontend are
  given by their frames, as \<open>connection.cc\<close> and \<open>manager.cc\<close> write them.
\<close>

section \<open>The worker of a connection\<close>

definition worker_of :: "boost_hash \<Rightarrow> connection_info \<Rightarrow> broker_thread \<Rightarrow> unsigned_int" where
  "worker_of bh info st = ucast (hash_value bh info mod (scast (bt_workers st) :: size_t))"

definition deliver :: "unsigned_int \<Rightarrow> worker_cmd \<Rightarrow> broker_thread \<Rightarrow> broker_thread" where
  "deliver w c st = st\<lparr>bt_commander := push w c (bt_commander st)\<rparr>"

lemma sint_pos_bounds:
  assumes "0 < sint (n :: int32)"
  shows "0 < unat n \<and> unat n < 2 ^ 31"
proof -
  have "sint n < 2 ^ 31" using sint_lt [of n] by simp
  moreover have "unat n = nat (sint n)" using sint_pos_unat [OF assms] by simp
  ultimately show ?thesis using assms by simp
qed

lemma unat_scast_pos:
  assumes "0 < sint (n :: int32)"
  shows "unat (scast n :: size_t) = unat n"
proof -
  have "sint n < 2 ^ 31" using sint_lt [of n] by simp
  moreover have "uint (scast n :: size_t) = sint n mod 2 ^ 64"
    unfolding scast_eq uint_word_of_int by simp
  ultimately have "uint (scast n :: size_t) = sint n"
    using assms by simp
  then show ?thesis using sint_pos_unat [OF assms] by (metis nat_uint_eq)
qed

lemma mod_workers_less:
  assumes "0 < sint (n :: int32)"
  shows "(ucast (h mod (scast n :: size_t)) :: unsigned_int) < n"
    and "unat (ucast (h mod (scast n :: size_t)) :: unsigned_int) = unat h mod unat n"
proof -
  let ?w = "h mod (scast n :: size_t)"
  have n: "0 < unat n" "unat n < 2 ^ 31" using sint_pos_bounds [OF assms] by simp_all
  have w: "unat ?w = unat h mod unat n" by (simp add: unat_mod_distrib unat_scast_pos [OF assms])
  have "unat h mod unat n < unat n" using n(1) by simp
  then have "unat ?w < 2 ^ 31" using n(2) unfolding w by (rule less_trans)
  then have "unat ?w < 2 ^ 32" by simp
  then have u: "unat (ucast ?w :: unsigned_int) = unat ?w"
    by (simp add: unsigned_ucast_eq take_bit_eq_mod)
  then show "unat (ucast ?w :: unsigned_int) = unat h mod unat n" using w by simp
  show "(ucast ?w :: unsigned_int) < n"
    using n(1) unfolding word_less_nat_alt u w by simp
qed

lemma word_mod_mod: "x mod n mod n = x mod (n :: 64 word)"
  by (simp add: word_unat_eq_iff unat_mod_distrib)

lemma workers_inv_pos:
  assumes "workers_inv st"
  shows "0 < sint (bt_workers st)" "bt_workers st \<noteq> 0"
  using assms by (auto simp: workers_inv_def commander_ok_def)

lemma worker_of_less: "workers_inv st \<Longrightarrow> worker_of bh info st < wc_workers (bt_commander st)"
  using mod_workers_less(1) [OF workers_inv_pos(1)] by (simp add: worker_of_def workers_inv_def)

lemma worker_of_legal:
  "workers_inv st \<Longrightarrow> is_worker_index_legal (bt_commander st) (worker_of bh info st)"
  using commander_ok_legal worker_of_less by (simp add: workers_inv_def)

lemma get_worker_index_eq:
  "workers_inv st \<Longrightarrow>
     get_worker_index bh info st = Inr (hash_value bh info mod scast (bt_workers st))"
  using workers_inv_pos(2) by (simp add: get_worker_index_def)

lemma on_commander_deliver:
  fixes bh info
  assumes "workers_inv st"
  defines "w \<equiv> worker_of bh info st"
  shows "on_commander (commander_handle_data w d) st = Inr (deliver w (Handle_Data_Cmd d) st)"
    "c \<noteq> NULL \<Longrightarrow> on_commander (commander_start_rpc w c) st = Inr (deliver w (Start_Rpc_Cmd c) st)"
    "c \<noteq> NULL \<Longrightarrow> on_commander (commander_register_svc w info' n c) st =
        Inr (deliver w (Register_Svc_Cmd info' n c) st)"
  using worker_of_legal [OF assms(1), of bh info]
  by (simp_all add: on_commander_def commander_defs deliver_def w_def)

section \<open>Messages from the network\<close>

text \<open>
  The data of a message as the broker understands it: an empty delimiter, the header, and a
  payload that may be missing; whatever follows is dropped.
\<close>

definition remote_data :: "connection_info \<Rightarrow> bytes list \<Rightarrow> handle_data_cmd option" where
  "remote_data info ds = (case ds of
     [] # h # rest \<Rightarrow> Some \<lparr>hd_info = Some info, hd_header = h,
       hd_payload = (case rest of [] \<Rightarrow> [] | p # _ \<Rightarrow> p)\<rparr>
   | _ \<Rightarrow> None)"

definition remote_effect :: "boost_hash \<Rightarrow> connection_info \<Rightarrow> bytes list \<Rightarrow> broker_thread \<Rightarrow> broker_thread" where
  "remote_effect bh info ds st = (case remote_data info ds of
     None \<Rightarrow> st | Some d \<Rightarrow> deliver (worker_of bh info st) (Handle_Data_Cmd d) st)"

lemma whole_Cons_more:
  assumes "whole (m # ms)"
  shows "msg_more m \<longleftrightarrow> ms \<noteq> []" "ms \<noteq> [] \<Longrightarrow> whole ms"
  using assms by (cases ms; auto split: if_splits)+

lemma handle_socket_whole:
  assumes inv: "workers_inv st" and it: "it_socket it = ms @ rest" and w: "whole ms"
  shows "\<exists>it'. handle_socket bh info it st = Inr (it', remote_effect bh info (map msg_data ms) st)
    \<and> message_iterator_destroy it' = Inr rest"
proof -
  obtain m ms1 where ms: "ms = m # ms1" using w by (cases ms) auto
  note more = whole_Cons_more [OF w [unfolded ms]]
  have tail: "message_iterator_destroy \<lparr>it_socket = ms1 @ rest, it_message = d, it_has_more = msg_more m\<rparr>
      = Inr rest" for d
    using drain_tail [OF w [unfolded ms]] by (simp add: message_iterator_destroy_def)
  have nx: "next_msg it = Inr (msg_data m,
      \<lparr>it_socket = ms1 @ rest, it_message = msg_data m, it_has_more = msg_more m\<rparr>)"
    by (simp add: next_msg_def it ms)
  show ?thesis
  proof (cases "msg_data m = [] \<and> ms1 \<noteq> []")
    case False
    then have "remote_data info (map msg_data ms) = None"
      unfolding ms by (cases "msg_data m"; cases ms1) (simp_all add: remote_data_def)
    with False show ?thesis
      using nx tail more by (auto simp: handle_socket_def remote_effect_def)
  next
    case True
    then obtain h ms2 where ms1: "ms1 = h # ms2" by (cases ms1) auto
    have w1: "whole (h # ms2)" using more(2) True ms1 by simp
    note more2 = whole_Cons_more [OF w1]
    let ?d = "\<lparr>hd_info = Some info, hd_header = msg_data h,
      hd_payload = (case map msg_data ms2 of [] \<Rightarrow> [] | p # _ \<Rightarrow> p)\<rparr>"
    have rd: "remote_data info (map msg_data ms) = Some ?d"
      using True by (simp add: ms ms1 remote_data_def)
    have deliver: "on_commander (commander_handle_data
        (ucast (hash_value bh info mod (scast (bt_workers st) :: size_t))) d) st =
        Inr (deliver (worker_of bh info st) (Handle_Data_Cmd d) st)" for d
      using on_commander_deliver(1) [OF inv, of bh info d] by (simp add: worker_of_def)
    have m: "msg_more m" using more(1) True by simp
    show ?thesis
    proof (cases ms2)
      case Nil
      then have "\<not> msg_more h" using more2(1) by simp
      with m True nx ms1 Nil inv rd show ?thesis
        by (simp add: handle_socket_def get_worker_index_eq deliver new_handle_data_cmd_def
            remote_effect_def message_iterator_destroy_def)
    next
      case (Cons p ms3)
      then have "msg_more h" using more2(1) by simp
      moreover have "drain (msg_more p) (ms3 @ rest) = Inr rest"
        using more2(2) Cons drain_tail [of p ms3 rest] by simp
      ultimately show ?thesis
        using m True nx ms1 Cons inv rd
        by (simp add: handle_socket_def get_worker_index_eq deliver new_handle_data_cmd_def
            remote_effect_def message_iterator_destroy_def)
    qed
  qed
qed

lemma with_iterator_eq:
  assumes "zsocks st p = Some s" and "body (message_iterator_new (sock_in s)) st = Inr (it, st1)"
    and "message_iterator_destroy it = Inr rest" and "zsocks st1 p = Some s1"
  shows "with_iterator p body st = Inr (st1\<lparr>zsocks := (zsocks st1)(p \<mapsto> s1\<lparr>sock_in := rest\<rparr>)\<rparr>)"
  using assms by (simp add: with_iterator_def deref_socket_Some on_socket_Some)

lemma remote_effect_zsocks [simp]: "zsocks (remote_effect bh info ds st) = zsocks st"
  by (simp add: remote_effect_def deliver_def split: option.split)

lemma handle_dealer_socket_whole:
  assumes "workers_inv st" and "is_dealer_index_legal i st"
    and "zsocks st (dealer_sockets st ! unat i) = Some s" and "sock_in s = ms @ rest" and "whole ms"
  shows "handle_dealer_socket bh i st =
    Inr ((remote_effect bh (connection_info_dealer i) (map msg_data ms) st)
      \<lparr>zsocks := (zsocks st)(dealer_sockets st ! unat i \<mapsto> s\<lparr>sock_in := rest\<rparr>)\<rparr>)"
proof -
  let ?it = "message_iterator_new (sock_in s)"
  have "it_socket ?it = ms @ rest" by (simp add: message_iterator_new_def assms(4))
  then obtain it' where "handle_socket bh (connection_info_dealer i) ?it st =
      Inr (it', remote_effect bh (connection_info_dealer i) (map msg_data ms) st)"
    "message_iterator_destroy it' = Inr rest"
    using handle_socket_whole [OF assms(1) _ assms(5)] by blast
  from with_iterator_eq [of st _ s "handle_socket bh (connection_info_dealer i)", OF assms(3) this]
  show ?thesis
    using assms(2,3) by (simp add: handle_dealer_socket_def)
qed

lemma handle_router_socket_whole:
  assumes "workers_inv st" and "is_router_index_legal i st"
    and "zsocks st (router_sockets st ! unat i) = Some s"
    and "sock_in s = m # ms @ rest" and "whole (m # ms)"
  shows "handle_router_socket bh i st =
    Inr ((if ms = [] then st
          else remote_effect bh (connection_info_router i (msg_data m)) (map msg_data ms) st)
      \<lparr>zsocks := (zsocks st)(router_sockets st ! unat i \<mapsto> s\<lparr>sock_in := rest\<rparr>)\<rparr>)"
proof -
  let ?info = "connection_info_router i (msg_data m)"
  let ?it1 = "\<lparr>it_socket = ms @ rest, it_message = msg_data m, it_has_more = msg_more m\<rparr>"
  let ?body = "\<lambda>iter st. bindE (read_string iter) (\<lambda>(sender, iter).
       if \<not> has_more iter then Inr (iter, st)
       else handle_socket bh (connection_info_router i sender) iter st)"
  note more = whole_Cons_more [OF assms(5)]
  have body: "?body (message_iterator_new (sock_in s)) st =
      (if msg_more m then handle_socket bh ?info ?it1 st else Inr (?it1, st))"
    by (simp add: message_iterator_new_def assms(4) read_string_def)
  show ?thesis
  proof (cases "ms = []")
    case True
    then have b: "?body (message_iterator_new (sock_in s)) st = Inr (?it1, st)"
      "message_iterator_destroy ?it1 = Inr rest"
      using body more(1) by (simp_all add: message_iterator_destroy_def)
    from with_iterator_eq [of st _ s ?body, OF assms(3) b assms(3)] show ?thesis
      using assms(2) True by (simp add: handle_router_socket_def)
  next
    case False
    then obtain it' where it': "handle_socket bh ?info ?it1 st =
        Inr (it', remote_effect bh ?info (map msg_data ms) st)"
      "message_iterator_destroy it' = Inr rest"
      using handle_socket_whole [OF assms(1) _ more(2), of ?it1 rest bh ?info] by auto
    then have b: "?body (message_iterator_new (sock_in s)) st =
        Inr (it', remote_effect bh ?info (map msg_data ms) st)"
      using body more(1) False by simp
    from with_iterator_eq [of st _ s ?body, OF assms(3) b it'(2)] show ?thesis
      using assms(2,3) False by (simp add: handle_router_socket_def)
  qed
qed

section \<open>Commands of the frontend\<close>

text \<open>The frames of a command as they arrive: the identity of the sender's socket comes first.\<close>

definition command_frames :: "string \<Rightarrow> char \<Rightarrow> message list \<Rightarrow> message list" where
  "command_frames sender c body =
     frame_enc sender True @ frame_enc [] True @ frame_enc [c] (body \<noteq> []) @ body"

lemma handle_frontend_socket_command:
  assumes "zsocks st fe = Some s" and "sock_in s = command_frames sender c body @ rest"
    and "dispatch_command env c sender
      \<lparr>it_socket = body @ rest, it_message = [c], it_has_more = body \<noteq> []\<rparr> st = Inr (it', st1)"
    and "message_iterator_destroy it' = Inr rest" and "zsocks st1 fe = Some s1"
  shows "handle_frontend_socket env fe st =
    Inr (st1\<lparr>zsocks := (zsocks st1)(fe \<mapsto> s1\<lparr>sock_in := rest\<rparr>)\<rparr>)"
proof -
  let ?body = "\<lambda>iter st.
       bindE (read_string iter) (\<lambda>(sender, iter).
       bindE (next_msg iter) (\<lambda>(msg, iter).
       google_check (length msg = 0) (
       bindE (read_char iter) (\<lambda>(command, iter).
       dispatch_command env command sender iter st))))"
  have "?body (message_iterator_new (sock_in s)) st = Inr (it', st1)"
    using assms(3)
    by (simp add: message_iterator_new_def assms(2) command_frames_def frame_enc_def
        read_string_def read_char_def)
  from with_iterator_eq [of st fe s ?body, OF assms(1) this assms(4,5)]
  show ?thesis by (simp add: handle_frontend_socket_def)
qed

lemma destroy_done [simp]:
  "message_iterator_destroy \<lparr>it_socket = ms, it_message = d, it_has_more = False\<rparr> = Inr ms"
  by (simp add: message_iterator_destroy_def)

lemma c2b_distinct [simp]:
  "kConnect \<noteq> kQuit" "kBind \<noteq> kQuit" "kBind \<noteq> kConnect" "kUnbind \<noteq> kQuit" "kUnbind \<noteq> kConnect"
  "kUnbind \<noteq> kBind" "kRequest \<noteq> kQuit" "kRequest \<noteq> kConnect" "kRequest \<noteq> kBind"
  "kRequest \<noteq> kUnbind" "kReply \<noteq> kQuit" "kReply \<noteq> kConnect" "kReply \<noteq> kBind" "kReply \<noteq> kUnbind"
  "kReply \<noteq> kRequest" "kRunClosure \<noteq> kQuit" "kRunClosure \<noteq> kConnect" "kRunClosure \<noteq> kBind"
  "kRunClosure \<noteq> kUnbind" "kRunClosure \<noteq> kRequest" "kRunClosure \<noteq> kReply"
  "kRegisterSvc \<noteq> kQuit" "kRegisterSvc \<noteq> kConnect" "kRegisterSvc \<noteq> kBind"
  "kRegisterSvc \<noteq> kUnbind" "kRegisterSvc \<noteq> kRequest" "kRegisterSvc \<noteq> kReply"
  "kRegisterSvc \<noteq> kRunClosure"
  by (simp_all add: c2b_defs)

lemma read_string_enc [simp]:
  "read_string \<lparr>it_socket = frame_enc d b @ ms, it_message = m, it_has_more = x\<rparr> =
     Inr (d, \<lparr>it_socket = ms, it_message = d, it_has_more = b\<rparr>)"
  by (simp add: read_string_def frame_enc_def)

lemma read_pointer_enc [simp]:
  "read_pointer \<lparr>it_socket = frame_enc (uint64_bytes p) b @ ms, it_message = m, it_has_more = x\<rparr> =
     Inr (p, \<lparr>it_socket = ms, it_message = uint64_bytes p, it_has_more = b\<rparr>)"
  by (simp add: read_pointer_def frame_enc_def)

section \<open>Forwarding\<close>

definition conn_socket :: "connection_info \<Rightarrow> broker_thread \<Rightarrow> ptr" where
  "conn_socket info st = (if ci_is_router info then router_sockets st ! unat (ci_index info)
     else dealer_sockets st ! unat (ci_index info))"

text \<open>The envelope: a router needs the peer's identity in front of the delimiter.\<close>

definition envelope :: "connection_info \<Rightarrow> message list" where
  "envelope info = (if ci_is_router info then frame_enc (ci_sender info) True else [])
     @ frame_enc [] True"

text \<open>
  A connection that messages can be sent on: its index is legal, and its socket has not been deleted.
  Every legal connection to a server is one; a connection to a client is one until its endpoint is
  unbound.
\<close>

definition conn_live :: "connection_info \<Rightarrow> broker_thread \<Rightarrow> bool" where
  "conn_live info st \<longleftrightarrow> is_connection_info_legal info st \<and> conn_socket info st \<noteq> NULL
     \<and> zsocks st (conn_socket info st) \<noteq> None"

definition sent_on :: "ptr \<Rightarrow> message list \<Rightarrow> broker_thread \<Rightarrow> broker_thread" where
  "sent_on p ms st = st\<lparr>zsocks := (zsocks st)(p \<mapsto>
     (the_socket p st)\<lparr>sock_out := sock_out (the_socket p st) @ ms\<rparr>)\<rparr>"

lemma forward_to_whole:
  assumes "is_connection_info_legal info st" and "conn_socket info st \<noteq> NULL"
    and "zsocks st (conn_socket info st) = Some s"
    and "whole ms" "it_socket it = ms @ rest" "it_has_more it"
  shows "\<exists>it'. forward_to info it st =
      Inr (it', sent_on (conn_socket info st) (envelope info @ ms) st)
    \<and> it_socket it' = rest \<and> \<not> has_more it'"
proof -
  let ?s = "s\<lparr>sock_out := sock_out s @ envelope info\<rparr>"
  obtain it' where fw: "forward_messages it ?s = Inr (it', ?s\<lparr>sock_out := sock_out ?s @ ms\<rparr>)"
    and it': "it_socket it' = rest" "\<not> has_more it'"
    using forward_messages_whole [OF assms(4-6), of ?s] by blast
  have env: "ci_is_router info \<Longrightarrow>
      send_empty_message ZMQ_SNDMORE (send_string (ci_sender info) ZMQ_SNDMORE s) = ?s"
    "\<not> ci_is_router info \<Longrightarrow> send_empty_message ZMQ_SNDMORE s = ?s"
    by (simp_all add: envelope_def frame_enc_def send_defs socket_send_def frame_def)
  show ?thesis
    using assms(1-3) fw it'
    by (cases "ci_is_router info")
      (simp_all add: forward_to_def conn_socket_def deref_socket_Some env sent_on_def the_socket_def
        Let_def)
qed

lemma conn_liveD:
  assumes "conn_live info st"
  shows "is_connection_info_legal info st" "conn_socket info st \<noteq> NULL"
    "\<exists>s. zsocks st (conn_socket info st) = Some s"
  using assms by (auto simp: conn_live_def)

lemma forward_not_live:
  assumes "\<not> conn_live info st"
  shows "\<exists>e. forward_to info it st = Inl e"
  using assms
  by (auto simp: forward_to_def conn_live_def conn_socket_def deref_socket_def Let_def split: if_splits)

lemma conn_live_known:
  assumes "broker_inv st" and "is_connection_info_legal info st" and "ci_is_router info \<Longrightarrow> conn_live info st"
  shows "conn_live info st"
proof (cases "ci_is_router info")
  case False
  then show ?thesis
    using broker_inv_dealer [OF assms(1), of "ci_index info"] assms(2)
    by (simp add: is_connection_info_legal_def conn_socket_def conn_live_def)
qed (use assms(3) in simp)

lemma ctrl_heap_frames [simp]:
  "broker_inv (st\<lparr>ctrl_heap := h\<rparr>) = broker_inv st"
  "workers_inv (st\<lparr>ctrl_heap := h\<rparr>) = workers_inv st"
  "is_connection_info_legal info (st\<lparr>ctrl_heap := h\<rparr>) = is_connection_info_legal info st"
  "conn_socket info (st\<lparr>ctrl_heap := h\<rparr>) = conn_socket info st"
  "conn_live info (st\<lparr>ctrl_heap := h\<rparr>) = conn_live info st"
  "the_socket q (st\<lparr>ctrl_heap := h\<rparr>) = the_socket q st"
  "worker_of bh info (st\<lparr>ctrl_heap := h\<rparr>) = worker_of bh info st"
  by (simp_all add: broker_inv_def broker_sockets_inv_def workers_inv_def is_connection_info_legal_def
      is_dealer_index_legal_def is_router_index_legal_def conn_socket_def the_socket_def worker_of_def
      conn_live_def)

section \<open>A request\<close>

definition timer_set :: "broker_env \<Rightarrow> connection_info \<Rightarrow> rpc_controller \<Rightarrow> broker_thread \<Rightarrow> broker_thread" where
  "timer_set env info c st =
     (if get_timeout_ms c = - 1 then st
      else reactor_run_closure_at (be_now env + get_timeout_ms c)
        (new_callback (Handle_Timeout (get_event_id c)
           (hash_value (be_hash env) info mod scast (bt_workers st)))) st)"

lemma timer_set_fields [simp]:
  "zsocks (timer_set env info c st) = zsocks st"
  "dealer_sockets (timer_set env info c st) = dealer_sockets st"
  "router_sockets (timer_set env info c st) = router_sockets st"
  "bt_workers (timer_set env info c st) = bt_workers st"
  "bt_commander (timer_set env info c st) = bt_commander st"
  "is_connection_info_legal i (timer_set env info c st) = is_connection_info_legal i st"
  "conn_socket i (timer_set env info c st) = conn_socket i st"
  "workers_inv (timer_set env info c st) = workers_inv st"
  "worker_of bh i (timer_set env info c st) = worker_of bh i st"
  by (simp_all add: timer_set_def reactor_run_closure_at_def is_connection_info_legal_def
      is_router_index_legal_def is_dealer_index_legal_def conn_socket_def workers_inv_def
      worker_of_def)

lemma sent_on_fields [simp]:
  "bt_workers (sent_on p ms st) = bt_workers st"
  "bt_commander (sent_on p ms st) = bt_commander st"
  "workers_inv (sent_on p ms st) = workers_inv st"
  "worker_of bh i (sent_on p ms st) = worker_of bh i st"
  by (simp_all add: sent_on_def workers_inv_def worker_of_def)

lemma start_rpc_eq:
  "workers_inv st \<Longrightarrow> c \<noteq> NULL \<Longrightarrow>
     start_rpc bh info c st = Inr (deliver (worker_of bh info st) (Start_Rpc_Cmd c) st)"
  using on_commander_deliver(2) [of st c bh info]
  by (simp add: start_rpc_def get_worker_index_eq worker_of_def)

lemma send_request_whole:
  assumes inv: "workers_inv st" and wf: "info_wf info" and legal: "is_connection_info_legal info st"
    and p: "conn_socket info st \<noteq> NULL" "zsocks st (conn_socket info st) = Some s"
    and ctl: "ctl \<noteq> NULL" "ctrl_heap st ctl = Some c" and ms: "whole ms"
    and it: "it_has_more it" "it_socket it = connection_info_enc info True
      @ frame_enc (uint64_bytes ctl) True @ ms @ rest"
  shows "\<exists>it'. send_request env it st =
      Inr (it', deliver (worker_of (be_hash env) info st) (Start_Rpc_Cmd ctl)
        (sent_on (conn_socket info st) (envelope info @ ms) (timer_set env info c st)))
    \<and> it_socket it' = rest \<and> \<not> has_more it'"
proof -
  let ?st = "timer_set env info c st"
  obtain d where rd: "read_connection_info it connection_info_default = Inr (info,
      \<lparr>it_socket = frame_enc (uint64_bytes ctl) True @ ms @ rest, it_message = d,
        it_has_more = True\<rparr>)"
    using read_connection_info_enc [OF wf it] by auto
  let ?it = "\<lparr>it_socket = ms @ rest, it_message = uint64_bytes ctl, it_has_more = True\<rparr>"
  obtain it' where fw: "forward_to info ?it ?st =
      Inr (it', sent_on (conn_socket info st) (envelope info @ ms) ?st)"
    and it': "it_socket it' = rest" "\<not> has_more it'"
    using forward_to_whole [of info ?st s ms ?it rest] legal p ms by auto
  have timer: "(if get_timeout_ms c \<noteq> - 1
      then bindE (get_worker_index (be_hash env) info st) (\<lambda>w.
        Inr (reactor_run_closure_at (be_now env + get_timeout_ms c)
          (new_callback (Handle_Timeout (get_event_id c) w)) st))
      else Inr st) = Inr ?st"
    by (simp add: timer_set_def get_worker_index_eq [OF inv])
  show ?thesis
    using it(1) rd legal ctl fw it' inv timer
    by (simp add: send_request_def has_more_def deref_ctrl_def start_rpc_eq Let_def)
qed

text \<open>A request that is sent was on a live connection.\<close>

lemma conn_live_run_closure_at [simp]:
  "conn_live info (reactor_run_closure_at t c st) = conn_live info st"
  by (simp add: conn_live_def reactor_run_closure_at_def is_connection_info_legal_def
      is_router_index_legal_def is_dealer_index_legal_def conn_socket_def)

lemma send_request_live:
  assumes "info_wf info" and "it_has_more it" and "it_socket it = connection_info_enc info True @ rest"
    and "send_request env it st = Inr r"
  shows "conn_live info st"
proof (rule ccontr)
  assume dead: "\<not> conn_live info st"
  then have fw: "forward_to info it' st \<noteq> Inr x"
    "forward_to info it' (reactor_run_closure_at t c st) \<noteq> Inr x" for it' t c x
    using forward_not_live [of info st it'] forward_not_live [of info "reactor_run_closure_at t c st" it'] by auto
  obtain d where "read_connection_info it connection_info_default = Inr (info,
      \<lparr>it_socket = rest, it_message = d, it_has_more = True\<rparr>)"
    using read_connection_info_enc [OF assms(1-3)] by auto
  with assms(4) fw show False
    by (auto simp: send_request_def Let_def bindE_eq_Inr split: if_splits)
qed

lemma send_reply_whole:
  assumes wf: "info_wf info" and legal: "is_connection_info_legal info st"
    and p: "conn_socket info st \<noteq> NULL" "zsocks st (conn_socket info st) = Some s"
    and ms: "whole ms"
    and it: "it_has_more it" "it_socket it = connection_info_enc info True @ ms @ rest"
  shows "\<exists>it'. send_reply it st =
      Inr (it', sent_on (conn_socket info st) (envelope info @ ms) st)
    \<and> it_socket it' = rest \<and> \<not> has_more it'"
proof -
  obtain d where rd: "read_connection_info it connection_info_default = Inr (info,
      \<lparr>it_socket = ms @ rest, it_message = d, it_has_more = True\<rparr>)"
    using read_connection_info_enc [OF wf it] by auto
  then show ?thesis
    using forward_to_whole [OF legal p ms, of
        "\<lparr>it_socket = ms @ rest, it_message = d, it_has_more = True\<rparr>" rest] it(1) legal
    by (simp add: send_reply_def has_more_def)
qed

lemma register_service_eq:
  assumes inv: "workers_inv st" and wf: "info_wf info" and legal: "is_connection_info_legal info st"
    and svc: "svc \<noteq> NULL"
    and it: "it_has_more it" "it_socket it = connection_info_enc info True
      @ frame_enc name True @ frame_enc (uint64_bytes svc) False @ rest"
  shows "\<exists>it'. register_service bh it st =
      Inr (it', deliver (worker_of bh info st) (Register_Svc_Cmd info name svc) st)
    \<and> it_socket it' = rest \<and> \<not> has_more it'"
proof -
  obtain d where rd: "read_connection_info it connection_info_default = Inr (info,
      \<lparr>it_socket = frame_enc name True @ frame_enc (uint64_bytes svc) False @ rest,
        it_message = d, it_has_more = True\<rparr>)"
    using read_connection_info_enc [OF wf it] by auto
  then show ?thesis
    using it(1) legal svc on_commander_deliver(3) [OF inv svc, of bh info info name]
    by (simp add: register_service_def has_more_def get_worker_index_eq [OF inv] worker_of_def)
qed

section \<open>Transitions\<close>

definition consumed :: "ptr \<Rightarrow> message list \<Rightarrow> broker_thread \<Rightarrow> broker_thread" where
  "consumed p rest st = st\<lparr>zsocks := (zsocks st)(p \<mapsto> (the_socket p st)\<lparr>sock_in := rest\<rparr>)\<rparr>"

text \<open>
  What the closure of the socket of a connection runs when a message of the peer has arrived, and the
  frames that arrive then: a router receives the identity of the peer in front.
\<close>

definition handle_remote :: "boost_hash \<Rightarrow> connection_info \<Rightarrow> broker_thread \<Rightarrow> broker_thread result" where
  "handle_remote bh info st = (if ci_is_router info then handle_router_socket bh (ci_index info) st
     else handle_dealer_socket bh (ci_index info) st)"

definition wire_frames :: "connection_info \<Rightarrow> message list \<Rightarrow> message list" where
  "wire_frames info ms = (if ci_is_router info then frame_enc (ci_sender info) True else []) @ ms"

lemma envelope_wire: "envelope info @ ms = wire_frames info (frame_enc [] True @ ms)"
  by (simp add: envelope_def wire_frames_def)

lemma handle_remote_whole:
  assumes "workers_inv st" and "info_wf info" and "is_connection_info_legal info st"
    and "zsocks st (conn_socket info st) = Some s" and "sock_in s = wire_frames info ms @ rest" and "whole ms"
  shows "handle_remote bh info st =
    Inr (consumed (conn_socket info st) rest (remote_effect bh info (map msg_data ms) st))"
proof (cases "ci_is_router info")
  case True
  let ?m = "\<lparr>msg_data = ci_sender info, msg_more = True\<rparr>"
  have info: "connection_info_router (ci_index info) (ci_sender info) = info"
    using True by (cases info) (simp add: connection_info_router_def)
  have "whole (?m # ms)" "ms \<noteq> []" using assms(6) by (cases ms; simp)+
  then show ?thesis
    using handle_router_socket_whole [OF assms(1), of "ci_index info" s ?m ms rest bh] True assms(3-5)
    by (simp add: info handle_remote_def is_connection_info_legal_def conn_socket_def wire_frames_def frame_enc_def
        consumed_def the_socket_def)
next
  case False
  then have "connection_info_dealer (ci_index info) = info" using info_wf_dealer [OF assms(2)] by simp
  with False show ?thesis
    using handle_dealer_socket_whole [OF assms(1), of "ci_index info" s ms rest bh] assms(3-6)
    by (simp add: handle_remote_def is_connection_info_legal_def conn_socket_def wire_frames_def
        consumed_def the_socket_def)
qed

lemma handle_frontend_socket_consumed:
  assumes "zsocks st fe = Some s" and "sock_in s = command_frames sender c body @ rest"
    and "dispatch_command env c sender
      \<lparr>it_socket = body @ rest, it_message = [c], it_has_more = body \<noteq> []\<rparr> st = Inr (it', st1)"
    and "it_socket it' = rest" "\<not> has_more it'" and "zsocks st1 fe \<noteq> None"
  shows "handle_frontend_socket env fe st = Inr (consumed fe rest st1)"
proof -
  obtain s1 where s1: "zsocks st1 fe = Some s1" using assms(6) by blast
  have "message_iterator_destroy it' = Inr rest"
    using assms(4,5) by (simp add: message_iterator_destroy_def)
  from handle_frontend_socket_command [OF assms(1-3) this s1] show ?thesis
    using s1 by (simp add: consumed_def the_socket_def)
qed

text \<open>
  A small state the theorems below are applied to: frontend socket at address 1, one dealer
  socket at 2 and one router socket at 3, both with index 1, two workers, one controller at 7.
\<close>

definition demo_socket :: "socket_type \<Rightarrow> message list \<Rightarrow> socket" where
  "demo_socket t ms = (new_socket_t t)\<lparr>sock_in := ms\<rparr>"

definition demo_broker :: "message list \<Rightarrow> message list \<Rightarrow> message list \<Rightarrow> broker_thread" where
  "demo_broker fe dealer router =
     \<lparr>zsocks = [1 \<mapsto> demo_socket ZMQ_ROUTER fe, 2 \<mapsto> demo_socket ZMQ_DEALER dealer,
        3 \<mapsto> demo_socket ZMQ_ROUTER router],
      deleted_closures = [], should_quit = False, is_dirty = True,
      r_sockets = [(1, new_permanent_callback (Handle_Frontend_Socket 1)),
        (2, new_permanent_callback (Handle_Dealer_Socket 1)),
        (3, new_permanent_callback (Handle_Router_Socket 1))],
      r_del_sockets = [], r_pollitems = [], r_closure_run_map = [],
      bt_workers = 2, dealer_sockets = [NULL, 2], router_sockets = [NULL, 3],
      bind_map = [(''a'', 3)], frontend_socket = 1,
      bt_commander = \<lparr>wc_workers = 2, worker_cmd_queues = [Some [], Some []]\<rparr>,
      ctrl_heap = [7 \<mapsto> \<lparr>rc_event_id = 5, rc_handler = Handler 0, rc_timeout_ms = 100\<rparr>]\<rparr>"

definition demo_env :: broker_env where
  "demo_env = \<lparr>be_new_socket = 9, be_now = 1000, be_rand = 3,
     be_connect_ok = (\<lambda>_. True), be_bind_ok = (\<lambda>_. True),
     be_hash = \<lparr>hash_combine_bool = (\<lambda>s b. s + (if b then 1 else 0)),
       hash_combine_uint64 = (\<lambda>s n. s + n), hash_combine_string = (\<lambda>s t. s + word_of_nat (length t))\<rparr>\<rparr>"

lemma unat_lt_2: "0 < i \<and> unat (i :: uint64) < 2 \<longleftrightarrow> i = 1"
proof
  assume i: "0 < i \<and> unat i < 2"
  then have "0 < unat i" by (simp add: word_less_nat_alt)
  with i have "unat i = unat (1 :: uint64)" by simp
  then show "i = 1" by (simp only: word_unat_eq_iff)
qed simp

lemma demo_broker_inv: "broker_inv (demo_broker fe d r)"
proof -
  have legal: "i = 1" if "0 < i" "unat (i :: uint64) < 2" for i
    using that unat_lt_2 by blast
  let ?rs = "[(1, new_permanent_callback (Handle_Frontend_Socket 1)),
        (2, new_permanent_callback (Handle_Dealer_Socket 1)),
        (3, new_permanent_callback (Handle_Router_Socket 1))]"
  have "registered [NULL, 2] [NULL, 3] (2, new_permanent_callback (Handle_Dealer_Socket 1))"
    "registered [NULL, 2] [NULL, 3] (3, new_permanent_callback (Handle_Router_Socket 1))"
    unfolding registered_def by (intro disjI1 exI [of _ 1]; simp) (intro disjI2 exI [of _ 1]; simp)
  moreover have "router_entry (set (tl ?rs)) 3"
    unfolding router_entry_def by auto
  ultimately have "broker_sockets_inv (demo_broker fe d r)"
    unfolding broker_sockets_inv_def demo_broker_def
    by (intro sockets_invI) (auto simp: map_ok_def dest: legal)
  moreover have "workers_inv (demo_broker fe d r)" "timers_inv []"
    by (simp_all add: workers_inv_def demo_broker_def commander_ok_def timers_inv_def)
  ultimately show ?thesis
    by (simp add: broker_inv_def demo_broker_def)
qed

lemma broker_inv_parts:
  assumes "broker_inv st"
  shows "workers_inv st" "map_ok (r_closure_run_map st)"
  using assms by (simp_all add: broker_inv_def timers_inv_def)

lemma frontend_request:
  assumes "workers_inv st" and "info_wf info" and "conn_live info st"
    and "zsocks st (frontend_socket st) = Some s"
    and "sock_in s = command_frames sender kRequest
      (connection_info_enc info True @ frame_enc (uint64_bytes ctl) True @ ms) @ rest"
    and "whole ms" and "ctl \<noteq> NULL" and "ctrl_heap st ctl = Some c"
  shows "handle_frontend_socket env (frontend_socket st) st =
    Inr (consumed (frontend_socket st) rest
      (deliver (worker_of (be_hash env) info st) (Start_Rpc_Cmd ctl)
        (sent_on (conn_socket info st) (envelope info @ ms) (timer_set env info c st))))"
proof -
  let ?body = "connection_info_enc info True @ frame_enc (uint64_bytes ctl) True @ ms"
  let ?it = "\<lparr>it_socket = ?body @ rest, it_message = [kRequest], it_has_more = ?body \<noteq> []\<rparr>"
  have ne: "?body \<noteq> []" by (simp add: frame_enc_def)
  obtain sp where sp: "zsocks st (conn_socket info st) = Some sp" using conn_liveD(3) [OF assms(3)] by blast
  obtain it' where "send_request env ?it st =
      Inr (it', deliver (worker_of (be_hash env) info st) (Start_Rpc_Cmd ctl)
        (sent_on (conn_socket info st) (envelope info @ ms) (timer_set env info c st)))"
    "it_socket it' = rest" "\<not> has_more it'"
    using send_request_whole [OF assms(1,2) conn_liveD(1,2) [OF assms(3)] sp assms(7,8,6), of ?it rest env]
      ne by auto
  then show ?thesis
    using handle_frontend_socket_consumed [OF assms(4,5), of env it'] assms(4)
    by (simp add: dispatch_command_def deliver_def sent_on_def)
qed

text \<open>
  C13: A request command, from either side of a connection: the message is sent on the socket of the
  connection behind its envelope, the delimiter and for a router the identity of the peer in front of
  it, frame by frame; a timer for the event is set unless the timeout is -1; the worker of the
  connection is told of the controller; the command's frames are consumed and nothing else changes.
  A connection to a server only has to be legal; the endpoint of a connection to a client must not have
  been unbound.
\<close>

theorem request_transition:
  assumes "broker_inv st" and "info_wf info" and "is_connection_info_legal info st"
    and "ci_is_router info \<Longrightarrow> conn_live info st"
    and "zsocks st (frontend_socket st) = Some s"
    and "sock_in s = command_frames sender kRequest
      (connection_info_enc info True @ frame_enc (uint64_bytes ctl) True @ ms) @ rest"
    and "whole ms" and "ctl \<noteq> NULL" and "ctrl_heap st ctl = Some c"
  shows "handle_frontend_socket env (frontend_socket st) st =
    Inr (consumed (frontend_socket st) rest
      (deliver (worker_of (be_hash env) info st) (Start_Rpc_Cmd ctl)
        (sent_on (conn_socket info st) (envelope info @ ms) (timer_set env info c st))))"
  using assms(4)
  by (rule frontend_request [OF broker_inv_parts(1) [OF assms(1)] assms(2)
        conn_live_known [OF assms(1,3)] assms(5-9)])

lemma demo_fields [simp]:
  "frontend_socket (demo_broker fe d r) = 1" "bt_workers (demo_broker fe d r) = 2"
  "zsocks (demo_broker fe d r) 1 = Some (demo_socket ZMQ_ROUTER fe)"
  "zsocks (demo_broker fe d r) 2 = Some (demo_socket ZMQ_DEALER d)"
  "zsocks (demo_broker fe d r) 3 = Some (demo_socket ZMQ_ROUTER r)"
  "dealer_sockets (demo_broker fe d r) = [NULL, 2]" "router_sockets (demo_broker fe d r) = [NULL, 3]"
  "r_closure_run_map (demo_broker fe d r) = []" "bind_map (demo_broker fe d r) = [(''a'', 3)]"
  "bt_commander (demo_broker fe d r) = \<lparr>wc_workers = 2, worker_cmd_queues = [Some [], Some []]\<rparr>"
  "ctrl_heap (demo_broker fe d r) 7 =
     Some \<lparr>rc_event_id = 5, rc_handler = Handler 0, rc_timeout_ms = 100\<rparr>"
  "sock_in (demo_socket t ms) = ms" "sock_out (demo_socket t ms) = []"
  by (simp_all add: demo_broker_def demo_socket_def new_socket_t_def)

lemma demo_worker_of:
  "worker_of (be_hash demo_env) (connection_info_dealer 1) (demo_broker fe d r) = 1"
  "worker_of (be_hash demo_env) (connection_info_router 1 [c]) (demo_broker fe d r) = 1"
  by (simp_all add: worker_of_def demo_env_def hash_value_def connection_info_dealer_def
      connection_info_router_def Let_def)

lemma demo_env_now [simp]: "be_now demo_env = 1000"
  by (simp add: demo_env_def)

lemma demo_legal:
  "is_connection_info_legal (connection_info_dealer 1) (demo_broker fe d r)"
  "is_connection_info_legal (connection_info_router 1 x) (demo_broker fe d r)"
  "conn_socket (connection_info_dealer 1) (demo_broker fe d r) = 2"
  "conn_socket (connection_info_router 1 x) (demo_broker fe d r) = 3"
  by (simp_all add: is_connection_info_legal_def connection_info_dealer_def connection_info_router_def
      is_dealer_index_legal_def is_router_index_legal_def conn_socket_def)

lemmas demo_effect_defs = consumed_def deliver_def sent_on_def the_socket_def frame_enc_def
  queue_of_def push_def timer_set_def reactor_run_closure_at_def get_timeout_ms_def

theorem request_transition_witness:
  "\<exists>st'. handle_frontend_socket demo_env 1 (demo_broker (command_frames ''u'' kRequest
       (connection_info_enc (connection_info_dealer 1) True @ frame_enc (uint64_bytes 7) True
         @ parts [''h'', ''p''])) [] []) = Inr st'
     \<and> sock_out (the_socket 2 st') = parts [[], ''h'', ''p'']
     \<and> queue_of (bt_commander st') 1 = [Start_Rpc_Cmd 7]
     \<and> map fst (r_closure_run_map st') = [1100]"
proof -
  let ?ms = "parts [''h'', ''p'']"
  let ?st = "demo_broker (command_frames ''u'' kRequest
       (connection_info_enc (connection_info_dealer 1) True @ frame_enc (uint64_bytes 7) True
         @ ?ms)) [] []"
  have "handle_frontend_socket demo_env (frontend_socket ?st) ?st =
    Inr (consumed (frontend_socket ?st) []
      (deliver (worker_of (be_hash demo_env) (connection_info_dealer 1) ?st) (Start_Rpc_Cmd 7)
        (sent_on (conn_socket (connection_info_dealer 1) ?st) (envelope (connection_info_dealer 1) @ ?ms)
          (timer_set demo_env (connection_info_dealer 1)
            \<lparr>rc_event_id = 5, rc_handler = Handler 0, rc_timeout_ms = 100\<rparr> ?st))))"
    by (rule request_transition [OF demo_broker_inv, where sender = "''u''"])
      (simp_all add: demo_legal, simp?)
  then show ?thesis
    unfolding demo_fields(1)
    by (intro exI conjI, assumption) (simp_all add: demo_effect_defs demo_worker_of demo_legal envelope_def)
qed

lemma frontend_reply:
  assumes "info_wf info" and "conn_live info st"
    and "zsocks st (frontend_socket st) = Some s"
    and "sock_in s = command_frames sender kReply (connection_info_enc info True @ ms) @ rest"
    and "whole ms"
  shows "handle_frontend_socket env (frontend_socket st) st =
    Inr (consumed (frontend_socket st) rest (sent_on (conn_socket info st) (envelope info @ ms) st))"
proof -
  let ?body = "connection_info_enc info True @ ms"
  let ?it = "\<lparr>it_socket = ?body @ rest, it_message = [kReply], it_has_more = ?body \<noteq> []\<rparr>"
  have ne: "?body \<noteq> []" using assms(5) by auto
  obtain sp where sp: "zsocks st (conn_socket info st) = Some sp" using conn_liveD(3) [OF assms(2)] by blast
  obtain it' where "send_reply ?it st =
      Inr (it', sent_on (conn_socket info st) (envelope info @ ms) st)"
    "it_socket it' = rest" "\<not> has_more it'"
    using send_reply_whole [OF assms(1) conn_liveD(1,2) [OF assms(2)] sp assms(5), of ?it rest] ne by auto
  then show ?thesis
    using handle_frontend_socket_consumed [OF assms(3,4), of env it'] assms(3)
    by (simp add: dispatch_command_def sent_on_def)
qed

text \<open>
  A reply on a live connection: the message is sent on the socket the request came from, behind the
  same envelope, so to the peer it came from where that is a router; the command's frames are consumed
  and nothing else changes.
\<close>

theorem reply_transition:
  assumes "info_wf info" and "conn_live info st"
    and "zsocks st (frontend_socket st) = Some s"
    and "sock_in s = command_frames sender kReply (connection_info_enc info True @ ms) @ rest"
    and "whole ms"
  shows "handle_frontend_socket env (frontend_socket st) st =
    Inr (consumed (frontend_socket st) rest (sent_on (conn_socket info st) (envelope info @ ms) st))"
  using assms by (rule frontend_reply)

theorem reply_transition_witness:
  "\<exists>st'. handle_frontend_socket demo_env 1 (demo_broker (command_frames ''u'' kReply
       (connection_info_enc (connection_info_router 1 ''c'') True @ parts [''h'', ''p''])) [] []) = Inr st'
     \<and> sock_out (the_socket 3 st') = parts [''c'', [], ''h'', ''p'']"
proof -
  let ?ms = "parts [''h'', ''p'']"
  let ?info = "connection_info_router 1 ''c''"
  let ?st = "demo_broker (command_frames ''u'' kReply (connection_info_enc ?info True @ ?ms)) [] []"
  have "handle_frontend_socket demo_env (frontend_socket ?st) ?st =
    Inr (consumed (frontend_socket ?st) [] (sent_on (conn_socket ?info ?st) (envelope ?info @ ?ms) ?st))"
    by (rule reply_transition [where sender = "''u''"]) (simp_all add: demo_legal conn_live_def, simp?)
  then show ?thesis
    unfolding demo_fields(1)
    by (intro exI conjI, assumption) (simp_all add: demo_effect_defs demo_legal envelope_def)
qed

text \<open>
  A connect command creates a dealer socket connected to the endpoint, registers it with its
  own closure under the next dealer index, and answers the sender with that index; a refused
  endpoint is an exception of ZeroMQ that leaves the thread.
\<close>

theorem connect_transition:
  assumes "broker_inv st" and "env_ok env st" and "zsocks st (frontend_socket st) = Some s"
    and "sock_in s = command_frames sender kConnect (frame_enc endpoint False) @ rest"
  shows "handle_frontend_socket env (frontend_socket st) st =
    (if be_connect_ok env (c_str endpoint)
     then Inr (consumed (frontend_socket st) rest
       (replied sender (uint64_bytes (word_of_nat (length (dealer_sockets st))))
         (connected env endpoint st)))
     else Inl Zmq_Error)"
proof (cases "be_connect_ok env (c_str endpoint)")
  case True
  have "zsocks (connected env endpoint st) (frontend_socket st) \<noteq> None"
    using assms(3) by (simp add: connected_def Let_def)
  then show ?thesis
    using handle_frontend_socket_consumed [OF assms(3,4), of env] True
    by (simp add: dispatch_command_def handle_connect_command_eq [OF assms(1,2)] replied_def Let_def
        frame_enc_def read_string_def has_more_def connected_def)
next
  case False
  then show ?thesis
    using assms(3,4)
    by (simp add: handle_frontend_socket_def with_iterator_def deref_socket_Some
        message_iterator_new_def command_frames_def read_char_def frame_enc_def read_string_def
        dispatch_command_def handle_connect_command_eq [OF assms(1,2)])
qed

lemma demo_env_ok: "env_ok demo_env (demo_broker fe d r)"
  by (simp add: env_ok_def demo_env_def demo_broker_def)

theorem connect_transition_witness:
  "\<exists>st'. handle_frontend_socket demo_env 1
       (demo_broker (command_frames ''u'' kConnect (frame_enc ''e'' False)) [] []) = Inr st'
     \<and> dealer_sockets st' = [NULL, 2, 9] \<and> sock_connected (the_socket 9 st') = [''e'']
     \<and> sock_out (the_socket 1 st') = reply_frames ''u'' (uint64_bytes 2)"
proof -
  let ?st = "demo_broker (command_frames ''u'' kConnect (frame_enc ''e'' False)) [] []"
  have "handle_frontend_socket demo_env (frontend_socket ?st) ?st =
    (if be_connect_ok demo_env (c_str ''e'')
     then Inr (consumed (frontend_socket ?st) []
       (replied ''u'' (uint64_bytes (word_of_nat (length (dealer_sockets ?st))))
         (connected demo_env ''e'' ?st)))
     else Inl Zmq_Error)"
    by (rule connect_transition [OF demo_broker_inv demo_env_ok, where s = "demo_socket ZMQ_ROUTER
        (command_frames ''u'' kConnect (frame_enc ''e'' False))"]) simp_all
  moreover have "be_connect_ok demo_env (c_str ''e'')" "be_new_socket demo_env = 9" "c_str ''e'' = ''e''"
    by (simp_all add: demo_env_def c_str_def)
  ultimately show ?thesis
    unfolding demo_fields(1)
    by (simp add: consumed_def replied_def connected_def the_socket_def Let_def)
qed

text \<open>
  A bind command creates a router socket bound to the endpoint, registers it with its own
  closure under the next router index, records it for a later unbind, and answers the sender
  with that index; a refused endpoint is an exception of ZeroMQ that leaves the thread.
\<close>

theorem bind_transition:
  assumes "broker_inv st" and "env_ok env st" and "zsocks st (frontend_socket st) = Some s"
    and "sock_in s = command_frames sender kBind (frame_enc endpoint False) @ rest"
  shows "handle_frontend_socket env (frontend_socket st) st =
    (if be_bind_ok env (c_str endpoint)
     then Inr (consumed (frontend_socket st) rest
       (replied sender (uint64_bytes (word_of_nat (length (router_sockets st))))
         (bound env endpoint st)))
     else Inl Zmq_Error)"
proof (cases "be_bind_ok env (c_str endpoint)")
  case True
  then show ?thesis
    using handle_frontend_socket_consumed [OF assms(3,4), of env] assms(3)
    by (simp add: dispatch_command_def handle_bind_command_iter_def
        handle_bind_command_eq [OF assms(1,2)] replied_def Let_def frame_enc_def read_string_def
        has_more_def bound_def)
next
  case False
  then show ?thesis
    using assms(3,4)
    by (simp add: handle_frontend_socket_def with_iterator_def deref_socket_Some
        message_iterator_new_def command_frames_def read_char_def frame_enc_def read_string_def
        dispatch_command_def handle_bind_command_iter_def handle_bind_command_eq [OF assms(1,2)])
qed

theorem bind_transition_witness:
  "\<exists>st'. handle_frontend_socket demo_env 1
       (demo_broker (command_frames ''u'' kBind (frame_enc ''e'' False)) [] []) = Inr st'
     \<and> router_sockets st' = [NULL, 3, 9] \<and> map_of (bind_map st') ''e'' = Some 9
     \<and> sock_out (the_socket 1 st') = reply_frames ''u'' (uint64_bytes 2)"
proof -
  let ?st = "demo_broker (command_frames ''u'' kBind (frame_enc ''e'' False)) [] []"
  have "handle_frontend_socket demo_env (frontend_socket ?st) ?st =
    (if be_bind_ok demo_env (c_str ''e'')
     then Inr (consumed (frontend_socket ?st) []
       (replied ''u'' (uint64_bytes (word_of_nat (length (router_sockets ?st))))
         (bound demo_env ''e'' ?st)))
     else Inl Zmq_Error)"
    by (rule bind_transition [OF demo_broker_inv demo_env_ok, where s = "demo_socket ZMQ_ROUTER
        (command_frames ''u'' kBind (frame_enc ''e'' False))"]) simp_all
  moreover have "be_bind_ok demo_env (c_str ''e'')" "be_new_socket demo_env = 9" "c_str ''e'' = ''e''"
    by (simp_all add: demo_env_def c_str_def)
  ultimately show ?thesis
    unfolding demo_fields(1)
    by (simp add: consumed_def replied_def bound_def the_socket_def Let_def map_of_map_insert)
qed

text \<open>
  An unbind command marks the socket of a known endpoint for deletion and forgets the
  endpoint; the answer is left to the closure the deletion runs. For an endpoint that is not
  bound the command is dropped without any answer, although its sender waits for one.
\<close>

theorem unbind_transition:
  assumes "broker_inv st" and "zsocks st (frontend_socket st) = Some s"
    and "sock_in s = command_frames sender kUnbind (frame_enc endpoint False) @ rest"
  shows "handle_frontend_socket env (frontend_socket st) st =
    Inr (consumed (frontend_socket st) rest
      (case map_of (bind_map st) endpoint of None \<Rightarrow> st | Some p \<Rightarrow> unbound endpoint p sender st))"
proof -
  have z: "zsocks (unbound endpoint p sender st) = zsocks st" for p
    by (simp add: unbound_def reactor_del_socket_def)
  show ?thesis
    using handle_frontend_socket_consumed [OF assms(2,3), of env] assms(2) z
    by (cases "map_of (bind_map st) endpoint")
      (simp_all add: dispatch_command_def handle_unbind_command_eq [OF assms(1)] frame_enc_def
        read_string_def has_more_def)
qed

theorem unbind_transition_witness:
  "(\<exists>st'. handle_frontend_socket demo_env 1
       (demo_broker (command_frames ''u'' kUnbind (frame_enc ''a'' False)) [] []) = Inr st'
     \<and> r_del_sockets st' = [(3, new_callback (Handle_Socket_Deleted ''u''))] \<and> bind_map st' = [])
   \<and> (\<exists>st'. handle_frontend_socket demo_env 1
       (demo_broker (command_frames ''u'' kUnbind (frame_enc ''b'' False)) [] []) = Inr st'
     \<and> r_del_sockets st' = [] \<and> sock_out (the_socket 1 st') = [])"
proof -
  let ?st = "\<lambda>e. demo_broker (command_frames ''u'' kUnbind (frame_enc e False)) [] []"
  have "handle_frontend_socket demo_env (frontend_socket (?st e)) (?st e) =
    Inr (consumed (frontend_socket (?st e)) []
      (case map_of (bind_map (?st e)) e of None \<Rightarrow> ?st e | Some p \<Rightarrow> unbound e p ''u'' (?st e)))" for e
    by (rule unbind_transition [OF demo_broker_inv, where s = "demo_socket ZMQ_ROUTER
        (command_frames ''u'' kUnbind (frame_enc e False))"]) simp_all
  from this [of "''a''"] this [of "''b''"] show ?thesis
    unfolding demo_fields(1)
    by (simp add: consumed_def the_socket_def unbound_def reactor_del_socket_def map_erase_def
        mm_insert_def demo_broker_def demo_socket_def new_socket_t_def)
qed

lemma forward_deleted:
  assumes "is_connection_info_legal info st" "conn_socket info st \<noteq> NULL" "zsocks st (conn_socket info st) = None"
  shows "forward_to info it st = Inl Use_After_Free"
  using assms by (cases "ci_is_router info") (simp_all add: forward_to_def conn_socket_def deref_socket_def Let_def)

lemma send_deleted:
  assumes "workers_inv st" "info_wf info" "it_has_more it"
    and dead: "is_connection_info_legal info st" "conn_socket info st \<noteq> NULL" "zsocks st (conn_socket info st) = None"
  shows "it_socket it = connection_info_enc info True @ ms \<Longrightarrow> send_reply it st = Inl Use_After_Free"
    and "it_socket it = connection_info_enc info True @ frame_enc (uint64_bytes ctl) True @ ms \<Longrightarrow>
      ctl \<noteq> NULL \<Longrightarrow> ctrl_heap st ctl = Some c \<Longrightarrow> send_request env it st = Inl Use_After_Free"
proof -
  note fw = forward_deleted [OF dead]
  show "send_reply it st = Inl Use_After_Free" if it: "it_socket it = connection_info_enc info True @ ms"
    using read_connection_info_enc [OF assms(2,3) it] assms(3) dead(1) fw
    by (auto simp: send_reply_def has_more_def)
  assume it: "it_socket it = connection_info_enc info True @ frame_enc (uint64_bytes ctl) True @ ms"
    and ctl: "ctl \<noteq> NULL" "ctrl_heap st ctl = Some c"
  have fw': "forward_to info it' (timer_set env info c st) = Inl Use_After_Free" for it'
    by (rule forward_deleted) (simp_all add: dead)
  have timer: "(if get_timeout_ms c \<noteq> - 1
      then bindE (get_worker_index (be_hash env) info st) (\<lambda>w.
        Inr (reactor_run_closure_at (be_now env + get_timeout_ms c)
          (new_callback (Handle_Timeout (get_event_id c) w)) st))
      else Inr st) = Inr (timer_set env info c st)"
    by (simp add: timer_set_def get_worker_index_eq [OF assms(1)])
  show "send_request env it st = Inl Use_After_Free"
    using read_connection_info_enc [OF assms(2,3) it] assms(3) dead(1) ctl fw' timer
    by (auto simp: send_request_def has_more_def deref_ctrl_def Let_def)
qed

text \<open>A command has arrived at the frontend socket.\<close>

definition receives :: "message list \<Rightarrow> broker_thread \<Rightarrow> broker_thread" where
  "receives ms st = st\<lparr>zsocks := (zsocks st)(frontend_socket st \<mapsto>
     (the_socket (frontend_socket st) st)\<lparr>sock_in := ms\<rparr>)\<rparr>"

lemma receives_fields [simp]:
  "workers_inv (receives ms st) = workers_inv st" "ctrl_heap (receives ms st) = ctrl_heap st"
  "is_connection_info_legal info (receives ms st) = is_connection_info_legal info st"
  "conn_socket info (receives ms st) = conn_socket info st"
  "p \<noteq> frontend_socket st \<Longrightarrow> zsocks (receives ms st) p = zsocks st p"
  by (simp_all add: receives_def workers_inv_def is_connection_info_legal_def is_dealer_index_legal_def
      is_router_index_legal_def conn_socket_def)

lemma frontend_fails:
  assumes "dispatch_command env k u \<lparr>it_socket = body, it_message = [k], it_has_more = body \<noteq> []\<rparr>
      (receives (command_frames u k body) st) = Inl e"
  shows "handle_frontend_socket env (frontend_socket st) (receives (command_frames u k body) st) = Inl e"
  using assms
  by (simp add: handle_frontend_socket_def with_iterator_def receives_def deref_socket_Some
      message_iterator_new_def command_frames_def read_char_def frame_enc_def read_string_def)

lemma connection_deleted:
  assumes "workers_inv st" "info_wf info" "is_connection_info_legal info st" "conn_socket info st \<noteq> NULL"
    and "zsocks st (conn_socket info st) = None" "conn_socket info st \<noteq> frontend_socket st"
    and "whole ms"
  shows "handle_frontend_socket env (frontend_socket st)
      (receives (command_frames u kReply (connection_info_enc info True @ ms)) st) = Inl Use_After_Free"
    and "ctl \<noteq> NULL \<Longrightarrow> ctrl_heap st ctl = Some c \<Longrightarrow>
      handle_frontend_socket env (frontend_socket st) (receives (command_frames u kRequest
        (connection_info_enc info True @ frame_enc (uint64_bytes ctl) True @ ms)) st) = Inl Use_After_Free"
proof -
  have r: "workers_inv (receives fs st)" "is_connection_info_legal info (receives fs st)"
      "conn_socket info (receives fs st) \<noteq> NULL" "zsocks (receives fs st) (conn_socket info (receives fs st)) = None" for fs
    using assms(1,3-6) by simp_all
  have ne: "ms \<noteq> []" using assms(7) by auto
  note dead = send_deleted [OF r(1) assms(2) _ r(2-4)]
  show "handle_frontend_socket env (frontend_socket st)
      (receives (command_frames u kReply (connection_info_enc info True @ ms)) st) = Inl Use_After_Free"
    by (rule frontend_fails) (use dead(1) ne in \<open>simp add: dispatch_command_def\<close>)
  assume "ctl \<noteq> NULL" "ctrl_heap st ctl = Some c"
  then show "handle_frontend_socket env (frontend_socket st) (receives (command_frames u kRequest
      (connection_info_enc info True @ frame_enc (uint64_bytes ctl) True @ ms)) st) = Inl Use_After_Free"
    by (intro frontend_fails) (simp add: dispatch_command_def frame_enc_def dead(2) [of _ ctl ms])
qed

text \<open>The next round of the loop deletes the socket of an endpoint that has been unbound.\<close>

lemma unbound_deleted:
  assumes "broker_inv st" and "map_of (bind_map st) endpoint = Some p"
    and "st1 = consumed (frontend_socket st) rest (unbound endpoint p sender st)"
  shows "\<exists>st2. rebuild_poll_items (broker_closure_run env) st1 = Inr st2 \<and> zsocks st2 p = None
    \<and> reactor.more st2 = reactor.more st1 \<and> p \<noteq> frontend_socket st"
proof -
  note inv = sockets_invD [OF assms(1) [unfolded broker_inv_def broker_sockets_inv_def, THEN conjunct1]]
  have "p \<in> snd ` set (bind_map st)" using map_of_SomeD [OF assms(2)] by force
  then have "router_entry (set (tl (r_sockets st))) p" using inv(16) by blast
  then have tl: "p \<in> fst ` set (tl (r_sockets st))" unfolding router_entry_def by force
  have "zsocks st (frontend_socket st) \<noteq> None" using broker_inv_frontend [OF assms(1)] by blast
  then have inv1: "broker_inv st1"
    using broker_inv_unbound [OF assms(1,2)] broker_inv_update [of "unbound endpoint p sender st" "frontend_socket st"]
    by (auto simp: assms(3) consumed_def unbound_def reactor_del_socket_def)
  have anchor: "fst (hd (r_sockets st1)) =
      frontend_socket (reactor.extend (new_reactor False) (reactor.more st1))"
    using broker_inv_sockets_ok(3) [OF inv1] by simp
  obtain st2 where st2: "rebuild_poll_items (broker_closure_run env) st1 = Inr st2"
    "dom (zsocks st2) = dom (zsocks st1) - (del_keys st1 \<inter> fst ` set (tl (r_sockets st1)))"
    "reactor.more st2 = reactor.more st1"
    using broker_loop.rebuild_poll_items_correct [OF broker_inv_sockets_ok(1,2,4) [OF inv1] anchor] by blast
  have "p \<in> del_keys st1" "r_sockets st1 = r_sockets st"
    by (simp_all add: assms(3) consumed_def unbound_def reactor_del_socket_def mm_insert_def)
  then have "p \<notin> dom (zsocks st2)" using st2(2) tl by simp
  moreover have "p \<noteq> frontend_socket st"
    using inv(1-3) tl by (cases "r_sockets st") force+
  ultimately show ?thesis using st2(1,3) by auto
qed

text \<open>
  C27: After an unbind, connections of the endpoint use a deleted socket. The unbind succeeds, and so
  does the next round of the loop, which deletes the socket; the index of the connection stays legal,
  because the vector of router sockets keeps the pointer; and a reply to a client of the endpoint, or a
  request to it, that the broker takes afterwards is sent on the deleted socket.
\<close>

theorem unbound_connection_uses_deleted_socket:
  assumes "broker_inv st" and "info_wf info" and "is_connection_info_legal info st"
    and "map_of (bind_map st) endpoint = Some (conn_socket info st)"
    and "zsocks st (frontend_socket st) = Some s"
    and "sock_in s = command_frames sender kUnbind (frame_enc endpoint False)"
    and "whole ms" and "ctl \<noteq> NULL" and "h ctl = Some c"
  shows "\<exists>st1 st2. handle_frontend_socket env (frontend_socket st) st = Inr st1
    \<and> rebuild_poll_items (broker_closure_run env) st1 = Inr st2 \<and> is_connection_info_legal info st2
    \<and> handle_frontend_socket env (frontend_socket st)
        (receives (command_frames u kReply (connection_info_enc info True @ ms)) st2) = Inl Use_After_Free
    \<and> handle_frontend_socket env (frontend_socket st) (receives (command_frames u kRequest
        (connection_info_enc info True @ frame_enc (uint64_bytes ctl) True @ ms)) (st2\<lparr>ctrl_heap := h\<rparr>)) =
      Inl Use_After_Free"
proof -
  let ?fe = "frontend_socket st" and ?p = "conn_socket info st"
  let ?st1 = "consumed ?fe [] (unbound endpoint ?p sender st)"
  have 1: "handle_frontend_socket env ?fe st = Inr ?st1"
    using unbind_transition [OF assms(1,5), of sender endpoint "[]" env] assms(4,6) by simp
  obtain st2 where 2: "rebuild_poll_items (broker_closure_run env) ?st1 = Inr st2" "zsocks st2 ?p = None"
    "reactor.more st2 = reactor.more ?st1" "?p \<noteq> ?fe"
    using unbound_deleted [OF assms(1,4) refl] by blast
  have same: "frontend_socket st2 = ?fe" "conn_socket info st2 = ?p"
    "is_connection_info_legal info st2" "workers_inv st2"
    using more_fields [OF 2(3)] assms(3) broker_inv_parts(1) [OF assms(1)]
    by (simp_all add: consumed_def unbound_def reactor_del_socket_def conn_socket_def workers_inv_def
        is_connection_info_legal_def is_dealer_index_legal_def is_router_index_legal_def split: if_splits)
  have dead: "?p \<noteq> NULL" using bind_map_values_not_NULL [OF assms(1,4)] .
  let ?st3 = "st2\<lparr>ctrl_heap := h\<rparr>"
  have st3: "workers_inv ?st3" "is_connection_info_legal info ?st3" "conn_socket info ?st3 = ?p"
    "zsocks ?st3 ?p = None" "frontend_socket ?st3 = ?fe" "ctrl_heap ?st3 ctl = Some c"
    using same 2(2) assms(9) by simp_all
  have "handle_frontend_socket env ?fe
      (receives (command_frames u kReply (connection_info_enc info True @ ms)) st2) = Inl Use_After_Free"
    using connection_deleted(1) [OF same(4) assms(2) same(3) _ _ _ assms(7), of env u] same(1,2) dead 2(2,4) by simp
  moreover have "handle_frontend_socket env ?fe (receives (command_frames u kRequest
      (connection_info_enc info True @ frame_enc (uint64_bytes ctl) True @ ms)) ?st3) = Inl Use_After_Free"
    using connection_deleted(2) [OF st3(1) assms(2) st3(2) _ _ _ assms(7,8) st3(6), of env u] st3(3-5) dead 2(4)
    by simp
  ultimately show ?thesis using 1 2(1) same(3) by blast
qed

theorem unbound_connection_uses_deleted_socket_witness:
  "\<exists>st1 st2. handle_frontend_socket demo_env 1
      (demo_broker (command_frames ''u'' kUnbind (frame_enc ''a'' False)) [] []) = Inr st1
    \<and> rebuild_poll_items (broker_closure_run demo_env) st1 = Inr st2
    \<and> handle_frontend_socket demo_env 1 (receives (command_frames ''w'' kReply
        (connection_info_enc (connection_info_router 1 ''c'') True @ parts [''h'', ''p''])) st2) = Inl Use_After_Free"
proof -
  let ?info = "connection_info_router 1 ''c''"
  let ?st = "demo_broker (command_frames ''u'' kUnbind (frame_enc ''a'' False)) [] []"
  have st: "info_wf ?info" "is_connection_info_legal ?info ?st"
    "map_of (bind_map ?st) ''a'' = Some (conn_socket ?info ?st)"
    "zsocks ?st (frontend_socket ?st) = Some (demo_socket ZMQ_ROUTER (command_frames ''u'' kUnbind (frame_enc ''a'' False)))"
    "sock_in (demo_socket ZMQ_ROUTER (command_frames ''u'' kUnbind (frame_enc ''a'' False))) =
      command_frames ''u'' kUnbind (frame_enc ''a'' False)"
    "whole (parts [''h'', ''p''])" "(7 :: ptr) \<noteq> NULL"
    by (simp_all add: demo_legal)
  from unbound_connection_uses_deleted_socket [OF demo_broker_inv st, where h = "ctrl_heap ?st" and env = demo_env
      and u = "''w''"]
  show ?thesis unfolding demo_fields(1) by (auto simp: demo_broker_def)
qed

text \<open>
  C19: Whatever whole message arrives on a live dealer socket, the broker handles it without an
  error, reads exactly its frames, and hands the worker of the connection one data command if
  the message has an empty delimiter and a header, and does nothing otherwise.
\<close>

theorem dealer_message_transition:
  assumes "broker_inv st" and "is_dealer_index_legal i st"
    and "zsocks st (dealer_sockets st ! unat i) = Some s" and "sock_in s = ms @ rest" and "whole ms"
  shows "handle_dealer_socket bh i st =
    Inr ((remote_effect bh (connection_info_dealer i) (map msg_data ms) st)
      \<lparr>zsocks := (zsocks st)(dealer_sockets st ! unat i \<mapsto> s\<lparr>sock_in := rest\<rparr>)\<rparr>)"
  using handle_dealer_socket_whole [OF broker_inv_parts(1) [OF assms(1)] assms(2-5)] .

theorem dealer_message_transition_witness:
  "\<exists>st'. handle_dealer_socket (be_hash demo_env) 1
       (demo_broker [] (parts [[], ''h'', ''p'', ''x''] @ parts [''y'']) []) = Inr st'
     \<and> queue_of (bt_commander st') 1 = [Handle_Data_Cmd
         \<lparr>hd_info = Some (connection_info_dealer 1), hd_header = ''h'', hd_payload = ''p''\<rparr>]
     \<and> sock_in (the_socket 2 st') = parts [''y'']"
proof -
  let ?st = "demo_broker [] (parts [[], ''h'', ''p'', ''x''] @ parts [''y'']) []"
  have "handle_dealer_socket (be_hash demo_env) 1 ?st =
    Inr ((remote_effect (be_hash demo_env) (connection_info_dealer 1)
        (map msg_data (parts [[], ''h'', ''p'', ''x''])) ?st)
      \<lparr>zsocks := (zsocks ?st)(dealer_sockets ?st ! unat (1 :: uint64) \<mapsto>
        (demo_socket ZMQ_DEALER (parts [[], ''h'', ''p'', ''x''] @ parts [''y'']))
          \<lparr>sock_in := parts [''y'']\<rparr>)\<rparr>)"
    by (rule dealer_message_transition [OF demo_broker_inv])
      (simp_all add: is_dealer_index_legal_def)
  then show ?thesis
    by (intro exI conjI, assumption)
      (simp_all add: demo_effect_defs remote_effect_def remote_data_def demo_worker_of)
qed

text \<open>
  C18: Whatever whole message arrives on a live router socket, the broker handles it without an
  error, reads exactly its frames, and takes the first frame as the sender's identity: the data
  command names the connection made of the router index and that identity.
\<close>

theorem router_message_transition:
  assumes "broker_inv st" and "is_router_index_legal i st"
    and "zsocks st (router_sockets st ! unat i) = Some s"
    and "sock_in s = m # ms @ rest" and "whole (m # ms)"
  shows "handle_router_socket bh i st =
    Inr ((if ms = [] then st
          else remote_effect bh (connection_info_router i (msg_data m)) (map msg_data ms) st)
      \<lparr>zsocks := (zsocks st)(router_sockets st ! unat i \<mapsto> s\<lparr>sock_in := rest\<rparr>)\<rparr>)"
  using handle_router_socket_whole [OF broker_inv_parts(1) [OF assms(1)] assms(2-5)] .

theorem router_message_transition_witness:
  "\<exists>st'. handle_router_socket (be_hash demo_env) 1
       (demo_broker [] [] (parts [''c'', [], ''h''] @ parts [''y''])) = Inr st'
     \<and> queue_of (bt_commander st') 1 = [Handle_Data_Cmd
         \<lparr>hd_info = Some (connection_info_router 1 ''c''), hd_header = ''h'', hd_payload = []\<rparr>]
     \<and> sock_in (the_socket 3 st') = parts [''y'']"
proof -
  let ?st = "demo_broker [] [] (parts [''c'', [], ''h''] @ parts [''y''])"
  let ?m = "\<lparr>msg_data = ''c'', msg_more = True\<rparr>"
  have "handle_router_socket (be_hash demo_env) 1 ?st =
    Inr ((if parts [[], ''h''] = [] then ?st
          else remote_effect (be_hash demo_env) (connection_info_router 1 (msg_data ?m))
            (map msg_data (parts [[], ''h''])) ?st)
      \<lparr>zsocks := (zsocks ?st)(router_sockets ?st ! unat (1 :: uint64) \<mapsto>
        (demo_socket ZMQ_ROUTER (parts [''c'', [], ''h''] @ parts [''y'']))\<lparr>sock_in := parts [''y'']\<rparr>)\<rparr>)"
    by (rule router_message_transition [OF demo_broker_inv])
      (simp_all add: is_router_index_legal_def)
  then show ?thesis
    by (intro exI conjI, assumption)
      (simp_all add: demo_effect_defs remote_effect_def remote_data_def demo_worker_of)
qed

text \<open>
  C17: A request's own start reaches its worker before any response to it, on either side of a
  connection: the response of the same connection, handled after the request, goes to the same worker
  and behind the start.
\<close>

theorem response_follows_start:
  assumes "broker_inv st" and "info_wf info" and "is_connection_info_legal info st"
    and "ci_is_router info \<Longrightarrow> conn_live info st"
    and "zsocks st (frontend_socket st) = Some s"
    and "sock_in s = command_frames sender kRequest
      (connection_info_enc info True @ frame_enc (uint64_bytes ctl) True @ ms) @ rest"
    and "whole ms" and "ctl \<noteq> NULL" and "ctrl_heap st ctl = Some c"
    and "handle_frontend_socket env (frontend_socket st) st = Inr st1"
    and "zsocks st1 (conn_socket info st) = Some s1" and "sock_in s1 = wire_frames info reply @ rest1"
    and "whole reply" and "remote_data info (map msg_data reply) = Some d"
    and "handle_remote (be_hash env) info st1 = Inr st2"
  shows "queue_of (bt_commander st2) (worker_of (be_hash env) info st) =
    queue_of (bt_commander st) (worker_of (be_hash env) info st)
      @ [Start_Rpc_Cmd ctl, Handle_Data_Cmd d]"
proof -
  let ?w = "worker_of (be_hash env) info st"
  let ?eff = "consumed (frontend_socket st) rest (deliver ?w (Start_Rpc_Cmd ctl)
        (sent_on (conn_socket info st) (envelope info @ ms) (timer_set env info c st)))"
  have w: "workers_inv st" using broker_inv_parts(1) [OF assms(1)] .
  have "handle_frontend_socket env (frontend_socket st) st = Inr ?eff"
    using assms(4) by (rule frontend_request [OF w assms(2) conn_live_known [OF assms(1,3)] assms(5-9)])
  with assms(10) have st1: "st1 = ?eff" by simp
  have same: "dealer_sockets st1 = dealer_sockets st" "router_sockets st1 = router_sockets st"
    "bt_workers st1 = bt_workers st"
    "bt_commander st1 = push ?w (Start_Rpc_Cmd ctl) (bt_commander st)"
    by (simp_all add: st1 consumed_def deliver_def sent_on_def)
  have w1: "workers_inv st1"
    using w worker_of_less [OF w] by (simp add: workers_inv_def same commander_ok_push)
  have legal: "is_connection_info_legal info st1" and conn: "conn_socket info st1 = conn_socket info st"
    using assms(3)
    by (simp_all add: is_connection_info_legal_def is_dealer_index_legal_def is_router_index_legal_def
        conn_socket_def same split: if_splits)
  have "st2 = consumed (conn_socket info st) rest1 (remote_effect (be_hash env) info (map msg_data reply) st1)"
    using handle_remote_whole [OF w1 assms(2) legal, of s1 reply rest1 "be_hash env"] assms(11-13,15)
    by (simp add: conn)
  then have "bt_commander st2 = push ?w (Handle_Data_Cmd d) (bt_commander st1)"
    using assms(14) by (simp add: remote_effect_def deliver_def worker_of_def same consumed_def)
  then show ?thesis
    using w worker_of_less [OF w] by (simp add: same queue_of_push commander_ok_push workers_inv_def)
qed

theorem response_follows_start_witness:
  "\<exists>st1 st2. handle_frontend_socket demo_env 1 (demo_broker (command_frames ''u'' kRequest
       (connection_info_enc (connection_info_router 1 ''c'') True @ frame_enc (uint64_bytes 7) True
         @ parts [''h'', ''p''])) [] (parts [''c'', [], ''r''])) = Inr st1
     \<and> handle_remote (be_hash demo_env) (connection_info_router 1 ''c'') st1 = Inr st2
     \<and> queue_of (bt_commander st2) 1 = [Start_Rpc_Cmd 7, Handle_Data_Cmd
         \<lparr>hd_info = Some (connection_info_router 1 ''c''), hd_header = ''r'', hd_payload = []\<rparr>]"
proof -
  let ?info = "connection_info_router 1 ''c''"
  let ?ms = "parts [''h'', ''p'']"
  let ?fe = "command_frames ''u'' kRequest
       (connection_info_enc ?info True @ frame_enc (uint64_bytes 7) True @ ?ms)"
  let ?r = "parts [''c'', [], ''r'']"
  let ?st = "demo_broker ?fe [] ?r"
  let ?c = "\<lparr>rc_event_id = 5, rc_handler = Handler 0, rc_timeout_ms = 100\<rparr>"
  let ?d = "\<lparr>hd_info = Some ?info, hd_header = ''r'', hd_payload = []\<rparr>"
  have fe: "zsocks ?st (frontend_socket ?st) = Some (demo_socket ZMQ_ROUTER ?fe)"
    "sock_in (demo_socket ZMQ_ROUTER ?fe) = ?fe @ []" "whole ?ms" "(7 :: ptr) \<noteq> NULL"
    "ctrl_heap ?st 7 = Some ?c"
    by simp_all
  have wf: "info_wf ?info" "is_connection_info_legal ?info ?st" "conn_live ?info ?st"
    by (simp_all add: demo_legal conn_live_def)
  note inv = demo_broker_inv [of ?fe "[]" ?r]
  define st1 where "st1 = consumed (frontend_socket ?st) []
      (deliver (worker_of (be_hash demo_env) ?info ?st) (Start_Rpc_Cmd 7)
        (sent_on (conn_socket ?info ?st) (envelope ?info @ ?ms) (timer_set demo_env ?info ?c ?st)))"
  have 1: "handle_frontend_socket demo_env (frontend_socket ?st) ?st = Inr st1"
    unfolding st1_def by (rule frontend_request [OF broker_inv_parts(1) [OF inv] wf(1,3) fe])
  let ?s = "(demo_socket ZMQ_ROUTER ?r)\<lparr>sock_out := envelope ?info @ ?ms\<rparr>"
  have s1: "zsocks st1 (conn_socket ?info ?st) = Some ?s" "sock_in ?s = wire_frames ?info (parts [[], ''r'']) @ []"
    "whole (parts [[], ''r''])" "remote_data ?info (map msg_data (parts [[], ''r''])) = Some ?d"
    by (simp_all add: st1_def demo_effect_defs demo_legal wire_frames_def remote_data_def)
  have st1: "workers_inv st1" "is_connection_info_legal ?info st1" "conn_socket ?info st1 = 3"
    using broker_inv_parts(1) [OF inv]
    by (simp_all add: st1_def demo_effect_defs demo_legal demo_worker_of workers_inv_def commander_ok_def
        is_connection_info_legal_def is_router_index_legal_def conn_socket_def)
  then obtain st2 where 2: "handle_remote (be_hash demo_env) ?info st1 = Inr st2"
    using handle_remote_whole [OF st1(1) wf(1) st1(2) _ s1(2,3), of "be_hash demo_env"] s1(1) demo_legal(4) by simp
  from response_follows_start [OF inv wf(1,2) _ fe 1 s1 2] wf(3)
  have "queue_of (bt_commander st2) (worker_of (be_hash demo_env) ?info ?st) =
    queue_of (bt_commander ?st) (worker_of (be_hash demo_env) ?info ?st) @ [Start_Rpc_Cmd 7, Handle_Data_Cmd ?d]"
    by blast
  moreover have "queue_of (bt_commander ?st) 1 = []" by (simp add: queue_of_def)
  ultimately show ?thesis
    using 1 2 unfolding demo_fields(1) demo_worker_of
    by (intro exI [of _ st1] exI [of _ st2]) simp
qed

section \<open>Timeouts\<close>

fun timer_event :: "broker_closure \<Rightarrow> uint64" where
  "timer_event cl = (case bound_call cl of Handle_Timeout e w \<Rightarrow> e | _ \<Rightarrow> 0)"

fun timer_worker :: "int32 \<Rightarrow> broker_closure \<Rightarrow> unsigned_int" where
  "timer_worker n cl = (case bound_call cl of
     Handle_Timeout e w \<Rightarrow> ucast (w mod (scast n :: size_t)) | _ \<Rightarrow> 0)"

text \<open>The timers that are due, earliest first, each with its worker and command.\<close>

definition due_timeouts ::
  "uint64 \<Rightarrow> broker_thread \<Rightarrow> (unsigned_int \<times> worker_cmd) list" where
  "due_timeouts now st = map (\<lambda>cl. (timer_worker (bt_workers st) cl, Handle_Timeout_Cmd (timer_event cl)))
     (concat (map snd [e \<leftarrow> r_closure_run_map st. fst e \<le> now]))"

lemma run_timer:
  assumes "is_timer cl" and "workers_inv st"
  shows "\<exists>ds. broker_closure_run env cl st = Inr (st\<lparr>deleted_closures := ds,
    bt_commander := push (timer_worker (bt_workers st) cl) (Handle_Timeout_Cmd (timer_event cl))
      (bt_commander st)\<rparr>)" "timer_worker (bt_workers st) cl < wc_workers (bt_commander st)"
proof -
  obtain e w where b: "bound_call cl = Handle_Timeout e w"
    using assms(1) by (auto simp: is_timer_def split: broker_callback.splits)
  have n: "bt_workers st \<noteq> 0" "0 < sint (bt_workers st)" using workers_inv_pos [OF assms(2)] by simp_all
  have less: "(ucast (w mod (scast (bt_workers st) :: size_t)) :: unsigned_int) < wc_workers (bt_commander st)"
    using mod_workers_less(1) [OF n(2)] assms(2) by (simp add: workers_inv_def)
  then show "timer_worker (bt_workers st) cl < wc_workers (bt_commander st)" by (simp add: b)
  have "is_worker_index_legal (bt_commander st) (ucast (w mod (scast (bt_workers st) :: size_t)))"
    using commander_ok_legal [OF _ less] assms(2) by (simp add: workers_inv_def)
  then have "invoke env (bound_call cl) st = Inr (st\<lparr>bt_commander :=
      push (timer_worker (bt_workers st) cl) (Handle_Timeout_Cmd (timer_event cl)) (bt_commander st)\<rparr>)"
    using n(1) by (simp add: b handle_timeout_def on_commander_def commander_defs)
  then show "\<exists>ds. broker_closure_run env cl st = Inr (st\<lparr>deleted_closures := ds,
    bt_commander := push (timer_worker (bt_workers st) cl) (Handle_Timeout_Cmd (timer_event cl))
      (bt_commander st)\<rparr>)"
    by (intro exI [of _ "if self_deleting cl then deleted_closures st @ [cl] else deleted_closures st"])
      (simp add: broker_closure_run_def closure_run_def delete_closure_def
        del: timer_worker.simps timer_event.simps)
qed

lemma run_timers:
  assumes "\<forall>c \<in> set cs. is_timer c" and "workers_inv st"
  shows "\<exists>ds. foldE (broker_closure_run env) cs st = Inr (st\<lparr>deleted_closures := ds,
      bt_commander := commander.post_all (map (\<lambda>cl. (timer_worker (bt_workers st) cl,
        Handle_Timeout_Cmd (timer_event cl))) cs) (bt_commander st)\<rparr>)
    \<and> (\<forall>c \<in> set cs. timer_worker (bt_workers st) c < wc_workers (bt_commander st))"
  using assms
proof (induction cs arbitrary: st)
  case Nil
  then show ?case by (auto intro: exI [of _ "deleted_closures st"])
next
  case (Cons c cs)
  obtain ds where 1: "broker_closure_run env c st = Inr (st\<lparr>deleted_closures := ds, bt_commander :=
      push (timer_worker (bt_workers st) c) (Handle_Timeout_Cmd (timer_event c)) (bt_commander st)\<rparr>)"
    and less: "timer_worker (bt_workers st) c < wc_workers (bt_commander st)"
    using run_timer(1) [of c st env] run_timer(2) [of c st] Cons.prems by auto
  let ?st1 = "st\<lparr>deleted_closures := ds, bt_commander :=
      push (timer_worker (bt_workers st) c) (Handle_Timeout_Cmd (timer_event c)) (bt_commander st)\<rparr>"
  have "workers_inv ?st1"
    using Cons.prems(2) less by (simp add: workers_inv_def commander_ok_push del: timer_worker.simps)
  then show ?case
    using Cons.IH [of ?st1] Cons.prems(1) less 1
    by (auto simp del: timer_worker.simps timer_event.simps)
qed

lemma timers_pass:
  assumes "broker_inv st"
  shows "\<exists>ds. process_closure_run_map (broker_closure_run env) now st =
      Inr (case [e \<leftarrow> r_closure_run_map st. now < fst e] of [] \<Rightarrow> - 1 | e # _ \<Rightarrow> fst e - now,
        st\<lparr>deleted_closures := ds,
           bt_commander := commander.post_all (due_timeouts now st) (bt_commander st),
           r_closure_run_map := [e \<leftarrow> r_closure_run_map st. now < fst e]\<rparr>)"
    and "\<forall>(i, c) \<in> set (due_timeouts now st). i < wc_workers (bt_commander st)"
proof -
  let ?run = "broker_closure_run env"
  let ?m = "r_closure_run_map st"
  let ?cs = "concat (map snd [e \<leftarrow> ?m. fst e \<le> now])"
  have m: "map_ok ?m" "\<forall>cs \<in> snd ` set ?m. \<forall>c \<in> set cs. is_timer c"
    using assms by (simp_all add: broker_inv_def timers_inv_def)
  have w: "workers_inv st" using broker_inv_parts(1) [OF assms] .
  have "\<forall>c \<in> set ?cs. is_timer c" using m(2) by fastforce
  from run_timers [OF this w, of env] obtain ds where
    run: "foldE ?run ?cs st = Inr (st\<lparr>deleted_closures := ds,
      bt_commander := commander.post_all (due_timeouts now st) (bt_commander st)\<rparr>)"
    and less: "\<forall>c \<in> set ?cs. timer_worker (bt_workers st) c < wc_workers (bt_commander st)"
    unfolding due_timeouts_def by blast
  show legal: "\<forall>(i, c) \<in> set (due_timeouts now st). i < wc_workers (bt_commander st)"
    using less by (auto simp: due_timeouts_def simp del: timer_worker.simps)
  obtain r where r: "process_closure_run_map ?run now st = Inr r"
    using run unfolding process_closure_run_map_def Let_def map_upto_eq_filter [OF m(1)] by simp
  obtain t st' where tr: "r = (t, st')" by (cases r)
  note res = broker_loop.process_closure_run_map_timers [OF m r [unfolded tr]]
  then obtain st1 where "foldE ?run ?cs st = Inr st1"
    "st' = st1\<lparr>r_closure_run_map := [e \<leftarrow> ?m. now < fst e]\<rparr>" by blast
  with run have "st' = st\<lparr>deleted_closures := ds,
      bt_commander := commander.post_all (due_timeouts now st) (bt_commander st),
      r_closure_run_map := [e \<leftarrow> ?m. now < fst e]\<rparr>" by auto
  then show "\<exists>ds. process_closure_run_map ?run now st =
      Inr (case [e \<leftarrow> ?m. now < fst e] of [] \<Rightarrow> - 1 | e # _ \<Rightarrow> fst e - now,
        st\<lparr>deleted_closures := ds,
           bt_commander := commander.post_all (due_timeouts now st) (bt_commander st),
           r_closure_run_map := [e \<leftarrow> ?m. now < fst e]\<rparr>)"
    using r tr res(3) by auto
qed

text \<open>
  C20: A pass over the timer map cannot fail. It queues exactly the timeouts that are due, each to
  its worker, in the order of their times; keeps exactly the later timers; and the time it gives
  the poll is the distance to the first of these, or -1 when there is none.
\<close>

theorem due_timeouts_delivered:
  assumes "broker_inv st"
  shows "\<exists>st'. process_closure_run_map (broker_closure_run env) now st =
      Inr (case [e \<leftarrow> r_closure_run_map st. now < fst e] of [] \<Rightarrow> - 1 | e # _ \<Rightarrow> fst e - now, st')
    \<and> r_closure_run_map st' = [e \<leftarrow> r_closure_run_map st. now < fst e]
    \<and> (\<forall>w. queue_of (bt_commander st') w = queue_of (bt_commander st) w
        @ map snd [d \<leftarrow> due_timeouts now st. fst d = w])"
proof -
  have q: "queue_of (commander.post_all (due_timeouts now st) (bt_commander st)) v =
      queue_of (bt_commander st) v @ map snd [d \<leftarrow> due_timeouts now st. fst d = v]" for v
    using broker_inv_parts(1) [OF assms]
    by (intro commander.pending_post_all [OF _ timers_pass(2) [OF assms]]) (simp add: workers_inv_def)
  then show ?thesis using timers_pass(1) [OF assms, of env now] by auto
qed

theorem due_timeouts_delivered_witness:
  "\<exists>st'. process_closure_run_map (broker_closure_run demo_env) 1000
      ((demo_broker [] [] [])\<lparr>r_closure_run_map :=
        [(500, [new_callback (Handle_Timeout 5 1)]), (2000, [new_callback (Handle_Timeout 6 0)])]\<rparr>)
      = Inr (1000, st')
    \<and> map fst (r_closure_run_map st') = [2000]
    \<and> queue_of (bt_commander st') 1 = [Handle_Timeout_Cmd 5]
    \<and> queue_of (bt_commander st') 0 = []"
proof -
  let ?m = "[(500, [new_callback (Handle_Timeout 5 1)]), (2000, [new_callback (Handle_Timeout 6 0)])]
    :: (uint64, broker_closure list) std_map"
  let ?st = "(demo_broker [] [] [])\<lparr>r_closure_run_map := ?m\<rparr>"
  have "broker_inv ?st"
    by (rule broker_inv_timers [OF demo_broker_inv]) (simp add: timers_inv_def map_ok_def)
  from due_timeouts_delivered [OF this, of demo_env 1000] obtain st' where
    1: "process_closure_run_map (broker_closure_run demo_env) 1000 ?st = Inr (1000, st')"
    and 2: "r_closure_run_map st' = [e \<leftarrow> ?m. 1000 < fst e]"
    and 3: "\<And>w. queue_of (bt_commander st') w = queue_of (bt_commander ?st) w
        @ map snd [d \<leftarrow> due_timeouts 1000 ?st. fst d = w]"
    by auto
  have due: "due_timeouts 1000 ?st = [(1, Handle_Timeout_Cmd 5)]"
    by (simp add: due_timeouts_def)
  show ?thesis
    using 1 2 3 [of 0] 3 [of 1] unfolding due
    by (intro exI [of _ st']) (simp add: queue_of_def)
qed

text \<open>
  The timeout of a request goes to the worker that was given the request: the index bound in
  the timer closure selects the connection's worker again.
\<close>

theorem timeout_reaches_request_worker:
  assumes "workers_inv st"
  shows "handle_timeout ev (hash_value bh info mod scast (bt_workers st)) st =
    Inr (deliver (worker_of bh info st) (Handle_Timeout_Cmd ev) st)"
  using worker_of_legal [OF assms, of bh info] workers_inv_pos(2) [OF assms]
  by (simp add: handle_timeout_def on_commander_def commander_defs deliver_def worker_of_def
      word_mod_mod)

theorem timeout_reaches_request_worker_witness:
  "\<exists>st'. handle_timeout 5 (hash_value (be_hash demo_env) (connection_info_dealer 1) mod 2)
      (demo_broker [] [] []) = Inr st' \<and> queue_of (bt_commander st') 1 = [Handle_Timeout_Cmd 5]"
proof -
  let ?st = "demo_broker [] [] []"
  have "handle_timeout 5 (hash_value (be_hash demo_env) (connection_info_dealer 1)
      mod scast (bt_workers ?st)) ?st =
    Inr (deliver (worker_of (be_hash demo_env) (connection_info_dealer 1) ?st) (Handle_Timeout_Cmd 5) ?st)"
    by (rule timeout_reaches_request_worker [OF broker_inv_parts(1) [OF demo_broker_inv]])
  then show ?thesis by (simp add: demo_effect_defs demo_worker_of)
qed

text \<open>
  C14: The invariant of the broker in every reachable state: the frontend socket and every
  registered socket exist and are registered once; every legal dealer index is registered with
  the closure of exactly that index; and every worker has its queue.
\<close>

theorem reachable_broker_inv:
  assumes "broker_reachable st"
  shows "(\<exists>s. zsocks st (frontend_socket st) = Some s)
    \<and> distinct (map fst (r_sockets st)) \<and> (\<forall>e \<in> set (r_sockets st). zsocks st (fst e) \<noteq> None)
    \<and> (\<forall>i. is_dealer_index_legal i st \<longrightarrow> (dealer_sockets st ! unat i,
         new_permanent_callback (Handle_Dealer_Socket i)) \<in> set (tl (r_sockets st)))
    \<and> commander_ok (bt_commander st) \<and> bt_workers st = wc_workers (bt_commander st)"
proof -
  have inv: "broker_inv st" using reachable_inv [OF assms] .
  then have "\<forall>i. is_dealer_index_legal i st \<longrightarrow> (dealer_sockets st ! unat i,
         new_permanent_callback (Handle_Dealer_Socket i)) \<in> set (tl (r_sockets st))"
    by (simp add: broker_inv_def broker_sockets_inv_def sockets_inv_def is_dealer_index_legal_def)
  moreover have "sockets_ok st" using broker_inv_sockets_ok(1) [OF inv] .
  moreover have "workers_inv st" using broker_inv_parts(1) [OF inv] .
  ultimately show ?thesis
    using broker_inv_frontend [OF inv] by (simp add: sockets_ok_def workers_inv_def)
qed

text \<open>The state right after the constructor, with one worker.\<close>

definition demo_commander :: workers_commander where
  "demo_commander = \<lparr>wc_workers = 1, worker_cmd_queues = [Some []]\<rparr>"

definition demo_start :: broker_thread where
  "demo_start = \<lparr>zsocks = [1 \<mapsto> demo_socket ZMQ_ROUTER []], deleted_closures = [],
     should_quit = False, is_dirty = True,
     r_sockets = [(1, new_permanent_callback (Handle_Frontend_Socket 1))],
     r_del_sockets = [], r_pollitems = [], r_closure_run_map = [],
     bt_workers = 1, dealer_sockets = [NULL], router_sockets = [NULL], bind_map = [],
     frontend_socket = 1, bt_commander = demo_commander, ctrl_heap = Map.empty\<rparr>"

lemma demo_start_reachable: "broker_reachable demo_start"
proof (rule broker_reachable.start)
  show "new_broker_thread False 1 (demo_socket ZMQ_ROUTER []) demo_commander Map.empty new_sync_event
      = Inr (demo_start, sync_event_signal new_sync_event)"
    by (simp add: new_broker_thread_def Let_def reactor.defs broker_thread.defs new_reactor_def
        get_workers_def demo_commander_def demo_start_def reactor_add_socket_def)
  show "commander_ok demo_commander" by (simp add: commander_ok_def demo_commander_def)
qed simp

theorem reachable_broker_inv_witness:
  "zsocks demo_start (frontend_socket demo_start) \<noteq> None \<and> commander_ok (bt_commander demo_start)"
  using reachable_broker_inv [OF demo_start_reachable] by auto

text \<open>
  The worker of a connection is a legal worker index and is the same one after every round
  of the loop.
\<close>

theorem worker_of_stable:
  assumes "broker_reachable st" and "env_ok env st"
    and "loop_iteration (broker_closure_run env) pr st = Inr (rc, t, st')"
  shows "is_worker_index_legal (bt_commander st) (worker_of bh info st)
    \<and> worker_of bh info st' = worker_of bh info st"
proof -
  let ?run = "broker_closure_run env"
  have inv: "broker_inv st" using reachable_inv [OF assms(1)] .
  have keep: "bt_workers v = bt_workers u" if "foldE ?run cs u = Inr v" for cs u v
    using foldE_invariant [where I = "\<lambda>x. bt_workers x = bt_workers u", OF that]
      broker_closure_run_grows by (simp add: grows_def)
  obtain st1 where 1: "(if is_dirty st then bindE (rebuild_poll_items ?run st)
      (\<lambda>st. Inr (st\<lparr>is_dirty := False\<rparr>)) else Inr st) = Inr st1"
    and rest: "bindE (process_closure_run_map ?run (pr_now pr) st1) (\<lambda>(poll_timeout_ms, st).
     let st = zmq_poll pr st in
     if pr_rc pr = - 1 \<and> pr_errno pr = EFAULT then Inl Check_Failed
     else if pr_rc pr = - 1 \<and> pr_errno pr = ETERM then Inr (Some (- 1), poll_timeout_ms, st)
     else bindE (run_ready ?run st) (\<lambda>st. Inr (None, poll_timeout_ms, st))) = Inr (rc, t, st')"
    using assms(3) unfolding loop_iteration_def bindE_eq_Inr by blast
  have a: "bt_workers st1 = bt_workers st"
    using 1 more_fields(5) [OF inv_rebuild(4) [OF inv]]
    by (auto simp: result_simps split: if_splits)
  obtain t2 st2 where 2: "process_closure_run_map ?run (pr_now pr) st1 = Inr (t2, st2)"
    using rest unfolding bindE_eq_Inr by auto
  then obtain cs u where u: "foldE ?run cs st1 = Inr u" "bt_workers st2 = bt_workers u"
    by (cases "map_from_upper_bound (pr_now pr) (r_closure_run_map st1)")
      (auto simp: process_closure_run_map_def result_simps Let_def)
  have b: "bt_workers st2 = bt_workers st1" using keep [OF u(1)] u(2) by simp
  define st3 where "st3 = zmq_poll pr st2"
  have c: "bt_workers st3 = bt_workers st2" by (simp add: st3_def zmq_poll_def)
  have "bt_workers st' = bt_workers st3"
  proof (cases "pr_rc pr = - 1 \<and> pr_errno pr = ETERM")
    case True
    then show ?thesis using rest 2 by (simp add: st3_def Let_def)
  next
    case False
    then have "run_ready ?run st3 = Inr st'"
      using rest 2 by (auto simp: st3_def Let_def result_simps split: if_splits)
    then show ?thesis
      unfolding run_ready_def
      using foldE_invariant [where I = "\<lambda>x. bt_workers x = bt_workers st3"]
        broker_closure_run_grows by (fastforce simp: grows_def split: if_splits)
  qed
  with a b c have "bt_workers st' = bt_workers st" by simp
  then show ?thesis
    using worker_of_legal [OF broker_inv_parts(1) [OF inv]] by (simp add: worker_of_def)
qed

theorem worker_of_stable_witness:
  "\<exists>t st'. loop_iteration (broker_closure_run demo_env) \<lparr>pr_now = 5, pr_rc = 0, pr_errno = Other_Errno,
       pr_revents = (\<lambda>_. 0), pr_arrivals = (\<lambda>_. [])\<rparr> demo_start = Inr (None, t, st')
     \<and> is_worker_index_legal (bt_commander demo_start)
         (worker_of (be_hash demo_env) (connection_info_dealer 1) demo_start)
     \<and> worker_of (be_hash demo_env) (connection_info_dealer 1) st' =
       worker_of (be_hash demo_env) (connection_info_dealer 1) demo_start"
proof -
  let ?pr = "\<lparr>pr_now = 5, pr_rc = 0, pr_errno = Other_Errno, pr_revents = (\<lambda>_. 0),
    pr_arrivals = (\<lambda>_. [])\<rparr>"
  have "\<exists>t st'. loop_iteration (broker_closure_run demo_env) ?pr demo_start = Inr (None, t, st')"
    by (simp add: loop_iteration_def demo_start_def rebuild_poll_items_def process_del_sockets_def
        deref_socket_def process_closure_run_map_def map_upto_def map_from_upper_bound_def
        zmq_poll_def run_ready_def)
  then obtain t st' where it: "loop_iteration (broker_closure_run demo_env) ?pr demo_start =
      Inr (None, t, st')" by blast
  have "env_ok demo_env demo_start" by (simp add: env_ok_def demo_env_def demo_start_def)
  from worker_of_stable [OF demo_start_reachable this it] it show ?thesis by blast
qed

section \<open>The rest of the dispatch\<close>

text \<open>
  A closure command gives the closure to exactly one worker, the one \<open>rand()\<close> selects, whose
  index is legal.
\<close>

theorem run_closure_transition:
  assumes "workers_inv st" and "0 \<le> sint (be_rand env)"
    and "zsocks st (frontend_socket st) = Some s" and "cl \<noteq> NULL"
    and "sock_in s = command_frames sender kRunClosure (frame_enc (uint64_bytes cl) False) @ rest"
  shows "\<exists>w. w < wc_workers (bt_commander st) \<and> unat w = unat (be_rand env) mod unat (bt_workers st)
    \<and> handle_frontend_socket env (frontend_socket st) st =
      Inr (consumed (frontend_socket st) rest (deliver w (Run_Closure_Cmd cl) st))"
proof -
  let ?r = "be_rand env"
  let ?n = "bt_workers st"
  let ?i = "word_of_int (sint ?r smod sint ?n) :: size_t"
  let ?w = "ucast ?i :: unsigned_int"
  have n: "0 < sint ?n" "0 < unat ?n" "unat ?n < 2 ^ 31"
    using workers_inv_pos(1) [OF assms(1)] sint_pos_bounds by blast+
  have r: "sint ?r = int (unat ?r)"
  proof (cases "0 < sint ?r")
    case True
    then show ?thesis using sint_pos_unat [OF True] by (metis int_nat_eq less_imp_le)
  next
    case False
    with assms(2) have "?r = 0" by (metis of_int_sint order_antisym_conv not_less of_int_0 scast_id)
    then show ?thesis by simp
  qed
  have sn: "sint ?n = int (unat ?n)"
    using n(1) sint_pos_unat [OF n(1)] by (metis int_nat_eq less_imp_le)
  have "sint ?r smod sint ?n = sint ?r mod sint ?n"
    using n(1) assms(2) by (intro smod_mod_positive) simp_all
  then have "sint ?r smod sint ?n = int (unat ?r mod unat ?n)"
    unfolding r sn zmod_int .
  then have "?i = word_of_nat (unat ?r mod unat ?n)"
    by (simp only: of_int_of_nat_eq)
  moreover have lt: "unat ?r mod unat ?n < unat ?n" using n(2) by simp
  ultimately have w: "unat ?w = unat ?r mod unat ?n"
    using n(3) by (simp add: unsigned_ucast_eq take_bit_eq_mod unat_of_nat)
  then have less: "?w < wc_workers (bt_commander st)"
    using assms(1) lt by (simp add: word_less_nat_alt workers_inv_def)
  have "is_worker_index_legal (bt_commander st) ?w"
    using commander_ok_legal [OF _ less] assms(1) by (simp add: workers_inv_def)
  then have "add_closure env cl st = Inr (deliver ?w (Run_Closure_Cmd cl) st)"
    using n(1) assms(4) by (simp add: add_closure_def on_commander_def commander_defs deliver_def)
  then have "handle_frontend_socket env (frontend_socket st) st =
      Inr (consumed (frontend_socket st) rest (deliver ?w (Run_Closure_Cmd cl) st))"
    using handle_frontend_socket_consumed [OF assms(3,5), of env] assms(3)
    by (simp add: dispatch_command_def frame_enc_def read_pointer_def has_more_def deliver_def)
  with w less show ?thesis by blast
qed

theorem run_closure_transition_witness:
  "\<exists>st'. handle_frontend_socket demo_env 1
      (demo_broker (command_frames ''u'' kRunClosure (frame_enc (uint64_bytes 8) False)) [] []) = Inr st'
    \<and> queue_of (bt_commander st') 1 = [Run_Closure_Cmd 8]"
proof -
  let ?fe = "command_frames ''u'' kRunClosure (frame_enc (uint64_bytes 8) False)"
  let ?st = "demo_broker ?fe [] []"
  obtain w where w: "unat w = unat (be_rand demo_env) mod unat (bt_workers ?st)"
    and r: "handle_frontend_socket demo_env (frontend_socket ?st) ?st =
      Inr (consumed (frontend_socket ?st) [] (deliver w (Run_Closure_Cmd 8) ?st))"
    using run_closure_transition [OF broker_inv_parts(1) [OF demo_broker_inv], of demo_env
        ?fe "[]" "[]" "demo_socket ZMQ_ROUTER ?fe" 8 "''u''" "[]"]
    by (auto simp: demo_env_def)
  have "unat w = unat (1 :: unsigned_int)" using w by (simp add: demo_env_def)
  then have "w = 1" by (simp only: word_unat_eq_iff)
  with r show ?thesis by (simp add: demo_effect_defs)
qed

text \<open>A command byte that is none of the protocol's stops the broker with an assertion.\<close>

theorem unknown_command_asserts:
  assumes "c \<notin> {kQuit, kConnect, kBind, kUnbind, kRequest, kReply, kRunClosure, kRegisterSvc}"
    and "zsocks st fe = Some s" and "sock_in s = command_frames sender c body @ rest"
  shows "handle_frontend_socket env fe st = Inl Boost_Assert"
  using assms
  by (simp add: handle_frontend_socket_def with_iterator_def deref_socket_Some
      message_iterator_new_def command_frames_def read_char_def frame_enc_def read_string_def
      dispatch_command_def)

theorem unknown_command_asserts_witness:
  "handle_frontend_socket demo_env 1 (demo_broker (command_frames ''u'' CHR 0x08 []) [] [])
     = Inl Boost_Assert"
  by (rule unknown_command_asserts [where c = "CHR 0x08" and body = "[]" and rest = "[]"])
    (simp_all add: c2b_defs, simp?)

text \<open>
  A service registered by a client for its own connection reaches the worker of that
  connection, with the connection and the name it was registered under.
\<close>

theorem register_service_transition:
  assumes "workers_inv st" and "info_wf info" and "is_connection_info_legal info st"
    and "svc \<noteq> NULL" and "zsocks st (frontend_socket st) = Some s"
    and "sock_in s = command_frames sender kRegisterSvc
      (connection_info_enc info True @ frame_enc name True @ frame_enc (uint64_bytes svc) False) @ rest"
  shows "handle_frontend_socket env (frontend_socket st) st =
    Inr (consumed (frontend_socket st) rest
      (deliver (worker_of (be_hash env) info st) (Register_Svc_Cmd info name svc) st))"
proof -
  let ?body = "connection_info_enc info True @ frame_enc name True @ frame_enc (uint64_bytes svc) False"
  let ?it = "\<lparr>it_socket = ?body @ rest, it_message = [kRegisterSvc], it_has_more = ?body \<noteq> []\<rparr>"
  have ne: "?body \<noteq> []" by (simp add: frame_enc_def)
  obtain it' where "register_service (be_hash env) ?it st =
      Inr (it', deliver (worker_of (be_hash env) info st) (Register_Svc_Cmd info name svc) st)"
    "it_socket it' = rest" "\<not> has_more it'"
    using register_service_eq [OF assms(1-4), of ?it name rest "be_hash env"] ne by auto
  then show ?thesis
    using handle_frontend_socket_consumed [OF assms(5,6), of env it'] assms(5)
    by (simp add: dispatch_command_def deliver_def)
qed

theorem register_service_transition_witness:
  "\<exists>st'. handle_frontend_socket demo_env 1 (demo_broker (command_frames ''u'' kRegisterSvc
      (connection_info_enc (connection_info_dealer 1) True @ frame_enc ''n'' True
        @ frame_enc (uint64_bytes 8) False)) [] []) = Inr st'
    \<and> queue_of (bt_commander st') 1 = [Register_Svc_Cmd (connection_info_dealer 1) ''n'' 8]"
proof -
  let ?info = "connection_info_dealer 1"
  let ?fe = "command_frames ''u'' kRegisterSvc
      (connection_info_enc ?info True @ frame_enc ''n'' True @ frame_enc (uint64_bytes 8) False)"
  let ?st = "demo_broker ?fe [] []"
  have "handle_frontend_socket demo_env (frontend_socket ?st) ?st =
    Inr (consumed (frontend_socket ?st) []
      (deliver (worker_of (be_hash demo_env) ?info ?st) (Register_Svc_Cmd ?info ''n'' 8) ?st))"
    by (rule register_service_transition [OF broker_inv_parts(1) [OF demo_broker_inv], where
          sender = "''u''" and s = "demo_socket ZMQ_ROUTER ?fe"]) (simp_all add: demo_legal)
  then show ?thesis
    unfolding demo_fields(1)
    by (intro exI conjI, assumption) (simp_all add: demo_effect_defs demo_worker_of)
qed

end
