(* ===== verification/Manager.thy ===== *)
theory Manager
  imports Std_Map Worker_Cmd Rpc_Controller
begin

text \<open>
  What the threads of a process share, and the operations user threads call: the service factory
  maps (\<open>service_factory_map\<close>, \<open>router_service_factories\<close>, \<open>singleton_service_factory\<close>), \<open>manager\<close>,
  \<open>server_impl\<close> and \<open>server\<close>, and \<open>application_options\<close>. A command to the broker is the frames it
  writes on the calling thread's frontend socket. Where an operation waits for the broker's
  answer, the frames that arrive meanwhile are an argument; without them it blocks.
\<close>

section \<open>State\<close>

text \<open>
  A service object the library owns: the adapter \<open>mono_state_service\<close> around a referenced user
  service, or an object of a user's service class. A factory makes the one or the other.
\<close>

datatype iservice = Mono_State_Service (service_ref: ptr) | User_Service (service_class: nat)

datatype service_factory = Singleton_Service_Factory ptr | Default_Service_Factory nat

type_synonym thread = nat

type_synonym service_factory_map = "(string, service_factory) std_map"

text \<open>
  The calls of code that is not the library's, in the order they are made: a method of a service
  class with its request and where to reply (a connection and an event), a response handler, a
  closure.
\<close>

datatype user_call =
    Call_Method nat nat bytes connection_info uint64
  | Response_Handler_Call handler_call
  | Closure_Run ptr

text \<open>
  \<open>mgr_alive\<close>: the weak pointer to the manager can be locked. The heaps are the objects shared by
  address: factory maps, the services the library owns, the services its users keep, and the
  controllers; \<open>next_addr\<close> is the address the next \<open>new\<close> returns.
\<close>

record process =
  mgr_alive :: bool
  frontend_endpoint :: string
  tss_fe_socket :: "thread \<Rightarrow> socket option"
  next_event_id :: uint64
  mgr_factories :: "(uint64, ptr) std_map"
  terminated :: sync_event
  fm_heap :: "ptr \<Rightarrow> service_factory_map option"
  svc_heap :: "ptr \<Rightarrow> iservice option"
  user_heap :: "ptr \<Rightarrow> nat option"
  rc_heap :: "ptr \<Rightarrow> rpc_controller option"
  next_addr :: ptr
  user_calls :: "user_call list"

definition manager_get :: "process \<Rightarrow> process result" where
  "manager_get p = (if mgr_alive p then Inr p else Inl Get_Blocked)"

definition manager_is_destroyed :: "process \<Rightarrow> bool" where
  "manager_is_destroyed p = (\<not> mgr_alive p)"

section \<open>Factories\<close>

definition factory_create :: "service_factory \<Rightarrow> process \<Rightarrow> ptr \<times> process" where
  "factory_create f p =
     (next_addr p, p\<lparr>next_addr := next_addr p + 1, svc_heap := (svc_heap p)(next_addr p \<mapsto>
        (case f of Singleton_Service_Factory svc \<Rightarrow> Mono_State_Service svc
         | Default_Service_Factory k \<Rightarrow> User_Service k))\<rparr>)"

definition deref_fm :: "ptr \<Rightarrow> process \<Rightarrow> service_factory_map result" where
  "deref_fm a p = (case fm_heap p a of None \<Rightarrow> Inl Use_After_Free | Some m \<Rightarrow> Inr m)"

definition service_factory_map_insert ::
  "ptr \<Rightarrow> string \<Rightarrow> service_factory option \<Rightarrow> process \<Rightarrow> process result" where
  "service_factory_map_insert a name factory p =
     (case factory of None \<Rightarrow> Inl Boost_Assert
      | Some f \<Rightarrow> bindE (deref_fm a p) (\<lambda>m.
          Inr (p\<lparr>fm_heap := (fm_heap p)(a \<mapsto> map_insert name f m)\<rparr>)))"

definition service_factory_map_erase :: "ptr \<Rightarrow> string \<Rightarrow> process \<Rightarrow> process result" where
  "service_factory_map_erase a name p = bindE (deref_fm a p) (\<lambda>m.
     Inr (p\<lparr>fm_heap := (fm_heap p)(a \<mapsto> map_erase name m)\<rparr>))"

definition service_factory_map_for_each ::
  "ptr \<Rightarrow> (string \<Rightarrow> service_factory \<Rightarrow> process \<times> 's \<Rightarrow> (process \<times> 's) result)
    \<Rightarrow> process \<times> 's \<Rightarrow> (process \<times> 's) result" where
  "service_factory_map_for_each a cb ps =
     bindE (deref_fm a (fst ps)) (\<lambda>m. foldE (\<lambda>(name, f). cb name f) m ps)"

definition router_service_factories_insert :: "uint64 \<Rightarrow> ptr \<Rightarrow> process \<Rightarrow> process result" where
  "router_service_factories_insert router_index factories p =
     boost_assert (factories \<noteq> NULL)
       (Inr (p\<lparr>mgr_factories := map_insert router_index factories (mgr_factories p)\<rparr>))"

text \<open>\<open>NULL\<close> for an empty shared pointer.\<close>

definition router_service_factories_get :: "uint64 \<Rightarrow> process \<Rightarrow> ptr result" where
  "router_service_factories_get router_index p =
     (case map_of (mgr_factories p) router_index of
        None \<Rightarrow> Inr NULL
      | Some a \<Rightarrow> boost_assert (a \<noteq> NULL) (Inr a))"

section \<open>The manager\<close>

definition new_frontend_socket :: "thread \<Rightarrow> process \<Rightarrow> process result" where
  "new_frontend_socket t p =
     boost_assert (tss_fe_socket p t = None)
     (let socket = socket_connect (frontend_endpoint p)
            (socket_setsockopt_linger 0 (new_socket_t ZMQ_DEALER))
      in Inr (p\<lparr>tss_fe_socket := (tss_fe_socket p)(t \<mapsto> socket)\<rparr>))"

text \<open>\<open>get_frontend_socket\<close>, as what is then done with the socket.\<close>

definition get_frontend_socket :: "thread \<Rightarrow> process \<Rightarrow> (socket \<times> process) result" where
  "get_frontend_socket t p =
     (case tss_fe_socket p t of
        Some s \<Rightarrow> Inr (s, p)
      | None \<Rightarrow> bindE (new_frontend_socket t p) (\<lambda>p.
          case tss_fe_socket p t of Some s \<Rightarrow> Inr (s, p) | None \<Rightarrow> Inl Boost_Assert))"

definition on_frontend :: "thread \<Rightarrow> (socket \<Rightarrow> socket result) \<Rightarrow> process \<Rightarrow> process result" where
  "on_frontend t f p = bindE (get_frontend_socket t p) (\<lambda>(s, p). bindE (f s) (\<lambda>s.
     Inr (p\<lparr>tss_fe_socket := (tss_fe_socket p)(t \<mapsto> s)\<rparr>)))"

text \<open>The answer of the broker arrives on the frontend socket.\<close>

definition frontend_arrives :: "thread \<Rightarrow> message list \<Rightarrow> process \<Rightarrow> process" where
  "frontend_arrives t ms p = p\<lparr>tss_fe_socket := (tss_fe_socket p)(t :=
     map_option (\<lambda>s. s\<lparr>sock_in := sock_in s @ ms\<rparr>) (tss_fe_socket p t))\<rparr>"

text \<open>\<open>socket.recv(&msg)\<close>.\<close>

definition frontend_recv :: "thread \<Rightarrow> process \<Rightarrow> (bytes \<times> process) result" where
  "frontend_recv t p = bindE (get_frontend_socket t p) (\<lambda>(s, p).
     case sock_in s of
       [] \<Rightarrow> Inl Recv_Blocked
     | m # ms \<Rightarrow> Inr (msg_data m, p\<lparr>tss_fe_socket := (tss_fe_socket p)(t \<mapsto> s\<lparr>sock_in := ms\<rparr>)\<rparr>))"

definition get_next_event_id :: "process \<Rightarrow> uint64 \<times> process" where
  "get_next_event_id p = (next_event_id p, p\<lparr>next_event_id := next_event_id p + 1\<rparr>)"

definition manager_bind ::
  "thread \<Rightarrow> string \<Rightarrow> ptr \<Rightarrow> message list \<Rightarrow> process \<Rightarrow> process result" where
  "manager_bind t endpoint factories answer p =
     boost_assert (factories \<noteq> NULL)
     (bindE (on_frontend t (\<lambda>s.
        let s = send_empty_message ZMQ_SNDMORE s; s = send_char kBind ZMQ_SNDMORE s
        in Inr (send_string endpoint 0 s)) p) (\<lambda>p.
      bindE (get_frontend_socket t (frontend_arrives t answer p)) (\<lambda>(s, p).
      let iter = message_iterator_new (sock_in s) in
      bindE (next_msg iter) (\<lambda>(msg, iter).
      google_check (length msg = 0)
      (boost_assert (has_more iter)
      (bindE (read_uint64 iter) (\<lambda>(router_index, iter).
       boost_assert (\<not> has_more iter)
       (bindE (router_service_factories_insert router_index factories p) (\<lambda>p.
        bindE (message_iterator_destroy iter) (\<lambda>rest.
        Inr (p\<lparr>tss_fe_socket := (tss_fe_socket p)(t \<mapsto> s\<lparr>sock_in := rest\<rparr>)\<rparr>)))))))))))"

definition manager_unbind :: "thread \<Rightarrow> string \<Rightarrow> message list \<Rightarrow> process \<Rightarrow> process result" where
  "manager_unbind t endpoint answer p =
     bindE (on_frontend t (\<lambda>s.
        let s = send_empty_message ZMQ_SNDMORE s; s = send_char kUnbind ZMQ_SNDMORE s
        in Inr (send_string endpoint 0 s)) p) (\<lambda>p.
     bindE (frontend_recv t (frontend_arrives t answer p)) (\<lambda>(_, p).
     bindE (frontend_recv t p) (\<lambda>(_, p). Inr p)))"

definition manager_add :: "thread \<Rightarrow> ptr \<Rightarrow> process \<Rightarrow> process result" where
  "manager_add t cl p = on_frontend t (\<lambda>s.
     let s = send_empty_message ZMQ_SNDMORE s; s = send_char kRunClosure ZMQ_SNDMORE s
     in Inr (send_pointer cl 0 s)) p"

text \<open>\<open>run()\<close> returns once \<open>terminate()\<close> has been called; \<open>None\<close> while it blocks.\<close>

definition manager_run :: "process \<Rightarrow> process option" where
  "manager_run p = map_option (\<lambda>e. p\<lparr>terminated := e\<rparr>) (sync_event_wait (terminated p))"

definition manager_terminate :: "process \<Rightarrow> process" where
  "manager_terminate p = p\<lparr>terminated := sync_event_signal (terminated p)\<rparr>"

text \<open>The part of \<open>join_threads\<close> in front of the joins: the broker is told to quit.\<close>

definition send_quit :: "thread \<Rightarrow> process \<Rightarrow> process result" where
  "send_quit t p = on_frontend t (\<lambda>s.
     let s = send_empty_message ZMQ_SNDMORE s in Inr (send_char kQuit 0 s)) p"

section \<open>Servers\<close>

record server_impl =
  endpoints :: "(string, unit) std_map"
  si_factories :: ptr

definition new_server_impl :: "process \<Rightarrow> (server_impl \<times> process) result" where
  "new_server_impl p = bindE (manager_get p) (\<lambda>p.
     Inr (\<lparr>endpoints = [], si_factories = next_addr p\<rparr>,
          p\<lparr>next_addr := next_addr p + 1, fm_heap := (fm_heap p)(next_addr p \<mapsto> [])\<rparr>))"

definition server_impl_register_service_factory ::
  "string \<Rightarrow> service_factory option \<Rightarrow> server_impl \<Rightarrow> process \<Rightarrow> process result" where
  "server_impl_register_service_factory name factory si p =
     boost_assert (factory \<noteq> None) (service_factory_map_insert (si_factories si) name factory p)"

definition server_impl_bind ::
  "thread \<Rightarrow> string \<Rightarrow> message list \<Rightarrow> server_impl \<times> process \<Rightarrow> (server_impl \<times> process) result" where
  "server_impl_bind t endpoint answer sp =
     (case sp of (si, p) \<Rightarrow>
        if map_of (endpoints si) endpoint \<noteq> None then Inr (si, p)
        else let si = si\<lparr>endpoints := map_insert endpoint () (endpoints si)\<rparr>
             in bindE (manager_bind t endpoint (si_factories si) answer p) (\<lambda>p. Inr (si, p)))"

text \<open>The destructor unbinds every endpoint, in order; \<open>answers\<close> are the broker's.\<close>

definition server_impl_destroy ::
  "thread \<Rightarrow> (string \<Rightarrow> message list) \<Rightarrow> server_impl \<Rightarrow> process \<Rightarrow> process result" where
  "server_impl_destroy t answers si p =
     foldE (\<lambda>(e, _) p. manager_unbind t e (answers e) p) (endpoints si) p"

text \<open>\<open>server\<close> has one member, its \<open>server_impl\<close>, which its destructor deletes.\<close>

definition new_server :: "process \<Rightarrow> (server_impl \<times> process) result" where
  "new_server p = new_server_impl p"

definition server_destroy ::
  "thread \<Rightarrow> (string \<Rightarrow> message list) \<Rightarrow> server_impl \<Rightarrow> process \<Rightarrow> process result" where
  "server_destroy t answers si p = server_impl_destroy t answers si p"

definition server_bind ::
  "thread \<Rightarrow> string \<Rightarrow> message list \<Rightarrow> server_impl \<times> process \<Rightarrow> (server_impl \<times> process) result" where
  "server_bind t endpoint answer sp = server_impl_bind t endpoint answer sp"

definition server_register_service_factory ::
  "string \<Rightarrow> service_factory option \<Rightarrow> server_impl \<Rightarrow> process \<Rightarrow> process result" where
  "server_register_service_factory name factory si p =
     server_impl_register_service_factory name factory si p"

definition server_register_singleton_service ::
  "string \<Rightarrow> ptr \<Rightarrow> server_impl \<Rightarrow> process \<Rightarrow> process result" where
  "server_register_singleton_service name svc si p =
     server_impl_register_service_factory name (Some (Singleton_Service_Factory svc)) si p"

text \<open>\<open>descriptor_name\<close> is the name of the descriptor that the generated class of a service returns.\<close>

definition server_register_singleton_cpp_service ::
  "(ptr \<Rightarrow> string) \<Rightarrow> ptr \<Rightarrow> server_impl \<Rightarrow> process \<Rightarrow> process result" where
  "server_register_singleton_cpp_service descriptor_name svc si p =
     server_register_singleton_service (descriptor_name svc) svc si p"

definition server_register_service ::
  "string \<Rightarrow> nat \<Rightarrow> server_impl \<Rightarrow> process \<Rightarrow> process result" where
  "server_register_service name cls si p =
     server_impl_register_service_factory name (Some (Default_Service_Factory cls)) si p"

section \<open>Options\<close>

record application_options =
  worker_threads :: int32

definition application_options_init :: application_options where
  "application_options_init = \<lparr>worker_threads = 1\<rparr>"

definition set_worker_threads :: "int32 \<Rightarrow> application_options \<Rightarrow> application_options" where
  "set_worker_threads n ao = (if sint n \<le> 0 then ao else ao\<lparr>worker_threads := n\<rparr>)"

definition get_worker_threads :: "application_options \<Rightarrow> int32 result" where
  "get_worker_threads ao = boost_assert (0 < sint (worker_threads ao)) (Inr (worker_threads ao))"

section \<open>Lemmas\<close>

text \<open>The frontend socket of a thread, made on first use.\<close>

definition fe_socket :: "thread \<Rightarrow> process \<Rightarrow> socket" where
  "fe_socket t p = (case tss_fe_socket p t of Some s \<Rightarrow> s
     | None \<Rightarrow> socket_connect (frontend_endpoint p)
         (socket_setsockopt_linger 0 (new_socket_t ZMQ_DEALER)))"

definition set_fe_socket :: "thread \<Rightarrow> socket \<Rightarrow> process \<Rightarrow> process" where
  "set_fe_socket t s p = p\<lparr>tss_fe_socket := (tss_fe_socket p)(t \<mapsto> s)\<rparr>"

lemma get_frontend_socket_eq:
  "get_frontend_socket t p = Inr (fe_socket t p, set_fe_socket t (fe_socket t p) p)"
  by (cases "tss_fe_socket p t")
    (simp_all add: get_frontend_socket_def new_frontend_socket_def fe_socket_def set_fe_socket_def
      fun_upd_idem)

lemma fe_socket_set [simp]:
  "fe_socket t (set_fe_socket u s p) = (if t = u then s else fe_socket t p)"
  by (simp add: fe_socket_def set_fe_socket_def split: option.split)

lemma set_fe_socket_twice [simp]: "set_fe_socket t s (set_fe_socket t s' p) = set_fe_socket t s p"
  by (simp add: set_fe_socket_def)

lemma set_fe_socket_fields [simp]:
  "mgr_alive (set_fe_socket t s p) = mgr_alive p"
  "next_event_id (set_fe_socket t s p) = next_event_id p"
  "mgr_factories (set_fe_socket t s p) = mgr_factories p"
  "fm_heap (set_fe_socket t s p) = fm_heap p" "svc_heap (set_fe_socket t s p) = svc_heap p"
  "rc_heap (set_fe_socket t s p) = rc_heap p" "next_addr (set_fe_socket t s p) = next_addr p"
  "terminated (set_fe_socket t s p) = terminated p" "user_heap (set_fe_socket t s p) = user_heap p"
  "user_calls (set_fe_socket t s p) = user_calls p"
  by (simp_all add: set_fe_socket_def)

lemma on_frontend_eq:
  "on_frontend t f p = bindE (f (fe_socket t p)) (\<lambda>s. Inr (set_fe_socket t s p))"
  unfolding on_frontend_def get_frontend_socket_eq
  by (simp add: set_fe_socket_def)

text \<open>What a thread writes to the broker.\<close>

definition fe_sends :: "thread \<Rightarrow> message list \<Rightarrow> process \<Rightarrow> process" where
  "fe_sends t ms p = set_fe_socket t ((fe_socket t p)\<lparr>sock_out := sock_out (fe_socket t p) @ ms\<rparr>) p"

lemma fe_sends_fields [simp]:
  "mgr_alive (fe_sends t ms p) = mgr_alive p" "next_event_id (fe_sends t ms p) = next_event_id p"
  "mgr_factories (fe_sends t ms p) = mgr_factories p" "fm_heap (fe_sends t ms p) = fm_heap p"
  "svc_heap (fe_sends t ms p) = svc_heap p" "rc_heap (fe_sends t ms p) = rc_heap p"
  "next_addr (fe_sends t ms p) = next_addr p" "user_heap (fe_sends t ms p) = user_heap p"
  "user_calls (fe_sends t ms p) = user_calls p"
  by (simp_all add: fe_sends_def)

lemma send_frames:
  "send_empty_message f s = s\<lparr>sock_out := sock_out s @ frame_enc [] (sndmore f)\<rparr>"
  "send_char c f s = s\<lparr>sock_out := sock_out s @ frame_enc [c] (sndmore f)\<rparr>"
  "send_string d f s = s\<lparr>sock_out := sock_out s @ frame_enc d (sndmore f)\<rparr>"
  "send_pointer q f s = s\<lparr>sock_out := sock_out s @ frame_enc (uint64_bytes q) (sndmore f)\<rparr>"
  "send_uint64 n f s = s\<lparr>sock_out := sock_out s @ frame_enc (uint64_bytes n) (sndmore f)\<rparr>"
  by (simp_all add: send_defs socket_send_def frame_def frame_enc_def)

lemma frontend_arrives_set:
  "frontend_arrives t ms (set_fe_socket t s p) = set_fe_socket t (s\<lparr>sock_in := sock_in s @ ms\<rparr>) p"
  by (simp add: frontend_arrives_def set_fe_socket_def)

lemma frontend_recv_eq:
  "frontend_recv t p = (case sock_in (fe_socket t p) of [] \<Rightarrow> Inl Recv_Blocked
     | m # ms \<Rightarrow> Inr (msg_data m, set_fe_socket t ((fe_socket t p)\<lparr>sock_in := ms\<rparr>) p))"
  unfolding frontend_recv_def get_frontend_socket_eq
  by (simp add: set_fe_socket_def split: list.split)

text \<open>The frames of each command, as they leave the thread.\<close>

definition bind_frames :: "string \<Rightarrow> message list" where
  "bind_frames endpoint = frame_enc [] True @ frame_enc [kBind] True @ frame_enc endpoint False"

definition unbind_frames :: "string \<Rightarrow> message list" where
  "unbind_frames endpoint = frame_enc [] True @ frame_enc [kUnbind] True @ frame_enc endpoint False"

definition add_frames :: "ptr \<Rightarrow> message list" where
  "add_frames cl = frame_enc [] True @ frame_enc [kRunClosure] True
     @ frame_enc (uint64_bytes cl) False"

text \<open>What the broker answers, without the identity the socket takes off.\<close>

definition index_answer :: "uint64 \<Rightarrow> message list" where
  "index_answer n = frame_enc [] True @ frame_enc (uint64_bytes n) False"

lemma sock_in_empty:
  "sock_in s = [] \<Longrightarrow> s\<lparr>sock_out := x, sock_in := []\<rparr> = s\<lparr>sock_out := x\<rparr>"
  by (cases s) simp

lemma set_fe_socket_factories [simp]:
  "set_fe_socket t s (p\<lparr>mgr_factories := m\<rparr>) = (set_fe_socket t s p)\<lparr>mgr_factories := m\<rparr>"
  by (simp add: set_fe_socket_def)

lemma manager_add_eq: "manager_add t cl p = Inr (fe_sends t (add_frames cl) p)"
  by (simp add: manager_add_def on_frontend_eq send_frames Let_def fe_sends_def add_frames_def)

lemma manager_bind_answered:
  assumes "factories \<noteq> NULL" and "sock_in (fe_socket t p) = []"
  shows "manager_bind t endpoint factories (index_answer n) p =
    Inr ((fe_sends t (bind_frames endpoint) p)
      \<lparr>mgr_factories := map_insert n factories (mgr_factories p)\<rparr>)"
  using assms
  by (simp add: manager_bind_def on_frontend_eq send_frames Let_def frontend_arrives_set
      get_frontend_socket_eq index_answer_def frame_enc_def message_iterator_new_def next_msg_def
      read_uint64_def has_more_def message_iterator_destroy_def router_service_factories_insert_def
      fe_sends_def bind_frames_def set_fe_socket_def [symmetric] sock_in_empty)

lemma manager_unbind_answered:
  assumes "sock_in (fe_socket t p) = []"
  shows "manager_unbind t endpoint [a, b] p = Inr (fe_sends t (unbind_frames endpoint) p)"
    and "manager_unbind t endpoint [] p = Inl Recv_Blocked"
  using assms
  by (simp_all add: manager_unbind_def on_frontend_eq send_frames Let_def frontend_arrives_set
      frontend_recv_eq fe_sends_def unbind_frames_def frame_enc_def sock_in_empty)

end
