(* ===== verification/Connection.thy ===== *)
theory Connection
  imports Manager
begin

text \<open>
  \<open>connection.hpp\<close> and \<open>connection.cc\<close>, with \<open>replier\<close> and \<open>service_stub\<close>: what a thread writes to
  the broker to send a request, a reply or an error, to register a service and to connect. A
  connection object is its \<open>connection_info\<close>; serializing and parsing are parameters.
\<close>

section \<open>State\<close>

text \<open>\<open>SerializeToArray\<close> and \<open>ParseFromArray\<close> of the wire header; \<open>None\<close> when they fail.\<close>

record header_codec =
  serialize_hdr :: "rpc_header \<Rightarrow> bytes option"
  parse_hdr :: "bytes \<Rightarrow> rpc_header option"

definition new_controller :: "rpc_controller \<Rightarrow> process \<Rightarrow> ptr \<times> process" where
  "new_controller c p = (next_addr p,
     p\<lparr>next_addr := next_addr p + 1, rc_heap := (rc_heap p)(next_addr p \<mapsto> c)\<rparr>)"

section \<open>Construction\<close>

definition connect :: "thread \<Rightarrow> string \<Rightarrow> message list \<Rightarrow> process \<Rightarrow> (uint64 \<times> process) result" where
  "connect t endpoint answer p =
     bindE (manager_get p) (\<lambda>p.
     bindE (on_frontend t (\<lambda>s.
        let s = send_empty_message ZMQ_SNDMORE s; s = send_char kConnect ZMQ_SNDMORE s
        in Inr (send_string endpoint 0 s)) p) (\<lambda>p.
     bindE (frontend_recv t (frontend_arrives t answer p)) (\<lambda>(_, p).
     bindE (frontend_recv t p) (\<lambda>(msg, p).
     bindE (interpret_uint64 msg) (\<lambda>i. Inr (i, p))))))"

definition init :: "bool \<Rightarrow> uint64 \<Rightarrow> string \<Rightarrow> connection_info" where
  "init is_router i sndr =
     connection_info_default\<lparr>ci_is_router := is_router, ci_index := i, ci_sender := sndr\<rparr>"

definition init_dealer ::
  "thread \<Rightarrow> string \<Rightarrow> message list \<Rightarrow> process \<Rightarrow> (connection_info \<times> process) result" where
  "init_dealer t endpoint answer p =
     bindE (connect t endpoint answer p) (\<lambda>(dealer_index, p). Inr (init False dealer_index [], p))"

definition init_router :: "uint64 \<Rightarrow> string \<Rightarrow> connection_info" where
  "init_router router_index sndr = init True router_index sndr"

definition connection_to_endpoint ::
  "thread \<Rightarrow> string \<Rightarrow> message list \<Rightarrow> process \<Rightarrow> (connection_info \<times> process) result" where
  "connection_to_endpoint t endpoint answer p =
     bindE (manager_get p) (\<lambda>p. init_dealer t endpoint answer p)"

definition connection_of_router ::
  "uint64 \<Rightarrow> string \<Rightarrow> process \<Rightarrow> (connection_info \<times> process) result" where
  "connection_of_router router_index sndr p =
     bindE (manager_get p) (\<lambda>p. Inr (init_router router_index sndr, p))"

definition connection_of_info ::
  "connection_info \<Rightarrow> process \<Rightarrow> (connection_info \<times> process) result" where
  "connection_of_info info p = bindE (manager_get p) (\<lambda>p. Inr (info, p))"

section \<open>Requests\<close>

definition connection_request_vector ::
  "thread \<Rightarrow> connection_info \<Rightarrow> message_vector \<Rightarrow> ptr \<Rightarrow> process \<Rightarrow> process result" where
  "connection_request_vector t info data controller p =
     boost_assert (controller \<noteq> NULL) (on_frontend t (\<lambda>s.
       let s = send_empty_message ZMQ_SNDMORE s;
           s = send_char kRequest ZMQ_SNDMORE s;
           s = write_connection_info info ZMQ_SNDMORE s;
           s = send_pointer controller ZMQ_SNDMORE s
       in write_vector_to_socket data 0 s) p)"

definition connection_request ::
  "header_codec \<Rightarrow> ('m \<Rightarrow> bytes option) \<Rightarrow> thread \<Rightarrow> connection_info \<Rightarrow> string \<Rightarrow> string \<Rightarrow> 'm
    \<Rightarrow> response_message_handler \<Rightarrow> int64 \<Rightarrow> process \<Rightarrow> process result" where
  "connection_request pb serialize t info service meth req handler timeout_ms p =
     (let (ev_id, p) = get_next_event_id p;
          rpc_hdr = rpc_header_default\<lparr>req_hdr := Some \<lparr>rq_event_id = Some ev_id,
            rq_service = Some service, rq_method = Some meth\<rparr>\<rparr>
      in case serialize_hdr pb rpc_hdr of
           None \<Rightarrow> Inl Check_Failed
         | Some msg_out \<Rightarrow>
             (case serialize req of
                None \<Rightarrow> Inl (Invalid_Message_Error ''Request serialization failed.'')
              | Some payload_out \<Rightarrow>
                  let msg_vector = mv_push_back payload_out (mv_push_back msg_out []);
                      (controller, p) = new_controller (new_rpc_controller ev_id handler timeout_ms) p
                  in connection_request_vector t info msg_vector controller p))"

section \<open>Replies\<close>

definition connection_reply_vector ::
  "thread \<Rightarrow> connection_info \<Rightarrow> message_vector \<Rightarrow> process \<Rightarrow> process result" where
  "connection_reply_vector t info data p = on_frontend t (\<lambda>s.
     let s = send_empty_message ZMQ_SNDMORE s;
         s = send_char kReply ZMQ_SNDMORE s;
         s = write_connection_info info ZMQ_SNDMORE s
     in write_vector_to_socket data 0 s) p"

definition connection_reply_header ::
  "header_codec \<Rightarrow> thread \<Rightarrow> connection_info \<Rightarrow> rpc_header \<Rightarrow> bytes \<Rightarrow> process \<Rightarrow> process result" where
  "connection_reply_header pb t info rpc_hdr payload p =
     (case serialize_hdr pb rpc_hdr of
        None \<Rightarrow> Inl Check_Failed
      | Some zmq_hdr_msg \<Rightarrow>
          let v = mv_push_back payload (mv_push_back zmq_hdr_msg [])
          in connection_reply_vector t info v p)"

definition connection_reply ::
  "header_codec \<Rightarrow> ('m \<Rightarrow> bytes option) \<Rightarrow> thread \<Rightarrow> connection_info \<Rightarrow> uint64 \<Rightarrow> 'm
    \<Rightarrow> process \<Rightarrow> process result" where
  "connection_reply pb serialize t info ev_id resp p =
     (case serialize resp of
        None \<Rightarrow> Inl (Invalid_Message_Error ''Invalid response message'')
      | Some payload \<Rightarrow>
          let rpc_hdr = rpc_header_default\<lparr>resp_hdr := Some
                \<lparr>rs_error_code = None, rs_error_str = None, rs_event_id = Some ev_id\<rparr>\<rparr>
          in boost_assert (resp_hdr rpc_hdr \<noteq> None) (boost_assert (req_hdr rpc_hdr = None)
               (connection_reply_header pb t info rpc_hdr payload p)))"

definition connection_reply_error ::
  "header_codec \<Rightarrow> thread \<Rightarrow> connection_info \<Rightarrow> uint64 \<Rightarrow> int \<Rightarrow> string \<Rightarrow> process \<Rightarrow> process result" where
  "connection_reply_error pb t info ev_id error_code error_message p =
     (let resp = \<lparr>rs_error_code = None, rs_error_str = None, rs_event_id = None\<rparr>;
          resp = resp\<lparr>rs_event_id := Some ev_id\<rparr>;
          resp = resp\<lparr>rs_error_code := Some error_code\<rparr>;
          resp = (if error_message \<noteq> [] then resp\<lparr>rs_error_str := Some error_message\<rparr> else resp)
      in connection_reply_header pb t info (rpc_header_default\<lparr>resp_hdr := Some resp\<rparr>) [] p)"

definition connection_register_service ::
  "thread \<Rightarrow> connection_info \<Rightarrow> string \<Rightarrow> ptr \<Rightarrow> process \<Rightarrow> process result" where
  "connection_register_service t info name svc p =
     boost_assert (svc \<noteq> NULL) (on_frontend t (\<lambda>s.
       let s = send_empty_message ZMQ_SNDMORE s;
           s = send_char kRegisterSvc ZMQ_SNDMORE s;
           s = write_connection_info info ZMQ_SNDMORE s;
           s = send_string name ZMQ_SNDMORE s
       in Inr (send_pointer svc 0 s)) p)"

section \<open>\<open>replier\<close> and \<open>service_stub\<close>\<close>

record replier =
  rep_conn :: connection_info
  rep_event_id :: uint64

definition replier_reply ::
  "header_codec \<Rightarrow> ('m \<Rightarrow> bytes option) \<Rightarrow> thread \<Rightarrow> replier \<Rightarrow> 'm \<Rightarrow> process \<Rightarrow> process result" where
  "replier_reply pb serialize t rep response p =
     connection_reply pb serialize t (rep_conn rep) (rep_event_id rep) response p"

definition replier_reply_error ::
  "header_codec \<Rightarrow> thread \<Rightarrow> replier \<Rightarrow> int \<Rightarrow> string \<Rightarrow> process \<Rightarrow> process result" where
  "replier_reply_error pb t rep error_code error_message p =
     connection_reply_error pb t (rep_conn rep) (rep_event_id rep) error_code error_message p"

record service_stub =
  stub_conn :: connection_info
  default_timeout_ms :: int64

definition new_service_stub :: "connection_info \<Rightarrow> service_stub" where
  "new_service_stub conn = \<lparr>stub_conn = conn, default_timeout_ms = - 1\<rparr>"

definition service_stub_to_endpoint ::
  "thread \<Rightarrow> string \<Rightarrow> message list \<Rightarrow> process \<Rightarrow> (service_stub \<times> process) result" where
  "service_stub_to_endpoint t endpoint answer p =
     bindE (connection_to_endpoint t endpoint answer p) (\<lambda>(conn, p).
       Inr (\<lparr>stub_conn = conn, default_timeout_ms = - 1\<rparr>, p))"

definition set_default_timeout_ms :: "int64 \<Rightarrow> service_stub \<Rightarrow> service_stub" where
  "set_default_timeout_ms ms stub = stub\<lparr>default_timeout_ms := ms\<rparr>"

section \<open>What the frames are\<close>

definition request_frames :: "connection_info \<Rightarrow> ptr \<Rightarrow> bytes \<Rightarrow> bytes \<Rightarrow> message list" where
  "request_frames info controller hdr payload = frame_enc [] True @ frame_enc [kRequest] True
     @ connection_info_enc info True @ frame_enc (uint64_bytes controller) True @ parts [hdr, payload]"

definition reply_frames_of :: "connection_info \<Rightarrow> bytes \<Rightarrow> bytes \<Rightarrow> message list" where
  "reply_frames_of info hdr payload = frame_enc [] True @ frame_enc [kReply] True
     @ connection_info_enc info True @ parts [hdr, payload]"

definition register_frames :: "connection_info \<Rightarrow> string \<Rightarrow> ptr \<Rightarrow> message list" where
  "register_frames info name svc = frame_enc [] True @ frame_enc [kRegisterSvc] True
     @ connection_info_enc info True @ frame_enc name True @ frame_enc (uint64_bytes svc) False"

definition connect_frames :: "string \<Rightarrow> message list" where
  "connect_frames endpoint = frame_enc [] True @ frame_enc [kConnect] True @ frame_enc endpoint False"

lemma write_two:
  "write_vector_to_socket [Some a, Some b] 0 s = Inr (s\<lparr>sock_out := sock_out s @ parts [a, b]\<rparr>)"
  using write_vector_to_socket_parts [of "[a, b]" s] by simp

lemma connection_request_vector_eq:
  "controller \<noteq> NULL \<Longrightarrow> connection_request_vector t info [Some h, Some pl] controller p =
     Inr (fe_sends t (request_frames info controller h pl) p)"
  by (simp add: connection_request_vector_def on_frontend_eq send_frames write_connection_info_enc
      write_two Let_def fe_sends_def request_frames_def del: parts.simps)

lemma connection_reply_vector_eq:
  "connection_reply_vector t info [Some h, Some pl] p = Inr (fe_sends t (reply_frames_of info h pl) p)"
  by (simp add: connection_reply_vector_def on_frontend_eq send_frames write_connection_info_enc
      write_two Let_def fe_sends_def reply_frames_of_def del: parts.simps)

lemma connection_register_service_eq:
  "svc \<noteq> NULL \<Longrightarrow> connection_register_service t info name svc p =
     Inr (fe_sends t (register_frames info name svc) p)"
  by (simp add: connection_register_service_def on_frontend_eq send_frames write_connection_info_enc
      Let_def fe_sends_def register_frames_def)

lemma connect_answered:
  assumes "mgr_alive p" and "sock_in (fe_socket t p) = []"
  shows "connect t endpoint (index_answer n) p = Inr (n, fe_sends t (connect_frames endpoint) p)"
  using assms
  by (simp add: connect_def manager_get_def on_frontend_eq send_frames Let_def frontend_arrives_set
      frontend_recv_eq index_answer_def frame_enc_def fe_sends_def connect_frames_def sock_in_empty)

end
