(* ===== verification/Services.thy ===== *)
theory Services
  imports Connection
begin

text \<open>
  The server side of a worker: \<open>request_handler\<close> and \<open>request_handler_map\<close> (one handler, with its
  own services, for every connection), and the dispatch of a request to a service
  (\<open>cpp_service\<close>, \<open>mono_state_service\<close>). What a service class knows of its methods is a
  parameter; a call of a method is an entry of \<open>user_calls\<close>.
\<close>

section \<open>Dispatch\<close>

text \<open>
  \<open>FindMethodByName\<close> of the descriptor of a class, and whether a payload parses as the request
  of a method.
\<close>

record service_env =
  se_find_method :: "nat \<Rightarrow> string \<Rightarrow> nat option"
  se_parses :: "nat \<Rightarrow> nat \<Rightarrow> bytes \<Rightarrow> bool"

definition call_method :: "nat \<Rightarrow> nat \<Rightarrow> bytes \<Rightarrow> replier \<Rightarrow> process \<Rightarrow> process" where
  "call_method cls meth request rep p =
     p\<lparr>user_calls := user_calls p @ [Call_Method cls meth request (rep_conn rep) (rep_event_id rep)]\<rparr>"

definition cpp_service_dispatch_request ::
  "header_codec \<Rightarrow> service_env \<Rightarrow> thread \<Rightarrow> nat \<Rightarrow> string \<Rightarrow> bytes \<Rightarrow> replier \<Rightarrow> process
    \<Rightarrow> process result" where
  "cpp_service_dispatch_request pb se t cls meth payload rep p =
     (case se_find_method se cls meth of
        None \<Rightarrow> replier_reply_error pb t rep NO_SUCH_METHOD [] p
      | Some descriptor \<Rightarrow>
          if \<not> se_parses se cls descriptor payload
          then replier_reply_error pb t rep INVALID_MESSAGE [] p
          else Inr (call_method cls descriptor payload rep p))"

definition mono_state_dispatch_request ::
  "header_codec \<Rightarrow> service_env \<Rightarrow> thread \<Rightarrow> ptr \<Rightarrow> string \<Rightarrow> bytes \<Rightarrow> replier \<Rightarrow> process
    \<Rightarrow> process result" where
  "mono_state_dispatch_request pb se t service meth payload rep p =
     (case user_heap p service of
        None \<Rightarrow> Inl Use_After_Free
      | Some cls \<Rightarrow> cpp_service_dispatch_request pb se t cls meth payload rep p)"

definition dispatch_request ::
  "header_codec \<Rightarrow> service_env \<Rightarrow> thread \<Rightarrow> ptr \<Rightarrow> string \<Rightarrow> bytes \<Rightarrow> replier \<Rightarrow> process
    \<Rightarrow> process result" where
  "dispatch_request pb se t svc meth payload rep p =
     (case svc_heap p svc of
        None \<Rightarrow> Inl Use_After_Free
      | Some (Mono_State_Service r) \<Rightarrow> mono_state_dispatch_request pb se t r meth payload rep p
      | Some (User_Service cls) \<Rightarrow> cpp_service_dispatch_request pb se t cls meth payload rep p)"

section \<open>\<open>request_handler\<close>\<close>

record request_handler =
  service_map :: "(string, ptr) std_map"
  rh_conn_info :: connection_info

definition delete_service :: "ptr \<Rightarrow> process \<Rightarrow> process result" where
  "delete_service svc p = (case svc_heap p svc of None \<Rightarrow> Inl Use_After_Free
     | Some _ \<Rightarrow> Inr (p\<lparr>svc_heap := (svc_heap p)(svc := None)\<rparr>))"

definition unregister_service ::
  "string \<Rightarrow> process \<times> request_handler \<Rightarrow> (process \<times> request_handler) result" where
  "unregister_service name ph =
     (case ph of (p, rh) \<Rightarrow>
        case map_of (service_map rh) name of
          None \<Rightarrow> Inr (p, rh)
        | Some svc \<Rightarrow> boost_assert (svc \<noteq> NULL) (bindE (delete_service svc p) (\<lambda>p.
            Inr (p, rh\<lparr>service_map := map_erase name (service_map rh)\<rparr>))))"

definition handler_register_service ::
  "string \<Rightarrow> ptr \<Rightarrow> process \<times> request_handler \<Rightarrow> (process \<times> request_handler) result" where
  "handler_register_service name svc ph =
     boost_assert (svc \<noteq> NULL) (bindE (unregister_service name ph) (\<lambda>(p, rh).
       Inr (p, rh\<lparr>service_map := map_insert name svc (service_map rh)\<rparr>)))"

definition create_and_register_service ::
  "string \<Rightarrow> service_factory \<Rightarrow> process \<times> request_handler
    \<Rightarrow> (process \<times> request_handler) result" where
  "create_and_register_service name factory ph =
     (case ph of (p, rh) \<Rightarrow>
        let (svc, p) = factory_create factory p
        in boost_assert (svc \<noteq> NULL) (handler_register_service name svc (p, rh)))"

definition create_services ::
  "process \<times> request_handler \<Rightarrow> (process \<times> request_handler) result" where
  "create_services ph =
     (case ph of (p, rh) \<Rightarrow>
        if \<not> ci_is_router (rh_conn_info rh) then Inr (p, rh)
        else bindE (manager_get p) (\<lambda>p.
             bindE (router_service_factories_get (ci_index (rh_conn_info rh)) p) (\<lambda>router_factories.
             if router_factories = NULL then Inr (p, rh)
             else service_factory_map_for_each router_factories create_and_register_service (p, rh))))"

definition new_request_handler ::
  "connection_info \<Rightarrow> process \<Rightarrow> (process \<times> request_handler) result" where
  "new_request_handler conn_info p =
     create_services (p, \<lparr>service_map = [], rh_conn_info = conn_info\<rparr>)"

definition request_handler_destroy :: "process \<times> request_handler \<Rightarrow> process result" where
  "request_handler_destroy ph =
     bindE (foldE (\<lambda>v ph. unregister_service (fst v) ph) (service_map (snd ph)) ph) (\<lambda>(p, rh).
     boost_assert (service_map rh = []) (Inr p))"

definition handler_handle_request ::
  "header_codec \<Rightarrow> service_env \<Rightarrow> thread \<Rightarrow> request_handler \<Rightarrow> rpc_request_header \<Rightarrow> bytes
    \<Rightarrow> process \<Rightarrow> process result" where
  "handler_handle_request pb se t rh rq data p =
     bindE (connection_of_info (rh_conn_info rh) p) (\<lambda>(conn, p).
     let rep = \<lparr>rep_conn = conn, rep_event_id = get_or 0 (rq_event_id rq)\<rparr>
     in case map_of (service_map rh) (get_or [] (rq_service rq)) of
          None \<Rightarrow>
            let error_str = ''Invalid service: '' @ get_or [] (rq_service rq)
            in replier_reply_error pb t rep NO_SUCH_SERVICE error_str p
        | Some svc \<Rightarrow> boost_assert (svc \<noteq> NULL)
            (dispatch_request pb se t svc (get_or [] (rq_method rq)) data rep p))"

section \<open>\<open>request_handler_map\<close>\<close>

type_synonym handler_map = "connection_info \<Rightarrow> request_handler option"

definition insert_new_handler ::
  "connection_info \<Rightarrow> process \<times> handler_map \<Rightarrow> (process \<times> handler_map) result" where
  "insert_new_handler info pm =
     (case pm of (p, m) \<Rightarrow> boost_assert (m info = None)
       (bindE (new_request_handler info p) (\<lambda>(p, rh). Inr (p, m(info \<mapsto> rh)))))"

text \<open>After \<open>get_handler(info)\<close> the map has a handler for \<open>info\<close>, the one that is returned.\<close>

definition get_handler ::
  "connection_info \<Rightarrow> process \<times> handler_map \<Rightarrow> (process \<times> handler_map) result" where
  "get_handler info pm = (case snd pm info of
     Some _ \<Rightarrow> Inr pm | None \<Rightarrow> insert_new_handler info pm)"

section \<open>Ownership\<close>

text \<open>
  A handler owns the services in its map: each exists, no two names share one, and the
  addresses to come are of none.
\<close>

definition fresh_addrs :: "process \<Rightarrow> bool" where
  "fresh_addrs p \<longleftrightarrow> next_addr p \<noteq> NULL
     \<and> (\<forall>a. svc_heap p a \<noteq> None \<longrightarrow> a < next_addr p \<and> a \<noteq> NULL)"

definition handler_ok :: "process \<Rightarrow> request_handler \<Rightarrow> bool" where
  "handler_ok p rh \<longleftrightarrow> map_ok (service_map rh) \<and> distinct (map snd (service_map rh))
     \<and> (\<forall>svc \<in> snd ` set (service_map rh). svc \<noteq> NULL \<and> svc_heap p svc \<noteq> None)"

lemma handler_ok_empty [simp]: "handler_ok p \<lparr>service_map = [], rh_conn_info = info\<rparr>"
  by (simp add: handler_ok_def)

lemma handler_ok_service:
  assumes "handler_ok p rh" and "map_of (service_map rh) name = Some svc"
  shows "svc \<noteq> NULL" "\<exists>s. svc_heap p svc = Some s"
proof -
  have "svc \<in> snd ` set (service_map rh)" using map_of_SomeD [OF assms(2)] by force
  then show "svc \<noteq> NULL" "\<exists>s. svc_heap p svc = Some s" using assms(1) by (auto simp: handler_ok_def)
qed

lemma map_erase_values:
  assumes "map_of m k = Some v" and "distinct (map snd m)"
  shows "snd ` set (map_erase k m) \<subseteq> snd ` set m - {v}" "distinct (map snd (map_erase k m))"
proof -
  have "(k, v) \<in> set m" using assms(1) by (rule map_of_SomeD)
  then show "snd ` set (map_erase k m) \<subseteq> snd ` set m - {v}"
    using assms(2) unfolding map_erase_def distinct_map inj_on_def by force
  show "distinct (map snd (map_erase k m))"
    using assms(2) unfolding map_erase_def by (rule distinct_map_filter)
qed

lemma unregister_service_ok:
  assumes "handler_ok p rh"
  shows "\<exists>p' rh'. unregister_service name (p, rh) = Inr (p', rh') \<and> handler_ok p' rh'
    \<and> service_map rh' = map_erase name (service_map rh) \<and> rh_conn_info rh' = rh_conn_info rh
    \<and> p' = p\<lparr>svc_heap := (case map_of (service_map rh) name of None \<Rightarrow> svc_heap p
        | Some svc \<Rightarrow> (svc_heap p)(svc := None))\<rparr>"
proof (cases "map_of (service_map rh) name")
  case None
  then have "map_erase name (service_map rh) = service_map rh"
    by (force simp: map_erase_def map_of_eq_None_iff filter_id_conv)
  with None assms show ?thesis by (simp add: unregister_service_def)
next
  case (Some svc)
  obtain s where s: "svc \<noteq> NULL" "svc_heap p svc = Some s"
    using handler_ok_service [OF assms Some] by blast
  have m: "map_ok (service_map rh)" "distinct (map snd (service_map rh))"
    using assms by (simp_all add: handler_ok_def)
  note er = map_erase_values [OF Some m(2)]
  have "handler_ok (p\<lparr>svc_heap := (svc_heap p)(svc := None)\<rparr>)
      (rh\<lparr>service_map := map_erase name (service_map rh)\<rparr>)"
    using assms er map_ok_map_erase [OF m(1)] unfolding handler_ok_def by fastforce
  with Some s show ?thesis by (simp add: unregister_service_def delete_service_def)
qed

section \<open>Services from factories\<close>

definition service_of :: "service_factory \<Rightarrow> iservice" where
  "service_of f = (case f of Singleton_Service_Factory svc \<Rightarrow> Mono_State_Service svc
     | Default_Service_Factory k \<Rightarrow> User_Service k)"

definition made :: "service_factory \<Rightarrow> process \<Rightarrow> process" where
  "made f p = p\<lparr>next_addr := next_addr p + 1, svc_heap := (svc_heap p)(next_addr p \<mapsto> service_of f)\<rparr>"

lemma factory_create_made: "factory_create f p = (next_addr p, made f p)"
  by (simp add: factory_create_def made_def service_of_def)

lemma made_fields [simp]:
  "next_addr (made f p) = next_addr p + 1"
  "svc_heap (made f p) = (svc_heap p)(next_addr p \<mapsto> service_of f)"
  "mgr_alive (made f p) = mgr_alive p" "user_heap (made f p) = user_heap p"
  "tss_fe_socket (made f p) = tss_fe_socket p" "user_calls (made f p) = user_calls p"
  by (simp_all add: made_def)

lemma map_of_None_keys: "map_of m k = None \<longleftrightarrow> k \<notin> fst ` set m"
  by (simp add: map_of_eq_None_iff)

lemma word_suc_nat:
  assumes "unat (a :: 64 word) + 1 < 2 ^ 64"
  shows "unat (a + 1) = unat a + 1"
  using assms by (simp add: unat_word_ariths)

lemma create_one:
  assumes "handler_ok p rh" and "fresh_addrs p" and "unat (next_addr p) + 1 < 2 ^ 64"
    and "map_of (service_map rh) name = None"
  defines "rh' \<equiv> rh\<lparr>service_map := map_insert name (next_addr p) (service_map rh)\<rparr>"
  shows "create_and_register_service name f (p, rh) = Inr (made f p, rh')"
    and "handler_ok (made f p) rh'" and "fresh_addrs (made f p)"
    and "unat (next_addr (made f p)) = unat (next_addr p) + 1" and "svc_heap p (next_addr p) = None"
proof -
  let ?a = "next_addr p"
  have a: "?a \<noteq> NULL" "svc_heap p ?a = None"
    using assms(2) unfolding fresh_addrs_def by auto
  then show "create_and_register_service name f (p, rh) = Inr (made f p, rh')"
    using assms(4)
    by (simp add: create_and_register_service_def factory_create_made handler_register_service_def
        unregister_service_def rh'_def)
  have m: "map_ok (service_map rh)" "distinct (map snd (service_map rh))"
    "\<forall>svc \<in> snd ` set (service_map rh). svc \<noteq> NULL \<and> svc_heap p svc \<noteq> None"
    using assms(1) by (simp_all add: handler_ok_def)
  then have new: "?a \<notin> snd ` set (service_map rh)" using a(2) by blast
  have vals: "v = ?a \<or> v \<in> snd ` set (service_map rh)"
    if "v \<in> snd ` set (map_insert name ?a (service_map rh))" for v
    using that set_map_insert [of name ?a "service_map rh"] by auto
  have "\<forall>svc \<in> snd ` set (map_insert name ?a (service_map rh)).
      svc \<noteq> NULL \<and> ((svc_heap p)(?a \<mapsto> service_of f)) svc \<noteq> None"
  proof
    fix svc assume "svc \<in> snd ` set (map_insert name ?a (service_map rh))"
    from vals [OF this] show "svc \<noteq> NULL \<and> ((svc_heap p)(?a \<mapsto> service_of f)) svc \<noteq> None"
      using a(1) m(3) by (cases "svc = ?a") auto
  qed
  then show "handler_ok (made f p) rh'"
    using map_ok_map_insert [OF m(1)] distinct_map_insert [OF m(2) new]
    by (simp add: handler_ok_def rh'_def)
  show suc: "unat (next_addr (made f p)) = unat ?a + 1"
    using word_suc_nat [OF assms(3)] by simp
  have "b < ?a + 1" if "b \<le> ?a" for b
    using that suc by (simp add: word_less_nat_alt word_le_nat_alt)
  moreover have "?a + 1 \<noteq> NULL" using suc by (metis add_is_0 made_fields(1) unat_0 zero_neq_one)
  ultimately show "fresh_addrs (made f p)"
    using assms(2) a(1) unfolding fresh_addrs_def by (auto simp: less_imp_le)
  show "svc_heap p ?a = None" by (rule a(2))
qed

lemma create_all:
  assumes "handler_ok p rh" and "fresh_addrs p" and "unat (next_addr p) + length m < 2 ^ 64"
    and "map_ok m" and "\<forall>n \<in> fst ` set m. map_of (service_map rh) n = None"
  shows "\<exists>p' rh'. foldE (\<lambda>(name, f). create_and_register_service name f) m (p, rh) = Inr (p', rh')
    \<and> handler_ok p' rh' \<and> fresh_addrs p' \<and> rh_conn_info rh' = rh_conn_info rh
    \<and> fst ` set (service_map rh') = fst ` set (service_map rh) \<union> fst ` set m
    \<and> (\<forall>n v. map_of (service_map rh) n = Some v \<longrightarrow> map_of (service_map rh') n = Some v)
    \<and> (\<forall>a. svc_heap p a \<noteq> None \<longrightarrow> svc_heap p' a = svc_heap p a)
    \<and> (\<forall>(n, f) \<in> set m. \<exists>svc. map_of (service_map rh') n = Some svc
        \<and> svc_heap p' svc = Some (service_of f) \<and> svc_heap p svc = None)
    \<and> tss_fe_socket p' = tss_fe_socket p \<and> user_calls p' = user_calls p
    \<and> mgr_alive p' = mgr_alive p \<and> user_heap p' = user_heap p"
  using assms
proof (induction m arbitrary: p rh)
  case Nil
  then show ?case by auto
next
  case (Cons e m)
  obtain n f where e: "e = (n, f)" by (cases e)
  let ?rh = "rh\<lparr>service_map := map_insert n (next_addr p) (service_map rh)\<rparr>"
  have one: "unat (next_addr p) + 1 < 2 ^ 64" "map_of (service_map rh) n = None"
    using Cons.prems(3,5) e by simp_all
  note c = create_one(1-4) [OF Cons.prems(1,2) one, where f = f] create_one(5) [OF Cons.prems(1,2) one]
  have keys: "map_of (service_map ?rh) = (map_of (service_map rh))(n \<mapsto> next_addr p)"
    by (simp add: map_of_map_insert)
  have n: "n \<notin> fst ` set m" using Cons.prems(4) e by (auto simp: map_ok_Cons)
  have rest: "unat (next_addr (made f p)) + length m < 2 ^ 64" "map_ok m"
    "\<forall>k \<in> fst ` set m. map_of (service_map ?rh) k = None"
    using Cons.prems(3-5) c(4) e n unfolding keys by (auto simp: map_ok_Cons)
  obtain p' rh' where IH: "foldE (\<lambda>(name, f). create_and_register_service name f) m (made f p, ?rh)
      = Inr (p', rh')" "handler_ok p' rh'" "fresh_addrs p'" "rh_conn_info rh' = rh_conn_info ?rh"
    "fst ` set (service_map rh') = fst ` set (service_map ?rh) \<union> fst ` set m"
    "\<forall>k v. map_of (service_map ?rh) k = Some v \<longrightarrow> map_of (service_map rh') k = Some v"
    "\<forall>a. svc_heap (made f p) a \<noteq> None \<longrightarrow> svc_heap p' a = svc_heap (made f p) a"
    "\<forall>(k, g) \<in> set m. \<exists>svc. map_of (service_map rh') k = Some svc
        \<and> svc_heap p' svc = Some (service_of g) \<and> svc_heap (made f p) svc = None"
    "tss_fe_socket p' = tss_fe_socket (made f p)" "user_calls p' = user_calls (made f p)"
    "mgr_alive p' = mgr_alive (made f p)" "user_heap p' = user_heap (made f p)"
    using Cons.IH [OF c(2,3) rest] by blast
  have "foldE (\<lambda>(name, f). create_and_register_service name f) (e # m) (p, rh) = Inr (p', rh')"
    using c(1) IH(1) e by simp
  moreover have "fst ` set (service_map rh') = fst ` set (service_map rh) \<union> fst ` set (e # m)"
    using IH(5) e by (simp add: fst_map_insert)
  moreover have "\<forall>k v. map_of (service_map rh) k = Some v \<longrightarrow> map_of (service_map rh') k = Some v"
    using IH(6) one(2) unfolding keys by (metis fun_upd_apply option.distinct(1))
  moreover have "\<forall>a. svc_heap p a \<noteq> None \<longrightarrow> svc_heap p' a = svc_heap p a"
    using IH(7) c(5) by (auto split: if_splits)
  moreover have "map_of (service_map rh') n = Some (next_addr p)"
    "svc_heap p' (next_addr p) = Some (service_of f)"
    using IH(6) IH(7) unfolding keys by simp_all
  moreover have "\<forall>(k, g) \<in> set m. \<exists>svc. map_of (service_map rh') k = Some svc
        \<and> svc_heap p' svc = Some (service_of g) \<and> svc_heap p svc = None"
    using IH(8) by (fastforce split: if_splits)
  ultimately show ?case
    using IH(2-4,9-12) e c(5) by (intro exI [of _ p'] exI [of _ rh']) auto
qed

lemma destroy_all:
  assumes "handler_ok p rh"
  shows "\<exists>p' rh'. foldE (\<lambda>v ph. unregister_service (fst v) ph) vs (p, rh) = Inr (p', rh')
    \<and> handler_ok p' rh' \<and> service_map rh' = [e \<leftarrow> service_map rh. fst e \<notin> fst ` set vs]
    \<and> (\<forall>a. svc_heap p' a = (if \<exists>e \<in> set (service_map rh). fst e \<in> fst ` set vs \<and> snd e = a
        then None else svc_heap p a))"
  using assms
proof (induction vs arbitrary: p rh)
  case Nil
  then show ?case by simp
next
  case (Cons v vs)
  obtain p1 rh1 where 1: "unregister_service (fst v) (p, rh) = Inr (p1, rh1)" "handler_ok p1 rh1"
    "service_map rh1 = map_erase (fst v) (service_map rh)"
    "p1 = p\<lparr>svc_heap := (case map_of (service_map rh) (fst v) of None \<Rightarrow> svc_heap p
        | Some svc \<Rightarrow> (svc_heap p)(svc := None))\<rparr>"
    using unregister_service_ok [OF Cons.prems] by blast
  obtain p' rh' where 2: "foldE (\<lambda>v ph. unregister_service (fst v) ph) vs (p1, rh1) = Inr (p', rh')"
    "handler_ok p' rh'" "service_map rh' = [e \<leftarrow> service_map rh1. fst e \<notin> fst ` set vs]"
    "\<forall>a. svc_heap p' a = (if \<exists>e \<in> set (service_map rh1). fst e \<in> fst ` set vs \<and> snd e = a
        then None else svc_heap p1 a)"
    using Cons.IH [OF 1(2)] by blast
  have m: "map_ok (service_map rh)" using Cons.prems by (simp add: handler_ok_def)
  then have dist: "distinct (map fst (service_map rh))"
    by (rule map_ok_distinct)
  have heap1: "svc_heap p1 a = (if \<exists>e \<in> set (service_map rh). fst e = fst v \<and> snd e = a
      then None else svc_heap p a)" for a
  proof (cases "map_of (service_map rh) (fst v)")
    case None
    then have "fst e \<noteq> fst v" if "e \<in> set (service_map rh)" for e
      using that unfolding map_of_None_keys by (metis image_eqI)
    then show ?thesis using 1(4) None by auto
  next
    case (Some svc)
    have "(\<exists>e \<in> set (service_map rh). fst e = fst v \<and> snd e = a) \<longleftrightarrow> svc = a"
    proof
      assume "\<exists>e \<in> set (service_map rh). fst e = fst v \<and> snd e = a"
      then have "(fst v, a) \<in> set (service_map rh)" by force
      then show "svc = a" using map_of_is_SomeI [OF dist] Some by fastforce
    next
      assume "svc = a"
      then show "\<exists>e \<in> set (service_map rh). fst e = fst v \<and> snd e = a"
        using map_of_SomeD [OF Some] by force
    qed
    then show ?thesis using 1(4) Some by simp
  qed
  have "service_map rh' = [e \<leftarrow> service_map rh. fst e \<notin> fst ` set (v # vs)]"
    using 2(3) 1(3) by (auto simp: map_erase_def intro: filter_cong)
  moreover have "svc_heap p' a = (if \<exists>e \<in> set (service_map rh). fst e \<in> fst ` set (v # vs) \<and> snd e = a
        then None else svc_heap p a)" for a
  proof -
    define K where "K = fst ` set vs"
    have K: "fst ` set (v # vs) = insert (fst v) K" by (simp add: K_def)
    have m1: "set (service_map rh1) = {e \<in> set (service_map rh). fst e \<noteq> fst v}"
      unfolding 1(3) map_erase_def by auto
    have iff: "(\<exists>e \<in> set (service_map rh). fst e \<in> insert (fst v) K \<and> snd e = a)
        \<longleftrightarrow> (\<exists>e \<in> set (service_map rh1). fst e \<in> K \<and> snd e = a)
          \<or> (\<exists>e \<in> set (service_map rh). fst e = fst v \<and> snd e = a)"
      unfolding m1 by blast
    have two: "(if A then None else if B then None else x) = (if A \<or> B then None else x)"
      for A B and x :: "iservice option" by simp
    have "svc_heap p' a = (if \<exists>e \<in> set (service_map rh1). fst e \<in> K \<and> snd e = a
        then None else svc_heap p1 a)" using 2(4) unfolding K_def by blast
    then show ?thesis unfolding K iff heap1 two .
  qed
  ultimately show ?case using 1(1) 2(1,2) by simp
qed

end
