(* ===== verification/Worker.thy ===== *)
theory Worker
  imports Services
begin

text \<open>
  \<open>src/rpcz/worker/worker.cc\<close> and \<open>worker_thread_group.cc\<close>: what a worker thread does with the
  commands in its queue, and how the group of workers starts and stops. The queue is the list of
  the commands the worker pops; the loop waits where the list ends.
\<close>

section \<open>State\<close>

text \<open>
  The parameters: the wire header, what service classes know of their methods, and the printing
  of integers in error strings.
\<close>

record worker_env =
  we_codec :: header_codec
  we_services :: service_env
  we_lexical_cast :: "int \<Rightarrow> string"

record worker =
  worker_index :: size_t
  remote_response_map :: "uint64 \<Rightarrow> ptr option"
  request_handler_map :: handler_map

definition new_worker :: "size_t \<Rightarrow> worker" where
  "new_worker i = \<lparr>worker_index = i, remote_response_map = Map.empty, request_handler_map = Map.empty\<rparr>"

definition deref_controller :: "ptr \<Rightarrow> process \<Rightarrow> rpc_controller result" where
  "deref_controller a p = (case rc_heap p a of None \<Rightarrow> Inl Use_After_Free | Some c \<Rightarrow> Inr c)"

definition delete_controller :: "ptr \<Rightarrow> process \<Rightarrow> process" where
  "delete_controller a p = p\<lparr>rc_heap := (rc_heap p)(a := None)\<rparr>"

definition call_user :: "user_call list \<Rightarrow> process \<Rightarrow> process" where
  "call_user cs p = p\<lparr>user_calls := user_calls p @ cs\<rparr>"

section \<open>Commands\<close>

definition worker_run_closure :: "ptr \<Rightarrow> process \<times> worker \<Rightarrow> (process \<times> worker) result" where
  "worker_run_closure cl pw = (case pw of (p, w) \<Rightarrow>
     boost_assert (cl \<noteq> NULL) (Inr (call_user [Closure_Run cl] p, w)))"

definition worker_start_rpc :: "ptr \<Rightarrow> process \<times> worker \<Rightarrow> (process \<times> worker) result" where
  "worker_start_rpc a pw = (case pw of (p, w) \<Rightarrow>
     boost_assert (a \<noteq> NULL) (bindE (deref_controller a p) (\<lambda>c.
       Inr (p, w\<lparr>remote_response_map := (remote_response_map w)(get_event_id c \<mapsto> a)\<rparr>))))"

definition worker_handle_timeout ::
  "worker_env \<Rightarrow> uint64 \<Rightarrow> process \<times> worker \<Rightarrow> (process \<times> worker) result" where
  "worker_handle_timeout we ev_id pw = (case pw of (p, w) \<Rightarrow>
     (case remote_response_map w ev_id of
        None \<Rightarrow> Inr (p, w)
      | Some a \<Rightarrow> boost_assert (a \<noteq> NULL) (bindE (deref_controller a p) (\<lambda>c.
          boost_assert (get_event_id c = ev_id)
          (let p = call_user (map Response_Handler_Call
                     (controller_handle_timeout (we_lexical_cast we) c)) p;
               p = delete_controller a p
           in Inr (p, w\<lparr>remote_response_map := (remote_response_map w)(ev_id := None)\<rparr>))))))"

definition handle_done_resp ::
  "uint64 \<Rightarrow> bytes \<Rightarrow> process \<times> worker \<Rightarrow> (process \<times> worker) result" where
  "handle_done_resp ev_id response pw = (case pw of (p, w) \<Rightarrow>
     (case remote_response_map w ev_id of
        None \<Rightarrow> Inr (p, w)
      | Some a \<Rightarrow> boost_assert (a \<noteq> NULL) (bindE (deref_controller a p) (\<lambda>c.
          boost_assert (get_event_id c = ev_id)
          (bindE (controller_handle_response c (Some response)) (\<lambda>calls.
           let p = call_user (map Response_Handler_Call calls) p;
               p = delete_controller a p
           in Inr (p, w\<lparr>remote_response_map := (remote_response_map w)(ev_id := None)\<rparr>)))))))"

definition handle_error_resp ::
  "worker_env \<Rightarrow> rpc_response_header \<Rightarrow> process \<times> worker \<Rightarrow> (process \<times> worker) result" where
  "handle_error_resp we rs pw = (case pw of (p, w) \<Rightarrow>
     boost_assert (rs_error_code rs \<noteq> None)
     (case remote_response_map w (get_or 0 (rs_event_id rs)) of
        None \<Rightarrow> Inr (p, w)
      | Some a \<Rightarrow> boost_assert (a \<noteq> NULL) (bindE (deref_controller a p) (\<lambda>c.
          boost_assert (get_event_id c = get_or 0 (rs_event_id rs))
          (let p = call_user (map Response_Handler_Call (controller_handle_error (we_lexical_cast we) c
                     (get_or 0 (rs_error_code rs)) (get_or [] (rs_error_str rs)))) p;
               p = delete_controller a p
           in Inr (p, w\<lparr>remote_response_map :=
                (remote_response_map w)(get_or 0 (rs_event_id rs) := None)\<rparr>))))))"

definition worker_handle_response ::
  "worker_env \<Rightarrow> rpc_response_header \<Rightarrow> handle_data_cmd \<Rightarrow> process \<times> worker
    \<Rightarrow> (process \<times> worker) result" where
  "worker_handle_response we rs c pw =
     (if rs_error_code rs \<noteq> None then handle_error_resp we rs pw
      else handle_done_resp (get_or 0 (rs_event_id rs)) (hd_payload c) pw)"

text \<open>\<open>t\<close> is the thread the worker runs in.\<close>

definition worker_handle_request ::
  "worker_env \<Rightarrow> thread \<Rightarrow> rpc_request_header \<Rightarrow> handle_data_cmd \<Rightarrow> process \<times> worker
    \<Rightarrow> (process \<times> worker) result" where
  "worker_handle_request we t rq c pw = (case pw of (p, w) \<Rightarrow>
     (case hd_info c of
        None \<Rightarrow> Inl Boost_Assert
      | Some conn_info \<Rightarrow>
          bindE (get_handler conn_info (p, request_handler_map w)) (\<lambda>(p, m).
          case m conn_info of
            None \<Rightarrow> Inl Boost_Assert
          | Some handler \<Rightarrow>
              bindE (handler_handle_request (we_codec we) (we_services we) t handler rq (hd_payload c) p)
                (\<lambda>p. Inr (p, w\<lparr>request_handler_map := m\<rparr>)))))"

definition worker_handle_data ::
  "worker_env \<Rightarrow> thread \<Rightarrow> handle_data_cmd \<Rightarrow> process \<times> worker \<Rightarrow> (process \<times> worker) result" where
  "worker_handle_data we t c pw =
     (case parse_hdr (we_codec we) (hd_header c) of
        None \<Rightarrow> Inr pw
      | Some hdr \<Rightarrow>
          (case req_hdr hdr of
             Some rq \<Rightarrow> worker_handle_request we t rq c pw
           | None \<Rightarrow>
               (case resp_hdr hdr of
                  Some rs \<Rightarrow> worker_handle_response we rs c pw
                | None \<Rightarrow> Inr pw)))"

definition worker_register_service ::
  "connection_info \<Rightarrow> string \<Rightarrow> ptr \<Rightarrow> process \<times> worker \<Rightarrow> (process \<times> worker) result" where
  "worker_register_service info name svc pw = (case pw of (p, w) \<Rightarrow>
     bindE (get_handler info (p, request_handler_map w)) (\<lambda>(p, m).
     case m info of
       None \<Rightarrow> Inl Boost_Assert
     | Some handler \<Rightarrow> bindE (handler_register_service name svc (p, handler)) (\<lambda>(p, handler).
         Inr (p, w\<lparr>request_handler_map := m(info \<mapsto> handler)\<rparr>))))"

text \<open>One turn of the loop: whether to continue, and the state.\<close>

definition worker_step ::
  "worker_env \<Rightarrow> thread \<Rightarrow> worker_cmd \<Rightarrow> process \<times> worker
    \<Rightarrow> (bool \<times> (process \<times> worker)) result" where
  "worker_step we t c pw =
     (case c of
        Quit_Worker_Cmd \<Rightarrow> Inr (False, pw)
      | Run_Closure_Cmd cl \<Rightarrow> bindE (worker_run_closure cl pw) (\<lambda>pw. Inr (True, pw))
      | Start_Rpc_Cmd a \<Rightarrow> bindE (worker_start_rpc a pw) (\<lambda>pw. Inr (True, pw))
      | Handle_Data_Cmd d \<Rightarrow> bindE (worker_handle_data we t d pw) (\<lambda>pw. Inr (True, pw))
      | Handle_Timeout_Cmd ev \<Rightarrow> bindE (worker_handle_timeout we ev pw) (\<lambda>pw. Inr (True, pw))
      | Register_Svc_Cmd info name svc \<Rightarrow>
          bindE (worker_register_service info name svc pw) (\<lambda>pw. Inr (True, pw)))"

text \<open>
  The loop over the commands in the queue: the commands left in it, and whether the thread is
  still waiting for more.
\<close>

fun worker_loop ::
  "worker_env \<Rightarrow> thread \<Rightarrow> worker_cmd list \<Rightarrow> process \<times> worker
    \<Rightarrow> (bool \<times> worker_cmd list \<times> (process \<times> worker)) result" where
  "worker_loop we t [] pw = Inr (True, [], pw)"
| "worker_loop we t (c # cmd_queue) pw = bindE (worker_step we t c pw) (\<lambda>(should_continue, pw).
     if should_continue then worker_loop we t cmd_queue pw else Inr (False, cmd_queue, pw))"

section \<open>The group\<close>

definition add_worker :: "int32 \<Rightarrow> workers_commander \<Rightarrow> workers_commander result" where
  "add_worker i wc = set_cmd_queue i (Some []) wc"

definition new_worker_thread_group ::
  "int32 \<Rightarrow> (worker list \<times> workers_commander) result" where
  "new_worker_thread_group threads =
     bindE (new_workers_commander threads) (\<lambda>wc.
     boost_assert (0 < sint threads)
     (bindE (foldE add_worker (map word_of_nat [0..<nat (sint threads)]) wc) (\<lambda>wc.
      Inr (map (\<lambda>i. new_worker (word_of_nat i)) [0..<nat (sint threads)], wc))))"

text \<open>The commands \<open>join_all\<close> sends; then it waits for every thread.\<close>

definition group_quit :: "workers_commander \<Rightarrow> workers_commander result" where
  "group_quit wc = foldE quit_worker (map word_of_nat [0..<nat (sint (wc_workers wc))]) wc"

section \<open>What requests leave alone\<close>

text \<open>The calls of response handlers, in order.\<close>

fun handler_call_of :: "user_call \<Rightarrow> handler_call option" where
  "handler_call_of (Response_Handler_Call hc) = Some hc"
| "handler_call_of _ = None"

definition handler_calls :: "process \<Rightarrow> handler_call list" where
  "handler_calls p = List.map_filter handler_call_of (user_calls p)"

text \<open>
  \<open>serves p p'\<close>: from \<open>p\<close> to \<open>p'\<close> no controller, no factory and no user service has changed and
  no response handler has been called.
\<close>

definition serves :: "process \<Rightarrow> process \<Rightarrow> bool" where
  "serves p p' \<longleftrightarrow> rc_heap p' = rc_heap p \<and> handler_calls p' = handler_calls p
     \<and> mgr_alive p' = mgr_alive p \<and> mgr_factories p' = mgr_factories p
     \<and> fm_heap p' = fm_heap p \<and> user_heap p' = user_heap p
     \<and> next_event_id p' = next_event_id p"

lemma serves_refl [simp]: "serves p p"
  by (simp add: serves_def)

lemma serves_trans: "serves p q \<Longrightarrow> serves q r \<Longrightarrow> serves p r"
  by (simp add: serves_def)

named_theorems serves_intros "operations that serve requests"

lemma serves_updates [serves_intros]:
  "serves p q \<Longrightarrow> serves p (set_fe_socket t s q)"
  "serves p q \<Longrightarrow> serves p (q\<lparr>svc_heap := h\<rparr>)"
  "serves p q \<Longrightarrow> serves p (made f q)"
  "serves p q \<Longrightarrow> serves p (call_method k m b rep q)"
  by (simp_all add: serves_def handler_calls_def set_fe_socket_def made_def call_method_def
      List.map_filter_def)

lemma serves_on_frontend: "serves p q \<Longrightarrow> ensures (serves p) (on_frontend t f q)"
  unfolding on_frontend_eq
  by (rule ensures_bindE_any) (simp add: ensures_Inr serves_intros)

lemma serves_reply_error: "serves p q \<Longrightarrow> ensures (serves p) (replier_reply_error pb t rep c e q)"
  by (simp add: replier_reply_error_def connection_reply_error_def connection_reply_header_def
      connection_reply_vector_def ensures_Inl serves_on_frontend Let_def split: option.split)

lemma serves_cpp_dispatch:
  "serves p q \<Longrightarrow> ensures (serves p) (cpp_service_dispatch_request pb se t cls m b rep q)"
  by (simp add: cpp_service_dispatch_request_def serves_reply_error ensures_Inr serves_intros
      split: option.split)

lemma serves_dispatch:
  "serves p q \<Longrightarrow> ensures (serves p) (dispatch_request pb se t svc m b rep q)"
  by (simp add: dispatch_request_def mono_state_dispatch_request_def serves_cpp_dispatch ensures_Inl
      split: option.split iservice.split)

lemma serves_handle_request:
  "serves p q \<Longrightarrow> ensures (serves p) (handler_handle_request pb se t rh rq b q)"
  unfolding handler_handle_request_def connection_of_info_def manager_get_def
  by (auto simp: Let_def ensures_Inl serves_reply_error serves_dispatch split: option.split)

text \<open>A handler that is made or changed keeps its connection.\<close>

definition serves_handler :: "process \<Rightarrow> connection_info \<Rightarrow> process \<times> request_handler \<Rightarrow> bool" where
  "serves_handler p info ph \<longleftrightarrow> serves p (fst ph) \<and> rh_conn_info (snd ph) = info"

lemma serves_handler_unregister:
  "serves_handler p info ph \<Longrightarrow> ensures (serves_handler p info) (unregister_service name ph)"
  by (cases ph) (simp add: serves_handler_def unregister_service_def delete_service_def ensures_Inl
      ensures_Inr serves_intros split: option.split)

lemma serves_handler_register:
  assumes "serves_handler p info ph"
  shows "ensures (serves_handler p info) (handler_register_service name svc ph)"
  unfolding handler_register_service_def
  by (auto intro!: ensures_if ensures_Inl ensures_bindE [OF serves_handler_unregister [OF assms]]
      ensures_Inr simp: serves_handler_def)

lemma serves_handler_create:
  assumes "serves_handler p info ph"
  shows "ensures (serves_handler p info) (create_and_register_service name f ph)"
proof (cases ph)
  case (Pair q rh)
  have "serves_handler p info (made f q, rh)"
    using assms Pair by (simp add: serves_handler_def serves_intros)
  then show ?thesis
    by (simp add: Pair create_and_register_service_def factory_create_made serves_handler_register
        ensures_Inl)
qed

lemma serves_handler_create_services:
  assumes "serves_handler p info ph"
  shows "ensures (serves_handler p info) (create_services ph)"
proof (cases ph)
  case (Pair q rh)
  have "ensures (serves_handler p info)
      (service_factory_map_for_each a create_and_register_service (q, rh))" for a
    unfolding service_factory_map_for_each_def
    by (rule ensures_bindE_any, rule ensures_foldE)
      (use assms Pair in \<open>auto intro: serves_handler_create\<close>)
  then show ?thesis
    using assms unfolding Pair create_services_def
    by (auto simp: manager_get_def ensures_Inl ensures_Inr router_service_factories_get_def
        intro!: ensures_bindE_any split: option.split)
qed

text \<open>The map has a handler for the connection afterwards, and the others are as before.\<close>

definition serves_map :: "process \<Rightarrow> connection_info \<Rightarrow> handler_map \<Rightarrow> process \<times> handler_map \<Rightarrow> bool" where
  "serves_map p info m pm \<longleftrightarrow> serves p (fst pm) \<and>
     (\<exists>rh. snd pm = m(info \<mapsto> rh) \<and> (m info = None \<longrightarrow> rh_conn_info rh = info)
        \<and> (m info \<noteq> None \<longrightarrow> m info = Some rh))"

lemma serves_get_handler: "ensures (serves_map p info m) (get_handler info (p, m))"
proof (cases "m info")
  case None
  have "ensures (serves_handler p info) (new_request_handler info p)"
    unfolding new_request_handler_def
    by (rule serves_handler_create_services) (simp add: serves_handler_def)
  then have "ensures (serves_map p info m)
      (bindE (new_request_handler info p) (\<lambda>(p', rh). Inr (p', m(info \<mapsto> rh))))"
    by (rule ensures_bindE)
      (use None in \<open>auto intro!: ensures_Inr simp: serves_map_def serves_handler_def\<close>)
  with None show ?thesis by (simp add: get_handler_def insert_new_handler_def)
next
  case (Some rh)
  then show ?thesis
    by (auto simp: get_handler_def serves_map_def fun_upd_idem intro!: ensures_Inr)
qed

text \<open>A request or a registration leaves the rpcs of the worker alone.\<close>

definition serves_worker :: "process \<Rightarrow> worker \<Rightarrow> process \<times> worker \<Rightarrow> bool" where
  "serves_worker p w pw \<longleftrightarrow>
     serves p (fst pw) \<and> remote_response_map (snd pw) = remote_response_map w"

lemma serves_worker_request:
  "ensures (serves_worker p w) (worker_handle_request we t rq c (p, w))"
proof (cases "hd_info c")
  case (Some info)
  have "ensures (serves_worker p w) (case pm of (p, m) \<Rightarrow> case m info of None \<Rightarrow> Inl Boost_Assert
      | Some rh \<Rightarrow> bindE (handler_handle_request (we_codec we) (we_services we) t rh rq
          (hd_payload c) p) (\<lambda>p. Inr (p, w\<lparr>request_handler_map := m\<rparr>)))"
    if "serves_map p info (request_handler_map w) pm" for pm
    using that
    by (cases pm) (auto simp: serves_map_def serves_worker_def split: option.split
        intro!: ensures_Inl ensures_Inr ensures_bindE [OF serves_handle_request])
  then show ?thesis
    by (simp add: worker_handle_request_def Some ensures_bindE [OF serves_get_handler])
qed (simp add: worker_handle_request_def ensures_Inl)

lemma serves_worker_register:
  "ensures (serves_worker p w) (worker_register_service info name svc (p, w))"
proof -
  have "ensures (serves_worker p w) (case pm of (p, m) \<Rightarrow> case m info of None \<Rightarrow> Inl Boost_Assert
      | Some rh \<Rightarrow> bindE (handler_register_service name svc (p, rh)) (\<lambda>(p, rh).
          Inr (p, w\<lparr>request_handler_map := m(info \<mapsto> rh)\<rparr>)))"
    if "serves_map p info (request_handler_map w) pm" for pm
  proof (cases pm)
    case (Pair q m)
    have "ensures (serves_handler p (rh_conn_info rh)) (handler_register_service name svc (q, rh))" for rh
      using that Pair by (intro serves_handler_register) (simp add: serves_handler_def serves_map_def)
    then show ?thesis
      unfolding Pair
      by (auto simp: serves_worker_def serves_handler_def split: option.split
          intro!: ensures_Inl ensures_Inr ensures_bindE)
  qed
  then show ?thesis
    by (simp add: worker_register_service_def ensures_bindE [OF serves_get_handler])
qed

section \<open>What responses do\<close>

text \<open>What a handler is told: an error, or the data of the response.\<close>

type_synonym outcome = "rpc_error option \<times> bytes option"

definition calls_of :: "outcome \<Rightarrow> rpc_controller \<Rightarrow> handler_call list" where
  "calls_of oc c = (case rc_handler c of Empty_Handler \<Rightarrow> []
     | Handler h \<Rightarrow> [\<lparr>hc_target = h, hc_error = fst oc, hc_data = snd oc\<rparr>])"

text \<open>
  The common course of the three handlers: the rpc of an event that is pending is told its
  outcome, once, and forgotten.
\<close>

definition finish :: "outcome \<Rightarrow> uint64 \<Rightarrow> process \<times> worker \<Rightarrow> (process \<times> worker) result" where
  "finish oc ev pw = (case pw of (p, w) \<Rightarrow>
     (case remote_response_map w ev of
        None \<Rightarrow> Inr (p, w)
      | Some a \<Rightarrow> boost_assert (a \<noteq> NULL) (bindE (deref_controller a p) (\<lambda>c.
          boost_assert (get_event_id c = ev)
          (Inr (delete_controller a (call_user (map Response_Handler_Call (calls_of oc c)) p),
                w\<lparr>remote_response_map := (remote_response_map w)(ev := None)\<rparr>)))))) "

definition timeout_outcome :: "worker_env \<Rightarrow> outcome" where
  "timeout_outcome we = (Some (new_rpc_error (we_lexical_cast we) TIMEOUT_EXPIRED []), None)"

definition response_outcome :: "worker_env \<Rightarrow> rpc_response_header \<Rightarrow> bytes \<Rightarrow> outcome" where
  "response_outcome we rs payload = (case rs_error_code rs of
     None \<Rightarrow> (None, Some payload)
   | Some code \<Rightarrow>
       (Some (new_rpc_error (we_lexical_cast we) code (get_or [] (rs_error_str rs))), None))"

lemma controller_calls:
  "controller_handle_response c (Some d) = Inr (calls_of (None, Some d) c)"
  "controller_handle_error lx c code str = calls_of (Some (new_rpc_error lx code str), None) c"
  "controller_handle_timeout lx c = calls_of (Some (new_rpc_error lx TIMEOUT_EXPIRED []), None) c"
  by (simp_all add: controller_handle_response_def controller_handle_timeout_def
      controller_handle_error_def calls_of_def split: response_message_handler.split)

lemma worker_handle_timeout_finish:
  "worker_handle_timeout we ev pw = finish (timeout_outcome we) ev pw"
  by (cases pw) (simp add: worker_handle_timeout_def finish_def timeout_outcome_def controller_calls Let_def cong: if_cong option.case_cong)

lemma worker_handle_response_finish:
  "worker_handle_response we rs c pw =
     finish (response_outcome we rs (hd_payload c)) (get_or 0 (rs_event_id rs)) pw"
proof (cases "rs_error_code rs")
  case None
  then show ?thesis
    by (cases pw) (simp add: worker_handle_response_def handle_done_resp_def finish_def
        response_outcome_def controller_calls Let_def
        cong: if_cong option.case_cong)
next
  case (Some code)
  then show ?thesis
    by (cases pw) (simp add: worker_handle_response_def handle_error_resp_def finish_def
        response_outcome_def controller_calls Let_def
        cong: if_cong option.case_cong)
qed

text \<open>The event a command completes, and with what.\<close>

definition completes :: "worker_env \<Rightarrow> worker_cmd \<Rightarrow> (uint64 \<times> outcome) option" where
  "completes we c = (case c of
     Handle_Timeout_Cmd ev \<Rightarrow> Some (ev, timeout_outcome we)
   | Handle_Data_Cmd d \<Rightarrow>
       (case parse_hdr (we_codec we) (hd_header d) of
          None \<Rightarrow> None
        | Some hdr \<Rightarrow> if req_hdr hdr \<noteq> None then None
            else map_option (\<lambda>rs. (get_or 0 (rs_event_id rs), response_outcome we rs (hd_payload d)))
              (resp_hdr hdr))
   | _ \<Rightarrow> None)"

lemma worker_step_completes:
  assumes "completes we c = Some (ev, oc)"
  shows "worker_step we t c pw = bindE (finish oc ev pw) (\<lambda>pw. Inr (True, pw))"
  using assms
  by (cases c) (auto simp: completes_def worker_step_def worker_handle_timeout_finish
      worker_handle_data_def worker_handle_response_finish split: option.splits if_splits)

text \<open>Every pending rpc has its controller, which knows the event.\<close>

definition rpcs_ok :: "process \<times> worker \<Rightarrow> bool" where
  "rpcs_ok pw \<longleftrightarrow> finite (dom (remote_response_map (snd pw))) \<and>
     (\<forall>ev a. remote_response_map (snd pw) ev = Some a \<longrightarrow>
        a \<noteq> NULL \<and> (\<exists>c. rc_heap (fst pw) a = Some c \<and> rc_event_id c = ev))"

lemma rpcs_okD:
  assumes "rpcs_ok (p, w)" and "remote_response_map w ev = Some a"
  shows "a \<noteq> NULL" "\<exists>c. rc_heap p a = Some c \<and> rc_event_id c = ev"
  using assms by (auto simp: rpcs_ok_def)

lemma finish_eq:
  assumes "rpcs_ok (p, w)"
  shows "finish oc ev (p, w) = Inr (case remote_response_map w ev of
      None \<Rightarrow> (p, w)
    | Some a \<Rightarrow> (delete_controller a (call_user
          (map Response_Handler_Call (calls_of oc (the (rc_heap p a)))) p),
        w\<lparr>remote_response_map := (remote_response_map w)(ev := None)\<rparr>))"
proof (cases "remote_response_map w ev")
  case (Some a)
  from rpcs_okD [OF assms Some] Some show ?thesis
    by (auto simp: finish_def deref_controller_def get_event_id_def)
qed (simp add: finish_def)

section \<open>Counting the calls of a handler\<close>

text \<open>The events a worker waits for on behalf of the handler \<open>h\<close>, and the calls of \<open>h\<close> so far.\<close>

definition waiting :: "nat \<Rightarrow> process \<times> worker \<Rightarrow> uint64 set" where
  "waiting h pw = {ev. case remote_response_map (snd pw) ev of None \<Rightarrow> False
     | Some a \<Rightarrow> map_option rc_handler (rc_heap (fst pw) a) = Some (Handler h)}"

definition told :: "nat \<Rightarrow> process \<Rightarrow> nat" where
  "told h p = length [hc \<leftarrow> handler_calls p. hc_target hc = h]"

text \<open>The controllers the commands start.\<close>

fun started :: "worker_cmd list \<Rightarrow> ptr list" where
  "started [] = []"
| "started (c # cs) = (case c of Start_Rpc_Cmd a \<Rightarrow> [a] | _ \<Rightarrow> []) @ started cs"

definition starts :: "nat \<Rightarrow> process \<Rightarrow> worker_cmd list \<Rightarrow> nat" where
  "starts h p cs =
     length [a \<leftarrow> started cs. map_option rc_handler (rc_heap p a) = Some (Handler h)]"

text \<open>
  What the threads that send requests establish: a controller for every command, each with an
  event of its own.
\<close>

definition own_events :: "process \<Rightarrow> bool" where
  "own_events p \<longleftrightarrow> (\<forall>a b c d. rc_heap p a = Some c \<longrightarrow> rc_heap p b = Some d \<longrightarrow>
     rc_event_id c = rc_event_id d \<longrightarrow> a = b)"

definition fresh_starts :: "worker_cmd list \<Rightarrow> process \<times> worker \<Rightarrow> bool" where
  "fresh_starts cs pw \<longleftrightarrow> own_events (fst pw) \<and> distinct (started cs)
     \<and> set (started cs) \<inter> ran (remote_response_map (snd pw)) = {}
     \<and> (\<forall>a \<in> set (started cs). a \<noteq> NULL \<and> rc_heap (fst pw) a \<noteq> None)"

lemma handler_calls_append:
  "handler_calls (call_user (map Response_Handler_Call hcs) p) = handler_calls p @ hcs"
  by (induction hcs) (simp_all add: handler_calls_def call_user_def List.map_filter_def comp_def)

lemma handler_calls_closure [simp]: "handler_calls (call_user [Closure_Run cl] p) = handler_calls p"
  by (simp add: handler_calls_def call_user_def List.map_filter_def)

lemma handler_calls_delete [simp]: "handler_calls (delete_controller a p) = handler_calls p"
  by (simp add: handler_calls_def delete_controller_def)

lemma rc_heap_call_user [simp]: "rc_heap (call_user cs p) = rc_heap p"
  by (simp add: call_user_def)

lemma next_event_call_user [simp]: "next_event_id (call_user cs p) = next_event_id p"
  by (simp add: call_user_def)

lemma next_event_delete [simp]: "next_event_id (delete_controller a p) = next_event_id p"
  by (simp add: delete_controller_def)

lemma rc_heap_delete [simp]: "rc_heap (delete_controller a p) = (rc_heap p)(a := None)"
  by (simp add: delete_controller_def)

lemma told_calls_of:
  "length [hc \<leftarrow> calls_of oc c. hc_target hc = h] = (if rc_handler c = Handler h then 1 else 0)"
  by (simp add: calls_of_def split: response_message_handler.split)

text \<open>A step that neither starts nor completes leaves the rpcs of the worker alone.\<close>

definition same_rpcs :: "process \<times> worker \<Rightarrow> process \<times> worker \<Rightarrow> bool" where
  "same_rpcs pw pw' \<longleftrightarrow> rc_heap (fst pw') = rc_heap (fst pw)
     \<and> next_event_id (fst pw') = next_event_id (fst pw)
     \<and> handler_calls (fst pw') = handler_calls (fst pw)
     \<and> remote_response_map (snd pw') = remote_response_map (snd pw)"

lemma serves_worker_same: "serves_worker p w pw' \<Longrightarrow> same_rpcs (p, w) pw'"
  by (simp add: serves_worker_def serves_def same_rpcs_def)

lemma worker_step_same:
  assumes "worker_step we t c (p, w) = Inr (b, pw')" and "completes we c = None"
    and "\<forall>a. c \<noteq> Start_Rpc_Cmd a"
  shows "same_rpcs (p, w) pw'"
proof (cases c)
  case (Run_Closure_Cmd cl)
  then show ?thesis using assms(1)
    by (auto simp: worker_step_def worker_run_closure_def result_simps same_rpcs_def split: if_splits)
next
  case (Register_Svc_Cmd info name svc)
  then have "worker_register_service info name svc (p, w) = Inr pw'"
    using assms(1) by (auto simp: worker_step_def result_simps)
  then show ?thesis by (rule serves_worker_same [OF ensuresD [OF serves_worker_register]])
next
  case (Handle_Data_Cmd d)
  then have d: "worker_handle_data we t d (p, w) = Inr pw'"
    using assms(1) by (auto simp: worker_step_def result_simps)
  show ?thesis
  proof (cases "\<exists>hdr rq. parse_hdr (we_codec we) (hd_header d) = Some hdr \<and> req_hdr hdr = Some rq")
    case True
    then obtain rq where "worker_handle_request we t rq d (p, w) = Inr pw'"
      using d by (auto simp: worker_handle_data_def)
    then show ?thesis by (rule serves_worker_same [OF ensuresD [OF serves_worker_request]])
  next
    case False
    then have "pw' = (p, w)"
      using d assms(2) Handle_Data_Cmd
      by (auto simp: worker_handle_data_def completes_def split: option.splits)
    then show ?thesis by (simp add: same_rpcs_def)
  qed
qed (use assms in \<open>auto simp: worker_step_def completes_def same_rpcs_def\<close>)

lemma finite_waiting: "rpcs_ok pw \<Longrightarrow> finite (waiting h pw)"
  by (rule finite_subset [of _ "dom (remote_response_map (snd pw))"])
    (auto simp: waiting_def rpcs_ok_def split: option.splits)

lemma same_rpcs_counts:
  assumes "same_rpcs pw pw'"
  shows "waiting h pw' = waiting h pw" "told h (fst pw') = told h (fst pw)"
    "starts h (fst pw') cs = starts h (fst pw) cs" "rpcs_ok pw' = rpcs_ok pw"
    "fresh_starts cs pw' = fresh_starts cs pw"
  using assms
  by (simp_all add: same_rpcs_def waiting_def told_def starts_def rpcs_ok_def fresh_starts_def
      own_events_def cong: option.case_cong)

lemma started_step:
  assumes "rpcs_ok (p, w)" and "fresh_starts (Start_Rpc_Cmd a # cs) (p, w)"
  shows "\<exists>c. rc_heap p a = Some c \<and> remote_response_map w (rc_event_id c) = None
    \<and> worker_step we t (Start_Rpc_Cmd a) (p, w) =
        Inr (True, (p, w\<lparr>remote_response_map := (remote_response_map w)(rc_event_id c \<mapsto> a)\<rparr>))"
proof -
  obtain c where c: "a \<noteq> NULL" "rc_heap p a = Some c"
    using assms(2) by (auto simp: fresh_starts_def)
  have "remote_response_map w (rc_event_id c) \<noteq> Some b" for b
  proof
    assume b: "remote_response_map w (rc_event_id c) = Some b"
    from rpcs_okD(2) [OF assms(1) b] obtain d where "rc_heap p b = Some d" "rc_event_id d = rc_event_id c"
      by blast
    then have "b = a" using assms(2) c(2) unfolding fresh_starts_def own_events_def by force
    then have "a \<in> ran (remote_response_map w)" using b by (auto intro: ranI)
    then show False using assms(2) by (simp add: fresh_starts_def)
  qed
  then have "remote_response_map w (rc_event_id c) = None" by (cases "remote_response_map w (rc_event_id c)") auto
  with c show ?thesis
    by (simp add: worker_step_def worker_start_rpc_def deref_controller_def get_event_id_def)
qed

lemma started_counts:
  assumes "rpcs_ok (p, w)" and "fresh_starts (Start_Rpc_Cmd a # cs) (p, w)"
    and "rc_heap p a = Some c" and "remote_response_map w (rc_event_id c) = None"
  defines "w' \<equiv> w\<lparr>remote_response_map := (remote_response_map w)(rc_event_id c \<mapsto> a)\<rparr>"
  shows "rpcs_ok (p, w')" "fresh_starts cs (p, w')"
    "card (waiting h (p, w')) + starts h p cs =
       card (waiting h (p, w)) + starts h p (Start_Rpc_Cmd a # cs)"
proof -
  have fs: "a \<noteq> NULL" "a \<notin> set (started cs)" "set (started cs) \<inter> ran (remote_response_map w) = {}"
    using assms(2) by (auto simp: fresh_starts_def)
  show "rpcs_ok (p, w')" using assms(1,3) fs(1) by (simp add: rpcs_ok_def w'_def)
  have "ran (remote_response_map w') = insert a (ran (remote_response_map w))"
    using assms(4) by (simp add: w'_def)
  then show "fresh_starts cs (p, w')" using assms(2) fs by (simp add: fresh_starts_def)
  have "waiting h (p, w') = (if rc_handler c = Handler h then insert (rc_event_id c) (waiting h (p, w))
      else waiting h (p, w))"
    using assms(3,4) by (auto simp: waiting_def w'_def split: if_splits option.splits)
  moreover have "rc_event_id c \<notin> waiting h (p, w)" using assms(4) by (simp add: waiting_def)
  ultimately show "card (waiting h (p, w')) + starts h p cs =
       card (waiting h (p, w)) + starts h p (Start_Rpc_Cmd a # cs)"
    using assms(3) finite_waiting [OF assms(1)] by (simp add: starts_def)
qed

lemma finished_counts:
  assumes "rpcs_ok (p, w)" and "fresh_starts cs (p, w)" and "finish oc ev (p, w) = Inr (p', w')"
  shows "rpcs_ok (p', w')" "fresh_starts cs (p', w')" "starts h p' cs = starts h p cs"
    "told h p' + card (waiting h (p', w')) = told h p + card (waiting h (p, w))"
proof -
  have "rpcs_ok (p', w') \<and> fresh_starts cs (p', w') \<and> starts h p' cs = starts h p cs
    \<and> told h p' + card (waiting h (p', w')) = told h p + card (waiting h (p, w))"
  proof (cases "remote_response_map w ev")
    case None
    then show ?thesis using assms by (simp add: finish_eq)
  next
    case (Some a)
    obtain c where c: "rc_heap p a = Some c" "rc_event_id c = ev"
      using rpcs_okD(2) [OF assms(1) Some] by blast
    have p': "rc_heap p' = (rc_heap p)(a := None)"
      "handler_calls p' = handler_calls p @ calls_of oc c"
      and w': "remote_response_map w' = (remote_response_map w)(ev := None)"
      using assms(3) Some c by (auto simp: finish_eq [OF assms(1)] handler_calls_append)
    have other: "b \<noteq> a" if "remote_response_map w e = Some b" "e \<noteq> ev" for e b
      using rpcs_okD(2) [OF assms(1) that(1)] c that(2) by auto
    have a: "a \<notin> set (started cs)"
      using assms(2) Some by (auto simp: fresh_starts_def intro: ranI)
    have "rpcs_ok (p', w')"
      using assms(1) other by (fastforce simp: rpcs_ok_def p' w')
    note ok = this
    have "ran (remote_response_map w') \<subseteq> ran (remote_response_map w)"
      unfolding w' ran_def by auto
    moreover have "own_events p'"
      using assms(2) unfolding fresh_starts_def own_events_def p'(1) fun_upd_apply fst_conv
      by (metis option.distinct(1))
    ultimately have "fresh_starts cs (p', w')"
      using assms(2) a by (auto simp: fresh_starts_def p' split: if_splits)
    moreover have "starts h p' cs = starts h p cs"
      using a unfolding starts_def p' by (intro arg_cong [where f = length] filter_cong) auto
    moreover have wait: "waiting h (p', w') = waiting h (p, w) - {ev}"
      using other by (auto simp: waiting_def p' w' split: option.splits if_splits)
    moreover have "ev \<in> waiting h (p, w) \<longleftrightarrow> rc_handler c = Handler h"
      using Some c by (simp add: waiting_def)
    then have "card (waiting h (p, w)) =
        card (waiting h (p', w')) + (if rc_handler c = Handler h then 1 else 0)"
      using card.remove [OF finite_waiting [OF assms(1), of h], of ev] unfolding wait by simp
    moreover have "told h p' = told h p + (if rc_handler c = Handler h then 1 else 0)"
      by (simp add: told_def p' told_calls_of)
    ultimately show ?thesis
      using ok by simp
  qed
  then show "rpcs_ok (p', w')" "fresh_starts cs (p', w')" "starts h p' cs = starts h p cs"
    "told h p' + card (waiting h (p', w')) = told h p + card (waiting h (p, w))" by auto
qed

text \<open>A command a thread gives on behalf of its rpcs: a start or a completion.\<close>

definition is_rpc_cmd :: "worker_env \<Rightarrow> worker_cmd \<Rightarrow> bool" where
  "is_rpc_cmd we c \<longleftrightarrow> (case c of Start_Rpc_Cmd a \<Rightarrow> True | _ \<Rightarrow> completes we c \<noteq> None)"

lemma is_rpc_cmd_cases:
  assumes "is_rpc_cmd we c"
  obtains a where "c = Start_Rpc_Cmd a" | ev oc where "completes we c = Some (ev, oc)"
  using assms by (cases c) (auto simp: is_rpc_cmd_def)

lemma not_rpc_cmd:
  "\<not> is_rpc_cmd we c \<Longrightarrow> completes we c = None \<and> (\<forall>a. c \<noteq> Start_Rpc_Cmd a)"
  by (cases c; cases "completes we c") (auto simp: is_rpc_cmd_def)

lemma completes_no_start: "completes we c = Some eo \<Longrightarrow> started (c # cs) = started cs"
  by (cases c) (auto simp: completes_def)

lemma not_rpc_no_start: "\<not> is_rpc_cmd we c \<Longrightarrow> started (c # cs) = started cs"
  by (cases c) (auto simp: is_rpc_cmd_def)

lemma started_eq:
  "started (c # cs) = started cs \<Longrightarrow> starts h p (c # cs) = starts h p cs
     \<and> fresh_starts (c # cs) pw = fresh_starts cs pw"
  by (simp add: starts_def fresh_starts_def)

text \<open>What one turn of the loop keeps, and what it counts.\<close>

lemma worker_step_counts:
  assumes "rpcs_ok (p, w)" and "fresh_starts (c # cs) (p, w)"
    and "worker_step we t c (p, w) = Inr (b, (p', w'))"
  shows "rpcs_ok (p', w') \<and> fresh_starts cs (p', w') \<and>
    told h p' + card (waiting h (p', w')) + starts h p' cs =
      told h p + card (waiting h (p, w)) + starts h p (c # cs)"
proof (cases "is_rpc_cmd we c")
  case True
  then show ?thesis
  proof (cases rule: is_rpc_cmd_cases)
    case (1 a)
    obtain c' where c': "rc_heap p a = Some c'" "remote_response_map w (rc_event_id c') = None"
      "worker_step we t (Start_Rpc_Cmd a) (p, w) =
        Inr (True, (p, w\<lparr>remote_response_map := (remote_response_map w)(rc_event_id c' \<mapsto> a)\<rparr>))"
      using started_step [OF assms(1) assms(2) [unfolded 1]] by blast
    show ?thesis
      using started_counts [OF assms(1) assms(2) [unfolded 1] c'(1,2)] assms(3) c'(3) 1 by simp
  next
    case (2 ev oc)
    have "finish oc ev (p, w) = Inr (p', w')"
      using assms(3) unfolding worker_step_completes [OF 2] by (auto simp: result_simps)
    moreover have "starts h p (c # cs) = starts h p cs" "fresh_starts cs (p, w)"
      using started_eq [OF completes_no_start [OF 2]] assms(2) by simp_all
    ultimately show ?thesis using finished_counts [OF assms(1)] by simp
  qed
next
  case False
  have "same_rpcs (p, w) (p', w')"
    using worker_step_same [OF assms(3)] not_rpc_cmd [OF False] by simp
  then show ?thesis
    using same_rpcs_counts [of "(p, w)" "(p', w')"] assms(1,2)
      started_eq [OF not_rpc_no_start [OF False]] by simp
qed

lemma worker_loop_counts:
  assumes "rpcs_ok (p, w)" and "fresh_starts cs (p, w)" and "Quit_Worker_Cmd \<notin> set cs"
    and "worker_loop we t cs (p, w) = Inr (b, rest, (p', w'))"
  shows "rpcs_ok (p', w') \<and> told h p' + card (waiting h (p', w')) =
    told h p + card (waiting h (p, w)) + starts h p cs"
  using assms
proof (induction cs arbitrary: p w)
  case Nil
  then show ?case by (simp add: starts_def)
next
  case (Cons c cs)
  obtain p1 w1 where 1: "worker_step we t c (p, w) = Inr (True, (p1, w1))"
    "worker_loop we t cs (p1, w1) = Inr (b, rest, (p', w'))"
    using Cons.prems(3,4)
    by (cases c) (fastforce simp: worker_step_def result_simps)+
  note step = worker_step_counts [OF Cons.prems(1,2) 1(1), of h]
  then show ?case using Cons.IH [OF _ _ _ 1(2)] Cons.prems(3) by simp
qed

text \<open>Rpc commands never fail.\<close>

lemma rpc_step_succeeds:
  assumes "rpcs_ok (p, w)" and "fresh_starts (c # cs) (p, w)" and "is_rpc_cmd we c"
  shows "\<exists>p' w'. worker_step we t c (p, w) = Inr (True, (p', w'))"
  using assms(3)
proof (cases rule: is_rpc_cmd_cases)
  case (1 a)
  then show ?thesis using started_step assms(1,2) by blast
next
  case (2 ev oc)
  then show ?thesis
    by (simp add: worker_step_completes finish_eq [OF assms(1)] split: option.split)
qed

lemma worker_loop_rpcs:
  assumes "rpcs_ok (p, w)" and "fresh_starts cs (p, w)" and "\<forall>c \<in> set cs. is_rpc_cmd we c"
  shows "\<exists>p' w'. worker_loop we t cs (p, w) = Inr (True, [], (p', w'))"
  using assms
proof (induction cs arbitrary: p w)
  case (Cons c cs)
  have "is_rpc_cmd we c" using Cons.prems(3) by simp
  from rpc_step_succeeds [OF Cons.prems(1,2) this, of t]
  obtain p1 w1 where 1: "worker_step we t c (p, w) = Inr (True, (p1, w1))" by blast
  show ?case
    using Cons.IH [of p1 w1] worker_step_counts [OF Cons.prems(1,2) 1] Cons.prems(3) 1 by simp
qed simp

lemma worker_loop_quit:
  assumes "Quit_Worker_Cmd \<notin> set cs"
  shows "worker_loop we t (cs @ Quit_Worker_Cmd # rest) pw =
    bindE (worker_loop we t cs pw) (\<lambda>(_, _, pw). Inr (False, rest, pw))"
  using assms
proof (induction cs arbitrary: pw)
  case Nil
  then show ?case by (simp add: worker_step_def)
next
  case (Cons c cs)
  show ?case
  proof (cases "worker_step we t c pw")
    case (Inr r)
    obtain b pw' where r: "r = (b, pw')" by (cases r)
    have b
      using Cons.prems Inr unfolding r by (cases c) (auto simp: worker_step_def result_simps)
    then show ?thesis using Cons Inr r by simp
  qed simp
qed

section \<open>Starting and stopping the group\<close>

lemma unat_thread_index:
  assumes "i < nat (sint (n :: int32))"
  shows "unat (word_of_nat i :: int32) = i" "(word_of_nat i :: int32) < n"
proof -
  have "sint n < 2147483648" using sint_lt [of n] by simp
  then have "i < 4294967296" using assms by linarith
  then have "i < 2 ^ 32" by simp
  then show i: "unat (word_of_nat i :: int32) = i"
    by (simp add: unsigned_of_nat take_bit_nat_eq_self_iff)
  have "0 < sint n" using assms by simp
  then show "(word_of_nat i :: int32) < n"
    using assms i by (simp add: word_less_nat_alt sint_pos_unat)
qed

lemma add_workers:
  assumes "k \<le> nat (sint n)"
  shows "foldE add_worker (map word_of_nat [0..<k])
      \<lparr>wc_workers = n, worker_cmd_queues = replicate (nat (sint n)) None\<rparr> =
    Inr \<lparr>wc_workers = n, worker_cmd_queues = replicate k (Some []) @ replicate (nat (sint n) - k) None\<rparr>"
  using assms
proof (induction k)
  case (Suc k)
  let ?m = "nat (sint n)"
  have "k < ?m" using Suc.prems by simp
  note k = unat_thread_index [OF this]
  have "replicate (?m - k) None = None # replicate (?m - Suc k) (None :: worker_cmd list option)"
    using \<open>k < ?m\<close> by (simp flip: replicate_Suc add: Suc_diff_Suc)
  then have "(replicate k (Some []) @ replicate (?m - k) None)[k := Some []] =
      replicate (Suc k) (Some []) @ replicate (?m - Suc k) (None :: worker_cmd list option)"
    by (simp add: list_update_append replicate_append_same)
  then show ?case
    using Suc.IH Suc.prems k \<open>k < ?m\<close>
    by (simp add: foldE_append add_worker_def set_cmd_queue_def nth_append)
qed simp

lemma new_group:
  assumes "0 < sint threads"
  shows "\<exists>ws wc. new_worker_thread_group threads = Inr (ws, wc) \<and> commander_ok wc
    \<and> wc_workers wc = threads \<and> length ws = nat (sint threads)
    \<and> (\<forall>i < threads. queue_of wc i = [])"
proof -
  let ?wc = "\<lparr>wc_workers = threads, worker_cmd_queues = replicate (nat (sint threads)) (Some [])\<rparr>"
  have "commander_ok ?wc" using assms by (simp add: commander_ok_def)
  moreover have "queue_of ?wc i = []" if "i < threads" for i
    using commander_ok_bound [OF calculation, of i] that by (simp add: queue_of_def)
  ultimately show ?thesis
    using assms add_workers [of "nat (sint threads)" threads]
    by (simp add: new_worker_thread_group_def new_workers_commander_def)
qed

lemma group_quit_upto:
  assumes "commander_ok wc" and "k \<le> nat (sint (wc_workers wc))"
  shows "\<exists>wc'. foldE quit_worker (map word_of_nat [0..<k]) wc = Inr wc' \<and> commander_ok wc'
    \<and> wc_workers wc' = wc_workers wc
    \<and> (\<forall>i. queue_of wc' i = (if unat i < k then queue_of wc i @ [Quit_Worker_Cmd] else queue_of wc i))"
  using assms(2)
proof (induction k)
  case 0
  then show ?case using assms(1) by simp
next
  case (Suc k)
  then obtain wc1 where 1: "foldE quit_worker (map word_of_nat [0..<k]) wc = Inr wc1"
    "commander_ok wc1" "wc_workers wc1 = wc_workers wc"
    "\<forall>i. queue_of wc1 i = (if unat i < k then queue_of wc i @ [Quit_Worker_Cmd] else queue_of wc i)"
    by auto
  have "k < nat (sint (wc_workers wc))" using Suc.prems by simp
  note k = unat_thread_index [OF this]
  have lt: "word_of_nat k < wc_workers wc1" using k(2) 1(3) by simp
  have i: "i = word_of_nat k \<longleftrightarrow> unat i = k" for i :: int32
    using k(1) by (metis word_unat_eq_iff)
  have "quit_worker (word_of_nat k) wc1 = Inr (push (word_of_nat k) Quit_Worker_Cmd wc1)"
    using commander_ok_legal [OF 1(2) lt] by (simp add: commander_defs)
  moreover have "commander_ok (push (word_of_nat k) Quit_Worker_Cmd wc1)"
    using commander_ok_push [OF 1(2) lt] .
  moreover have "queue_of (push (word_of_nat k) Quit_Worker_Cmd wc1) i =
      (if unat i < Suc k then queue_of wc i @ [Quit_Worker_Cmd] else queue_of wc i)" for i
    using queue_of_push [OF 1(2) lt, of _ i] 1(4) i [of i] by (auto simp: less_Suc_eq)
  ultimately show ?case using 1 by (simp add: foldE_append)
qed

lemma group_quit_eq:
  assumes "commander_ok wc"
  shows "\<exists>wc'. group_quit wc = Inr wc' \<and> commander_ok wc' \<and> wc_workers wc' = wc_workers wc
    \<and> (\<forall>i < wc_workers wc. queue_of wc' i = queue_of wc i @ [Quit_Worker_Cmd])"
proof -
  have "nat (sint (wc_workers wc)) = unat (wc_workers wc)"
    using assms by (simp add: commander_ok_def sint_pos_unat)
  then show ?thesis
    using group_quit_upto [OF assms, of "nat (sint (wc_workers wc))"]
    by (auto simp: group_quit_def word_less_nat_alt)
qed

end
