(* ===== verification/Worker_Spec.thy ===== *)
theory Worker_Spec
  imports Worker
begin

text \<open>
  What a worker does for the two sides of a connection. For a client: every response handler is
  called exactly once, by the first outcome of its rpc. For a server: a request calls the method
  it names on the connection's own service, or is refused with the error code of what is missing.
  And how the group of workers stops.
\<close>

section \<open>Requests: specification\<close>

datatype request_outcome = Served nat nat | Refused int string

text \<open>The class of a service, \<open>None\<close> when it adapts an object that is gone.\<close>

definition class_of :: "process \<Rightarrow> iservice \<Rightarrow> nat option" where
  "class_of p s = (case s of Mono_State_Service r \<Rightarrow> user_heap p r | User_Service k \<Rightarrow> Some k)"

text \<open>What becomes of a request, given the class of the service it names, if there is one.\<close>

definition outcome_of ::
  "service_env \<Rightarrow> nat option \<Rightarrow> string \<Rightarrow> string \<Rightarrow> bytes \<Rightarrow> request_outcome" where
  "outcome_of se cls name meth payload = (case cls of
     None \<Rightarrow> Refused NO_SUCH_SERVICE (''Invalid service: '' @ name)
   | Some k \<Rightarrow> (case se_find_method se k meth of
       None \<Rightarrow> Refused NO_SUCH_METHOD []
     | Some d \<Rightarrow> if se_parses se k d payload then Served k d else Refused INVALID_MESSAGE []))"

definition error_header :: "uint64 \<Rightarrow> int \<Rightarrow> string \<Rightarrow> rpc_header" where
  "error_header ev code msg = \<lparr>req_hdr = None, resp_hdr = Some \<lparr>rs_error_code = Some code,
     rs_error_str = (if msg = [] then None else Some msg), rs_event_id = Some ev\<rparr>\<rparr>"

definition answered ::
  "header_codec \<Rightarrow> thread \<Rightarrow> connection_info \<Rightarrow> uint64 \<Rightarrow> bytes \<Rightarrow> request_outcome \<Rightarrow> process \<Rightarrow> process" where
  "answered pb t info ev payload oc p = (case oc of
     Served k d \<Rightarrow> p\<lparr>user_calls := user_calls p @ [Call_Method k d payload info ev]\<rparr>
   | Refused code msg \<Rightarrow>
       fe_sends t (reply_frames_of info (the (serialize_hdr pb (error_header ev code msg))) []) p)"

text \<open>The class of the service a handler has under a name.\<close>

definition named_class :: "process \<Rightarrow> request_handler \<Rightarrow> string \<Rightarrow> nat option" where
  "named_class p rh name = (case map_of (service_map rh) name of None \<Rightarrow> None
     | Some svc \<Rightarrow> (case svc_heap p svc of None \<Rightarrow> None | Some s \<Rightarrow> class_of p s))"

definition refs_live :: "process \<Rightarrow> request_handler \<Rightarrow> bool" where
  "refs_live p rh \<longleftrightarrow> (\<forall>svc \<in> snd ` set (service_map rh). \<forall>s.
     svc_heap p svc = Some s \<longrightarrow> class_of p s \<noteq> None)"

definition serializes :: "header_codec \<Rightarrow> bool" where
  "serializes pb \<longleftrightarrow> (\<forall>h. serialize_hdr pb h \<noteq> None)"

lemma reply_error_answered:
  assumes "serializes pb"
  shows "replier_reply_error pb t \<lparr>rep_conn = info, rep_event_id = ev\<rparr> code msg p =
    Inr (answered pb t info ev payload (Refused code msg) p)"
proof -
  obtain b where "serialize_hdr pb (error_header ev code msg) = Some b"
    using assms unfolding serializes_def by blast
  then show ?thesis
    by (cases "msg = []") (simp_all add: replier_reply_error_def connection_reply_error_def Let_def
        connection_reply_header_def mv_push_back_def connection_reply_vector_eq answered_def
        error_header_def rpc_header_default_def)
qed

lemma cpp_dispatch_answered:
  assumes "serializes pb"
  shows "cpp_service_dispatch_request pb se t cls meth payload \<lparr>rep_conn = info, rep_event_id = ev\<rparr> p
    = Inr (answered pb t info ev payload (outcome_of se (Some cls) name meth payload) p)"
  using reply_error_answered [OF assms]
  by (simp add: cpp_service_dispatch_request_def outcome_of_def answered_def call_method_def
      split: option.split)

lemma handle_request_answered:
  assumes "serializes (we_codec we)" and "mgr_alive p" and "handler_ok p rh" and "refs_live p rh"
  defines "name \<equiv> \<lambda>rq. get_or [] (rq_service rq)"
  shows "handler_handle_request (we_codec we) (we_services we) t rh rq data p =
    Inr (answered (we_codec we) t (rh_conn_info rh) (get_or 0 (rq_event_id rq)) data
      (outcome_of (we_services we) (named_class p rh (name rq)) (name rq) (get_or [] (rq_method rq)) data) p)"
proof (cases "map_of (service_map rh) (name rq)")
  case None
  then show ?thesis
    using assms(2) reply_error_answered [OF assms(1)]
    by (simp add: handler_handle_request_def connection_of_info_def manager_get_def Let_def name_def
        named_class_def outcome_of_def)
next
  case (Some svc)
  obtain s where s: "svc \<noteq> NULL" "svc_heap p svc = Some s"
    using handler_ok_service [OF assms(3) Some] by blast
  have "svc \<in> snd ` set (service_map rh)" using map_of_SomeD [OF Some] by force
  then obtain k where "class_of p s = Some k" using assms(4) s(2) unfolding refs_live_def by blast
  then show ?thesis
    using Some s assms(2) cpp_dispatch_answered [OF assms(1), where name = "name rq"]
    by (cases s) (simp_all add: handler_handle_request_def connection_of_info_def manager_get_def
        Let_def name_def named_class_def class_of_def dispatch_request_def mono_state_dispatch_request_def)
qed

section \<open>New connections: specification\<close>

text \<open>The factories from which the handler of a new connection makes its services.\<close>

definition factories_for :: "connection_info \<Rightarrow> process \<Rightarrow> service_factory_map" where
  "factories_for info p = (if \<not> ci_is_router info then []
     else case map_of (mgr_factories p) (ci_index info) of None \<Rightarrow> []
     | Some a \<Rightarrow> (case fm_heap p a of None \<Rightarrow> [] | Some m \<Rightarrow> m))"

definition factories_ok :: "process \<Rightarrow> bool" where
  "factories_ok p \<longleftrightarrow> (\<forall>i a. map_of (mgr_factories p) i = Some a \<longrightarrow> a \<noteq> NULL \<and>
     (\<exists>m. fm_heap p a = Some m \<and> map_ok m \<and> (\<forall>f \<in> snd ` set m. class_of p (service_of f) \<noteq> None)))"

lemma factories_for_ok:
  assumes "factories_ok p"
  shows "map_ok (factories_for info p)"
    "\<forall>f \<in> snd ` set (factories_for info p). class_of p (service_of f) \<noteq> None"
proof -
  have "map_ok (factories_for info p)
    \<and> (\<forall>f \<in> snd ` set (factories_for info p). class_of p (service_of f) \<noteq> None)"
  proof (cases "ci_is_router info \<and> map_of (mgr_factories p) (ci_index info) \<noteq> None")
    case True
    then obtain a where a: "map_of (mgr_factories p) (ci_index info) = Some a" by blast
    with assms obtain m where "fm_heap p a = Some m" "map_ok m"
      "\<forall>f \<in> snd ` set m. class_of p (service_of f) \<noteq> None"
      unfolding factories_ok_def by blast
    with a True show ?thesis by (simp add: factories_for_def)
  qed (auto simp: factories_for_def)
  then show "map_ok (factories_for info p)"
    "\<forall>f \<in> snd ` set (factories_for info p). class_of p (service_of f) \<noteq> None" by simp_all
qed

lemma create_services_factories:
  assumes "mgr_alive p" and "factories_ok p" and "rh_conn_info rh = info"
  shows "create_services (p, rh) =
    foldE (\<lambda>(name, f). create_and_register_service name f) (factories_for info p) (p, rh)"
proof (cases "ci_is_router info \<and> map_of (mgr_factories p) (ci_index info) \<noteq> None")
  case True
  then obtain a where a: "map_of (mgr_factories p) (ci_index info) = Some a" by blast
  with assms(2) obtain m where "a \<noteq> NULL" "fm_heap p a = Some m"
    unfolding factories_ok_def by blast
  with a assms True show ?thesis
    by (simp add: create_services_def factories_for_def manager_get_def
        router_service_factories_get_def service_factory_map_for_each_def deref_fm_def)
next
  case False
  with assms show ?thesis
    by (auto simp: create_services_def factories_for_def manager_get_def
        router_service_factories_get_def)
qed

text \<open>
  \<open>owns p p1 rh fs\<close>: the handler \<open>rh\<close> has one service for each of the factories \<open>fs\<close>, each made
  since \<open>p\<close> and no other's, and nothing else has changed up to \<open>p1\<close>.
\<close>

definition owns :: "process \<Rightarrow> process \<Rightarrow> request_handler \<Rightarrow> service_factory_map \<Rightarrow> bool" where
  "owns p p1 rh fs \<longleftrightarrow> handler_ok p1 rh \<and> fst ` set (service_map rh) = fst ` set fs
     \<and> (\<forall>(n, f) \<in> set fs. \<exists>svc. map_of (service_map rh) n = Some svc
          \<and> svc_heap p svc = None \<and> svc_heap p1 svc = Some (service_of f))
     \<and> (\<forall>a. svc_heap p a \<noteq> None \<longrightarrow> svc_heap p1 a = svc_heap p a)
     \<and> tss_fe_socket p1 = tss_fe_socket p \<and> user_calls p1 = user_calls p
     \<and> mgr_alive p1 = mgr_alive p \<and> user_heap p1 = user_heap p"

lemma new_handler_owns:
  assumes "mgr_alive p" and "factories_ok p" and "fresh_addrs p"
    and "unat (next_addr p) + length (factories_for info p) < 2 ^ 64"
  shows "\<exists>p1 rh. new_request_handler info p = Inr (p1, rh) \<and> rh_conn_info rh = info
    \<and> fresh_addrs p1 \<and> owns p p1 rh (factories_for info p)"
proof -
  let ?rh = "\<lparr>service_map = [], rh_conn_info = info\<rparr>"
  have new: "new_request_handler info p =
      foldE (\<lambda>(name, f). create_and_register_service name f) (factories_for info p) (p, ?rh)"
    unfolding new_request_handler_def by (rule create_services_factories) (simp_all add: assms)
  show ?thesis
    using create_all [of p ?rh, OF handler_ok_empty assms(3,4) factories_for_ok(1) [OF assms(2)]]
    unfolding new owns_def by fastforce
qed

lemma owned_class:
  assumes "owns p p1 rh fs" and "map_ok fs"
  shows "named_class p1 rh name = (case map_of fs name of None \<Rightarrow> None
    | Some f \<Rightarrow> class_of p (service_of f))"
proof (cases "map_of fs name")
  case None
  then have "name \<notin> fst ` set (service_map rh)"
    using assms(1) by (simp add: owns_def map_of_None_keys)
  then have "map_of (service_map rh) name = None" by (simp add: map_of_None_keys)
  with None show ?thesis by (simp add: named_class_def)
next
  case (Some f)
  then obtain svc where "map_of (service_map rh) name = Some svc" "svc_heap p1 svc = Some (service_of f)"
    using assms(1) map_of_SomeD [OF Some] unfolding owns_def by blast
  moreover have "user_heap p1 = user_heap p" using assms(1) by (simp add: owns_def)
  ultimately show ?thesis
    using Some by (cases "service_of f") (simp_all add: named_class_def class_of_def)
qed

lemma owned_refs_live:
  assumes "owns p p1 rh fs" and "map_ok fs" and "\<forall>f \<in> snd ` set fs. class_of p (service_of f) \<noteq> None"
  shows "refs_live p1 rh"
  unfolding refs_live_def
proof (intro ballI allI impI)
  fix svc s assume svc: "svc \<in> snd ` set (service_map rh)" "svc_heap p1 svc = Some s"
  have "map_ok (service_map rh)" using assms(1) by (simp add: owns_def handler_ok_def)
  then obtain n where n: "map_of (service_map rh) n = Some svc"
    using map_ok_value [OF _ svc(1)] by blast
  have keys: "fst ` set (service_map rh) = fst ` set fs" using assms(1) by (simp add: owns_def)
  have "n \<in> fst ` set fs" using map_of_SomeD [OF n] unfolding keys [symmetric] by force
  then obtain f where f: "(n, f) \<in> set fs" by force
  then have "map_of fs n = Some f" by (rule map_ok_Some [OF assms(2)])
  then have "named_class p1 rh n = class_of p (service_of f)"
    using owned_class [OF assms(1,2)] by simp
  moreover have "class_of p (service_of f) \<noteq> None" using assms(3) f by force
  ultimately show "class_of p1 s \<noteq> None" using n svc(2) by (simp add: named_class_def)
qed

lemma get_handler_known: "m info = Some rh \<Longrightarrow> get_handler info (p, m) = Inr (p, m)"
  by (simp add: get_handler_def)

lemma get_handler_new:
  assumes "mgr_alive p" and "factories_ok p" and "fresh_addrs p" and "m info = None"
    and "unat (next_addr p) + length (factories_for info p) < 2 ^ 64"
  shows "\<exists>p1 rh. get_handler info (p, m) = Inr (p1, m(info \<mapsto> rh)) \<and> rh_conn_info rh = info
    \<and> fresh_addrs p1 \<and> owns p p1 rh (factories_for info p)"
  using new_handler_owns [OF assms(1-3,5)] assms(4)
  by (fastforce simp: get_handler_def insert_new_handler_def)

text \<open>A data command that carries a request, and one that carries a response.\<close>

definition is_request :: "worker_env \<Rightarrow> handle_data_cmd \<Rightarrow> connection_info \<Rightarrow> rpc_request_header \<Rightarrow> bool" where
  "is_request we d info rq \<longleftrightarrow> hd_info d = Some info \<and>
     (case parse_hdr (we_codec we) (hd_header d) of None \<Rightarrow> False | Some hdr \<Rightarrow> req_hdr hdr = Some rq)"

lemma request_step:
  assumes "is_request we d info rq"
  shows "worker_step we t (Handle_Data_Cmd d) pw =
    bindE (worker_handle_request we t rq d pw) (\<lambda>pw. Inr (True, pw))"
  using assms by (auto simp: is_request_def worker_step_def worker_handle_data_def split: option.splits)

text \<open>The outcome of a request and the effect of it, spelled out for a request header.\<close>

definition served_by ::
  "worker_env \<Rightarrow> thread \<Rightarrow> connection_info \<Rightarrow> rpc_request_header \<Rightarrow> bytes \<Rightarrow> nat option \<Rightarrow> process \<Rightarrow> process" where
  "served_by we t info rq payload cls p =
     answered (we_codec we) t info (get_or 0 (rq_event_id rq)) payload
       (outcome_of (we_services we) cls (get_or [] (rq_service rq)) (get_or [] (rq_method rq)) payload) p"

lemma worker_request_known:
  assumes "is_request we d info rq" and "request_handler_map w info = Some rh"
    and "serializes (we_codec we)" and "mgr_alive p" and "handler_ok p rh" and "refs_live p rh"
    and "rh_conn_info rh = info"
  shows "worker_handle_request we t rq d (p, w) =
    Inr (served_by we t info rq (hd_payload d) (named_class p rh (get_or [] (rq_service rq))) p, w)"
  using assms(1,2,7) handle_request_answered [OF assms(3-6)]
  by (simp add: worker_handle_request_def is_request_def get_handler_known served_by_def)

lemma worker_request_new:
  assumes "is_request we d info rq" and "request_handler_map w info = None"
    and "serializes (we_codec we)" and "mgr_alive p" and "factories_ok p" and "fresh_addrs p"
    and "unat (next_addr p) + length (factories_for info p) < 2 ^ 64"
  shows "\<exists>p1 rh. owns p p1 rh (factories_for info p) \<and> rh_conn_info rh = info \<and>
    worker_handle_request we t rq d (p, w) = Inr (served_by we t info rq (hd_payload d)
      (case map_of (factories_for info p) (get_or [] (rq_service rq)) of None \<Rightarrow> None
       | Some f \<Rightarrow> class_of p (service_of f)) p1,
      w\<lparr>request_handler_map := (request_handler_map w)(info \<mapsto> rh)\<rparr>)"
proof -
  obtain p1 rh where 1: "get_handler info (p, request_handler_map w) =
      Inr (p1, (request_handler_map w)(info \<mapsto> rh))" "rh_conn_info rh = info"
    "owns p p1 rh (factories_for info p)"
    using get_handler_new [where m = "request_handler_map w", OF assms(4-6,2,7)] by blast
  note fs = factories_for_ok [OF assms(5), of info]
  have "mgr_alive p1" "handler_ok p1 rh" using 1(3) assms(4) by (simp_all add: owns_def)
  moreover have "refs_live p1 rh" by (rule owned_refs_live [OF 1(3) fs])
  ultimately have "worker_handle_request we t rq d (p, w) = Inr (served_by we t info rq (hd_payload d)
      (named_class p1 rh (get_or [] (rq_service rq))) p1,
      w\<lparr>request_handler_map := (request_handler_map w)(info \<mapsto> rh)\<rparr>)"
    using assms(1) 1(1,2) handle_request_answered [OF assms(3)]
    by (simp add: worker_handle_request_def is_request_def served_by_def)
  then show ?thesis using 1(2,3) unfolding owned_class [OF 1(3) fs(1)] by blast
qed

section \<open>A small process for the witnesses\<close>

text \<open>
  Headers are one byte here: a request for \<open>s.m\<close>, and a response, both of event 7. Class 3 has one
  method; the factory map at address 4 has one service \<open>s\<close> of that class.
\<close>

definition demo_request :: rpc_request_header where
  "demo_request = \<lparr>rq_event_id = Some 7, rq_service = Some ''s'', rq_method = Some ''m''\<rparr>"

definition demo_response :: rpc_response_header where
  "demo_response = \<lparr>rs_error_code = None, rs_error_str = None, rs_event_id = Some 7\<rparr>"

definition demo_codec :: header_codec where
  "demo_codec = \<lparr>serialize_hdr = (\<lambda>h. Some ''e''), parse_hdr = (\<lambda>b.
     if b = ''q'' then Some \<lparr>req_hdr = Some demo_request, resp_hdr = None\<rparr>
     else if b = ''r'' then Some \<lparr>req_hdr = None, resp_hdr = Some demo_response\<rparr> else None)\<rparr>"

definition demo_we :: worker_env where
  "demo_we = \<lparr>we_codec = demo_codec,
     we_services = \<lparr>se_find_method = (\<lambda>k m. if m = ''m'' then Some 0 else None),
       se_parses = (\<lambda>k d b. True)\<rparr>,
     we_lexical_cast = (\<lambda>n. ''n'')\<rparr>"

definition demo_conn :: connection_info where
  "demo_conn = \<lparr>ci_is_router = True, ci_index = 1, ci_sender = ''c''\<rparr>"

definition demo_controller :: rpc_controller where
  "demo_controller = \<lparr>rc_event_id = 7, rc_handler = Handler 5, rc_timeout_ms = - 1\<rparr>"

definition demo_process :: process where
  "demo_process = \<lparr>mgr_alive = True, frontend_endpoint = ''f'', tss_fe_socket = Map.empty,
     next_event_id = 8, mgr_factories = [(1, 4)], terminated = new_sync_event,
     fm_heap = [4 \<mapsto> [(''s'', Default_Service_Factory 3)]], svc_heap = [5 \<mapsto> User_Service 3],
     user_heap = Map.empty, rc_heap = [6 \<mapsto> demo_controller], next_addr = 10, user_calls = []\<rparr>"

definition demo_handler :: request_handler where
  "demo_handler = \<lparr>service_map = [(''s'', 5)], rh_conn_info = demo_conn\<rparr>"

definition demo_data :: "bytes \<Rightarrow> worker_cmd" where
  "demo_data b = Handle_Data_Cmd \<lparr>hd_info = Some demo_conn, hd_header = b, hd_payload = ''p''\<rparr>"

lemmas demo_defs = demo_request_def demo_response_def demo_codec_def demo_we_def demo_conn_def
  demo_controller_def demo_process_def demo_handler_def demo_data_def

lemma demo_process_fields:
  "mgr_alive demo_process" "mgr_factories demo_process = [(1, 4)]"
  "fm_heap demo_process = [4 \<mapsto> [(''s'', Default_Service_Factory 3)]]"
  "svc_heap demo_process = [5 \<mapsto> User_Service 3]" "next_addr demo_process = 10"
  "user_calls demo_process = []" "rc_heap demo_process = [6 \<mapsto> demo_controller]"
  "we_services demo_we = \<lparr>se_find_method = (\<lambda>k m. if m = ''m'' then Some 0 else None),
     se_parses = (\<lambda>k d b. True)\<rparr>"
  "service_map demo_handler = [(''s'', 5)]" "rh_conn_info demo_handler = demo_conn"
  "ci_is_router demo_conn" "ci_index demo_conn = 1"
  by (simp_all add: demo_defs)

lemma demo_served:
  "served_by demo_we t demo_conn demo_request ''p'' (Some 3) p =
     p\<lparr>user_calls := user_calls p @ [Call_Method 3 0 ''p'' demo_conn 7]\<rparr>"
  by (simp add: served_by_def answered_def outcome_of_def demo_request_def demo_process_fields)

lemma demo_named: "named_class demo_process demo_handler ''s'' = Some 3"
  by (simp add: named_class_def class_of_def demo_process_fields)

lemma demo_rpcs: "rpcs_ok (demo_process, new_worker 0)"
  by (simp add: rpcs_ok_def new_worker_def)

lemma demo_waiting: "rpcs_ok (demo_process, (new_worker 0)\<lparr>remote_response_map := [7 \<mapsto> 6]\<rparr>)"
  by (simp add: rpcs_ok_def new_worker_def demo_defs)

lemma demo_starts: "fresh_starts [Start_Rpc_Cmd 6, demo_data ''r'', Handle_Timeout_Cmd 7]
    (demo_process, new_worker 0)"
  by (auto simp: fresh_starts_def own_events_def new_worker_def demo_defs split: if_splits)

lemma demo_completes:
  "completes demo_we (demo_data ''r'') = Some (7, (None, Some ''p''))"
  "completes demo_we (Handle_Timeout_Cmd 7) = Some (7, timeout_outcome demo_we)"
  by (simp_all add: completes_def demo_defs response_outcome_def)

lemma demo_rpc_cmds: "is_rpc_cmd we (Start_Rpc_Cmd a)" "is_rpc_cmd demo_we (demo_data ''r'')"
  "is_rpc_cmd we (Handle_Timeout_Cmd ev)"
  by (simp_all add: is_rpc_cmd_def completes_def demo_data_def demo_we_def demo_codec_def)

lemma demo_loop: "\<exists>p' w'. worker_loop demo_we t [Start_Rpc_Cmd 6, demo_data ''r'', Handle_Timeout_Cmd 7]
     (demo_process, new_worker 0) = Inr (True, [], (p', w'))"
  by (rule worker_loop_rpcs [OF demo_rpcs demo_starts]) (use demo_rpc_cmds in simp)

section \<open>The client's side\<close>

text \<open>
  Whatever commands a worker is given, as long as every rpc is started once and has an event
  of its own, the calls of a response handler and the rpcs that still wait for one add up: what
  has been called plus what waits afterwards is what had been called plus what waited before plus
  what has been started. No response handler is called twice, and none is forgotten.
\<close>

theorem each_rpc_told_once:
  assumes "rpcs_ok (p, w)" and "fresh_starts cs (p, w)" and "Quit_Worker_Cmd \<notin> set cs"
    and "worker_loop we t cs (p, w) = Inr (b, rest, (p', w'))"
  shows "rpcs_ok (p', w') \<and> told h p' + card (waiting h (p', w')) =
    told h p + card (waiting h (p, w)) + starts h p cs"
  by (rule worker_loop_counts [OF assms])

theorem each_rpc_told_once_witness:
  "\<exists>p' w'. worker_loop demo_we 0 [Start_Rpc_Cmd 6, demo_data ''r'', Handle_Timeout_Cmd 7]
     (demo_process, new_worker 0) = Inr (True, [], (p', w'))
    \<and> told 5 p' + card (waiting 5 (p', w')) = 1"
proof -
  obtain p' w' where l: "worker_loop demo_we 0 [Start_Rpc_Cmd 6, demo_data ''r'', Handle_Timeout_Cmd 7]
     (demo_process, new_worker 0) = Inr (True, [], (p', w'))" using demo_loop by blast
  have "told 5 p' + card (waiting 5 (p', w')) = 1"
    using each_rpc_told_once [OF demo_rpcs demo_starts _ l, where h = 5]
    by (simp add: demo_data_def) (simp add: told_def handler_calls_def demo_process_def waiting_def
        new_worker_def starts_def demo_controller_def List.map_filter_def)
  with l show ?thesis by blast
qed

text \<open>
  Commands on behalf of rpcs (starts, responses, errors, timeouts, in any order, also for
  events that are not pending) never fail: the worker executes all of them and waits for more.
\<close>

theorem rpc_commands_succeed:
  assumes "rpcs_ok (p, w)" and "fresh_starts cs (p, w)" and "\<forall>c \<in> set cs. is_rpc_cmd we c"
  shows "\<exists>p' w'. worker_loop we t cs (p, w) = Inr (True, [], (p', w'))"
  by (rule worker_loop_rpcs [OF assms])

theorem rpc_commands_succeed_witness:
  "\<exists>p' w'. worker_loop demo_we 0 [Start_Rpc_Cmd 6, demo_data ''r'', Handle_Timeout_Cmd 7]
     (demo_process, new_worker 0) = Inr (True, [], (p', w'))"
  by (rule rpc_commands_succeed [OF demo_rpcs demo_starts])
    (use demo_rpc_cmds in simp)

text \<open>
  C23: The first outcome of a pending rpc wins. Its handler is called with that outcome, the
  controller is deleted, and a later outcome of the same event (the other of response and
  timeout, or a second response) changes nothing.
\<close>

theorem first_outcome_wins:
  assumes "rpcs_ok (p, w)" and "remote_response_map w ev = Some a" and "rc_heap p a = Some c"
    and "completes we c1 = Some (ev, oc1)" and "completes we c2 = Some (ev, oc2)"
  shows "worker_loop we t [c1, c2] (p, w) = Inr (True, [],
    (delete_controller a (call_user (map Response_Handler_Call (calls_of oc1 c)) p),
     w\<lparr>remote_response_map := (remote_response_map w)(ev := None)\<rparr>))"
  using assms(2,3) finish_eq [OF assms(1)]
  by (simp add: worker_step_completes [OF assms(4)] worker_step_completes [OF assms(5)])
    (simp add: finish_def)

theorem first_outcome_wins_witness:
  "worker_loop demo_we 0 [demo_data ''r'', Handle_Timeout_Cmd 7]
     (demo_process, (new_worker 0)\<lparr>remote_response_map := [7 \<mapsto> 6]\<rparr>) = Inr (True, [],
    (demo_process\<lparr>rc_heap := Map.empty, user_calls := [Response_Handler_Call
        \<lparr>hc_target = 5, hc_error = None, hc_data = Some ''p''\<rparr>]\<rparr>, new_worker 0))"
proof -
  have "rc_heap demo_process 6 = Some demo_controller" by (simp add: demo_process_def)
  from first_outcome_wins [OF demo_waiting _ this demo_completes(1,2), of 0] show ?thesis
    by (simp add: new_worker_def) (simp add: demo_defs delete_controller_def call_user_def calls_of_def)
qed

text \<open>
  A response completes the rpc of its event whichever connection it came from: the worker
  looks rpcs up by the event alone.
\<close>

theorem response_of_any_connection:
  assumes "completes we (Handle_Data_Cmd d) = Some (ev, oc)"
  shows "worker_step we t (Handle_Data_Cmd (d\<lparr>hd_info := i\<rparr>)) pw = worker_step we t (Handle_Data_Cmd d) pw
    \<and> worker_step we t (Handle_Data_Cmd d) pw = bindE (finish oc ev pw) (\<lambda>pw. Inr (True, pw))"
proof -
  have "completes we (Handle_Data_Cmd (d\<lparr>hd_info := i\<rparr>)) = Some (ev, oc)"
    using assms by (auto simp: completes_def split: option.splits if_splits)
  then show ?thesis by (simp add: worker_step_completes assms)
qed

theorem response_of_any_connection_witness:
  "worker_step demo_we 0 (Handle_Data_Cmd \<lparr>hd_info = None, hd_header = ''r'', hd_payload = ''p''\<rparr>)
      (demo_process, new_worker 0) =
    bindE (finish (None, Some ''p'') 7 (demo_process, new_worker 0)) (\<lambda>pw. Inr (True, pw))"
  using response_of_any_connection [OF demo_completes(1) [unfolded demo_data_def], of 0 None "(demo_process, new_worker 0)"]
  by simp

section \<open>The server's side\<close>

lemma demo_is_request:
  "is_request demo_we \<lparr>hd_info = Some demo_conn, hd_header = ''q'', hd_payload = ''p''\<rparr> demo_conn demo_request"
  by (simp add: is_request_def demo_we_def demo_codec_def)

lemma demo_serializes: "serializes (we_codec demo_we)"
  by (simp add: serializes_def demo_we_def demo_codec_def)

lemma demo_handler_ok: "handler_ok demo_process demo_handler"
  by (simp add: handler_ok_def demo_defs map_ok_def)

lemma demo_refs_live: "refs_live demo_process demo_handler"
  by (simp add: refs_live_def demo_defs class_of_def)

lemma demo_factories: "factories_ok demo_process"
  by (simp add: factories_ok_def demo_process_def map_ok_def class_of_def service_of_def)

lemma demo_fresh: "fresh_addrs demo_process"
  by (simp add: fresh_addrs_def demo_process_def)

text \<open>
  C21: A request on a connection that has a handler calls the method it names on the service it
  names, with its payload, event and connection; when the service or the method does not exist,
  or the payload does not parse, an error reply with the corresponding code goes back on the same
  connection. Nothing else changes.
\<close>

theorem request_served:
  assumes "is_request we d info rq" and "request_handler_map w info = Some rh"
    and "serializes (we_codec we)" and "mgr_alive p" and "handler_ok p rh" and "refs_live p rh"
    and "rh_conn_info rh = info"
  shows "worker_step we t (Handle_Data_Cmd d) (p, w) = Inr (True,
    (served_by we t info rq (hd_payload d) (named_class p rh (get_or [] (rq_service rq))) p, w))"
  using worker_request_known [OF assms] by (simp add: request_step [OF assms(1)])

theorem request_served_witness:
  "worker_step demo_we 0 (demo_data ''q'')
      (demo_process, (new_worker 0)\<lparr>request_handler_map := [demo_conn \<mapsto> demo_handler]\<rparr>) =
    Inr (True, (demo_process\<lparr>user_calls := [Call_Method 3 0 ''p'' demo_conn 7]\<rparr>,
      (new_worker 0)\<lparr>request_handler_map := [demo_conn \<mapsto> demo_handler]\<rparr>))"
proof -
  have m: "request_handler_map ((new_worker 0)\<lparr>request_handler_map := [demo_conn \<mapsto> demo_handler]\<rparr>)
      demo_conn = Some demo_handler" by simp
  from request_served [OF demo_is_request m demo_serializes demo_process_fields(1) demo_handler_ok
      demo_refs_live demo_process_fields(10), of 0]
  show ?thesis
    by (simp add: demo_data_def demo_served demo_named demo_process_fields
        demo_request_def [THEN arg_cong, of rq_service])
qed

text \<open>
  The first request on a connection makes its handler: one new service for each factory
  registered for the router (none for a dealer), no service shared with anybody. The request is
  then dispatched among exactly the registered names.
\<close>

theorem new_connection_served:
  assumes "is_request we d info rq" and "request_handler_map w info = None"
    and "serializes (we_codec we)" and "mgr_alive p" and "factories_ok p" and "fresh_addrs p"
    and "unat (next_addr p) + length (factories_for info p) < 2 ^ 64"
  shows "\<exists>p1 rh. owns p p1 rh (factories_for info p) \<and> rh_conn_info rh = info \<and>
    worker_step we t (Handle_Data_Cmd d) (p, w) = Inr (True,
      (served_by we t info rq (hd_payload d)
        (case map_of (factories_for info p) (get_or [] (rq_service rq)) of None \<Rightarrow> None
         | Some f \<Rightarrow> class_of p (service_of f)) p1,
       w\<lparr>request_handler_map := (request_handler_map w)(info \<mapsto> rh)\<rparr>))"
proof -
  from worker_request_new [OF assms] obtain p1 rh where
    "owns p p1 rh (factories_for info p)" "rh_conn_info rh = info"
    "worker_handle_request we t rq d (p, w) = Inr (served_by we t info rq (hd_payload d)
      (case map_of (factories_for info p) (get_or [] (rq_service rq)) of None \<Rightarrow> None
       | Some f \<Rightarrow> class_of p (service_of f)) p1,
      w\<lparr>request_handler_map := (request_handler_map w)(info \<mapsto> rh)\<rparr>)" by blast
  then show ?thesis by (intro exI [of _ p1] exI [of _ rh]) (simp add: request_step [OF assms(1)])
qed

theorem new_connection_served_witness:
  "\<exists>p1 rh. owns demo_process p1 rh [(''s'', Default_Service_Factory 3)] \<and>
    worker_step demo_we 0 (demo_data ''q'') (demo_process, new_worker 0) = Inr (True,
      (p1\<lparr>user_calls := user_calls p1 @ [Call_Method 3 0 ''p'' demo_conn 7]\<rparr>,
       (new_worker 0)\<lparr>request_handler_map := [demo_conn \<mapsto> rh]\<rparr>))"
proof -
  have f: "factories_for demo_conn demo_process = [(''s'', Default_Service_Factory 3)]"
    by (simp add: factories_for_def demo_process_fields)
  have "request_handler_map (new_worker 0) demo_conn = None" "mgr_alive demo_process"
    "unat (next_addr demo_process) + length (factories_for demo_conn demo_process) < 2 ^ 64"
    by (simp_all add: new_worker_def demo_process_fields f)
  from new_connection_served [OF demo_is_request this(1) demo_serializes this(2) demo_factories
      demo_fresh this(3), of 0]
  show ?thesis
    unfolding f demo_data_def
    by (auto simp: demo_served class_of_def service_of_def new_worker_def
        demo_request_def [THEN arg_cong, of rq_service])
qed

text \<open>
  C28: Registering the same service object twice under one name on a connection deletes it and
  keeps the dangling pointer: the next request for it uses the deleted object.
\<close>

theorem same_service_twice_dangles:
  assumes "is_request we d info rq" and "request_handler_map w info = Some rh"
    and "rh_conn_info rh = info" and "mgr_alive p" and "get_or [] (rq_service rq) = name"
    and "map_of (service_map rh) name = None" and "svc \<noteq> NULL" and "svc_heap p svc = Some s"
  shows "worker_loop we t [Register_Svc_Cmd info name svc, Register_Svc_Cmd info name svc,
    Handle_Data_Cmd d] (p, w) = Inl Use_After_Free"
proof -
  have "hd_info d = Some info" using assms(1) by (simp add: is_request_def)
  then show ?thesis
    using assms(2-8)
    by (simp add: worker_step_def [of we t "Register_Svc_Cmd info name svc"] request_step [OF assms(1)]
        worker_register_service_def get_handler_known handler_register_service_def
        unregister_service_def delete_service_def map_of_map_insert worker_handle_request_def
        handler_handle_request_def connection_of_info_def manager_get_def Let_def dispatch_request_def)
qed

theorem same_service_twice_dangles_witness:
  "worker_loop demo_we 0 [Register_Svc_Cmd demo_conn ''s'' 5, Register_Svc_Cmd demo_conn ''s'' 5,
     demo_data ''q''] (demo_process, (new_worker 0)\<lparr>request_handler_map :=
       [demo_conn \<mapsto> demo_handler\<lparr>service_map := []\<rparr>]\<rparr>) = Inl Use_After_Free"
  unfolding demo_data_def
  by (rule same_service_twice_dangles [OF demo_is_request, where rh = "demo_handler\<lparr>service_map := []\<rparr>"
        and s = "User_Service 3"]) (simp_all add: demo_process_fields demo_request_def)

text \<open>
  A worker that meets a request once the last reference to the manager is gone waits for the
  end of a destruction that itself waits for the worker.
\<close>

theorem request_blocks_on_expired_manager:
  assumes "is_request we d info rq" and "\<not> mgr_alive p"
  shows "worker_step we t (Handle_Data_Cmd d) (p, w) = Inl Get_Blocked"
proof (cases "request_handler_map w info")
  case None
  have "new_request_handler info p = Inl Get_Blocked
      \<or> new_request_handler info p = Inr (p, \<lparr>service_map = [], rh_conn_info = info\<rparr>)"
    using assms(2) by (simp add: new_request_handler_def create_services_def manager_get_def)
  with None assms show ?thesis
    by (auto simp: request_step [OF assms(1)] worker_handle_request_def is_request_def get_handler_def
        insert_new_handler_def handler_handle_request_def connection_of_info_def manager_get_def)
next
  case (Some rh)
  with assms show ?thesis
    by (simp add: request_step [OF assms(1)] worker_handle_request_def is_request_def
        get_handler_known handler_handle_request_def connection_of_info_def manager_get_def)
qed

theorem request_blocks_on_expired_manager_witness:
  "worker_step demo_we 0 (demo_data ''q'') (demo_process\<lparr>mgr_alive := False\<rparr>, new_worker 0) = Inl Get_Blocked"
  unfolding demo_data_def by (rule request_blocks_on_expired_manager [OF demo_is_request]) simp



section \<open>The group of workers\<close>

text \<open>
  A new group has one empty queue for every worker, each of which may be sent commands.
\<close>

theorem group_starts_ready:
  assumes "0 < sint threads"
  shows "\<exists>ws wc. new_worker_thread_group threads = Inr (ws, wc) \<and> commander_ok wc
    \<and> wc_workers wc = threads \<and> length ws = nat (sint threads)
    \<and> (\<forall>i < threads. is_worker_index_legal wc i \<and> queue_of wc i = [])"
  using new_group [OF assms] commander_ok_legal by fastforce

theorem group_starts_ready_witness:
  "\<exists>ws wc. new_worker_thread_group 2 = Inr (ws, wc) \<and> length ws = 2 \<and> is_worker_index_legal wc 1"
  using group_starts_ready [of 2] by (fastforce simp: word_less_nat_alt)

text \<open>
  \<open>join_all\<close> ends every worker, and no command is lost: a worker whose queue held \<open>cs\<close> when
  the quit commands were sent executes all of \<open>cs\<close> and then leaves its loop with an empty queue.
\<close>

theorem group_quit_drains:
  assumes "commander_ok wc" and "i < wc_workers wc" and "Quit_Worker_Cmd \<notin> set (queue_of wc i)"
  shows "\<exists>wc'. group_quit wc = Inr wc' \<and> worker_loop we t (queue_of wc' i) pw =
    bindE (worker_loop we t (queue_of wc i) pw) (\<lambda>(_, _, pw). Inr (False, [], pw))"
proof -
  obtain wc' where "group_quit wc = Inr wc'" "queue_of wc' i = queue_of wc i @ [Quit_Worker_Cmd]"
    using group_quit_eq [OF assms(1)] assms(2) by blast
  then show ?thesis using worker_loop_quit [OF assms(3)] by simp
qed

theorem group_quit_drains_witness:
  "\<exists>wc'. group_quit \<lparr>wc_workers = 1, worker_cmd_queues = [Some [Handle_Timeout_Cmd 3]]\<rparr> = Inr wc' \<and>
    worker_loop demo_we 0 (queue_of wc' 0) (demo_process, new_worker 0) =
      Inr (False, [], (demo_process, new_worker 0))"
proof -
  let ?wc = "\<lparr>wc_workers = 1, worker_cmd_queues = [Some [Handle_Timeout_Cmd 3]]\<rparr>"
  have "commander_ok ?wc" "0 < wc_workers ?wc" "Quit_Worker_Cmd \<notin> set (queue_of ?wc 0)"
    by (simp_all add: commander_ok_def queue_of_def)
  from group_quit_drains [OF this, of demo_we 0 "(demo_process, new_worker 0)"] show ?thesis
    by (simp add: queue_of_def worker_step_def worker_handle_timeout_def new_worker_def)
qed

end
