(* ===== verification/Rpc_Path.thy ===== *)
theory Rpc_Path
  imports Broker_Spec Worker_Spec
begin

text \<open>
  The way of an rpc through the components: from the thread that sends the request over its broker
  and the broker of the server to the method, and from the thread that replies back to the response
  handler. Between the components there is ZeroMQ alone: what one end has sent arrives at the
  other, in order, with the identity of the sender in front where a \<open>ROUTER\<close> socket receives, and
  without it where one sends.
\<close>

section \<open>What ZeroMQ hands over\<close>

definition arrives :: "ptr \<Rightarrow> message list \<Rightarrow> broker_thread \<Rightarrow> broker_thread" where
  "arrives q ms st = st\<lparr>zsocks := (zsocks st)(q \<mapsto>
     (the_socket q st)\<lparr>sock_in := sock_in (the_socket q st) @ ms\<rparr>)\<rparr>"

definition new_frames :: "socket \<Rightarrow> socket \<Rightarrow> message list" where
  "new_frames s s' = drop (length (sock_out s)) (sock_out s')"

lemma new_frames_sent [simp]: "sock_out s' = sock_out s @ ms \<Longrightarrow> new_frames s s' = ms"
  by (simp add: new_frames_def)

lemma arrives_fields [simp]:
  "frontend_socket (arrives q ms st) = frontend_socket st"
  "dealer_sockets (arrives q ms st) = dealer_sockets st"
  "router_sockets (arrives q ms st) = router_sockets st"
  "bt_commander (arrives q ms st) = bt_commander st" "bt_workers (arrives q ms st) = bt_workers st"
  "ctrl_heap (arrives q ms st) = ctrl_heap st"
  "is_dealer_index_legal i (arrives q ms st) = is_dealer_index_legal i st"
  "is_router_index_legal i (arrives q ms st) = is_router_index_legal i st"
  "is_connection_info_legal info (arrives q ms st) = is_connection_info_legal info st"
  "conn_socket info (arrives q ms st) = conn_socket info st"
  "worker_of bh info (arrives q ms st) = worker_of bh info st"
  by (simp_all add: arrives_def is_dealer_index_legal_def is_router_index_legal_def
      is_connection_info_legal_def conn_socket_def worker_of_def)

lemma arrives_sockets [simp]:
  "zsocks (arrives q ms st) q = Some ((the_socket q st)\<lparr>sock_in := sock_in (the_socket q st) @ ms\<rparr>)"
  "q' \<noteq> q \<Longrightarrow> zsocks (arrives q ms st) q' = zsocks st q'"
  by (simp_all add: arrives_def)

lemma conn_live_arrives: "conn_live info st \<Longrightarrow> conn_live info (arrives q ms st)"
  by (simp add: conn_live_def) (simp add: arrives_def)

lemma broker_inv_arrives: "zsocks st q = Some s \<Longrightarrow> broker_inv (arrives q ms st) = broker_inv st"
  unfolding arrives_def by (rule broker_inv_update)

text \<open>
  A connection has two ends. The broker of one end knows it as \<open>here\<close>, the broker of the other as
  \<open>there\<close>. A router takes the identity it sends to off the message, and a router puts the identity of
  the sender in front of a message it receives.
\<close>

definition crosses :: "connection_info \<Rightarrow> connection_info \<Rightarrow> message list \<Rightarrow> message list" where
  "crosses here there ms = wire_frames there (if ci_is_router here then tl ms else ms)"

lemma crosses_envelope [simp]:
  "crosses here there (envelope here @ ms) = wire_frames there (frame_enc [] True @ ms)"
  by (simp add: crosses_def envelope_def frame_enc_def)

text \<open>A step of a broker that leaves its sockets as they were, with nothing more to be read on them.\<close>

definition settled :: "broker_thread \<Rightarrow> broker_thread \<Rightarrow> bool" where
  "settled st st' \<longleftrightarrow> (broker_inv st \<longrightarrow> broker_inv st') \<and> frontend_socket st' = frontend_socket st
     \<and> dealer_sockets st' = dealer_sockets st \<and> router_sockets st' = router_sockets st
     \<and> bt_workers st' = bt_workers st \<and> dom (zsocks st') = dom (zsocks st)
     \<and> (\<forall>q. sock_in (the_socket q st') = sock_in (the_socket q st))"

lemma settledD:
  assumes "settled st st'"
  shows "broker_inv st \<Longrightarrow> broker_inv st'" "frontend_socket st' = frontend_socket st"
    "conn_socket info st' = conn_socket info st" "conn_live info st' = conn_live info st"
    "worker_of bh info st' = worker_of bh info st"
    "is_connection_info_legal info st' = is_connection_info_legal info st"
    "sock_in (the_socket q st') = sock_in (the_socket q st)"
  using assms
  by (auto simp: settled_def conn_live_def is_connection_info_legal_def is_dealer_index_legal_def
      is_router_index_legal_def conn_socket_def worker_of_def domD domI)

lemma settled_trans: "settled st st' \<Longrightarrow> settled st' st'' \<Longrightarrow> settled st st''"
  by (simp add: settled_def)

lemma settled_sent_on: "zsocks st q \<noteq> None \<Longrightarrow> settled st (sent_on q ms st)"
  using broker_inv_update [of st q] by (auto simp: settled_def sent_on_def the_socket_def)

lemma settled_deliver:
  assumes "i < wc_workers (bt_commander st)"
  shows "settled st (deliver i c st)"
  using assms
  by (auto simp: settled_def deliver_def the_socket_def broker_inv_def broker_sockets_inv_def workers_inv_def
      commander_ok_push)

lemma settled_timer_set: "settled st (timer_set env info c st)"
proof -
  have "broker_inv (timer_set env info c st)" if "broker_inv st"
    using that by (simp add: timer_set_def broker_inv_run_closure_at)
  moreover have "frontend_socket (timer_set env info c st) = frontend_socket st"
    by (simp add: timer_set_def reactor_run_closure_at_def)
  ultimately show ?thesis by (simp add: settled_def the_socket_def)
qed

text \<open>Taking a message from a socket that had none.\<close>

lemma settled_consumed:
  assumes "zsocks st q = Some s" and "sock_in s = []" and "settled (arrives q ms st) st1"
  shows "settled st (consumed q [] st1)"
proof -
  have "zsocks st1 q \<noteq> None" using assms(1,3) by (auto simp: settled_def dom_def arrives_def set_eq_iff)
  then have "broker_inv (consumed q [] st1) = broker_inv st1"
    using broker_inv_update [of st1 q] by (auto simp: consumed_def)
  then show ?thesis
    using assms broker_inv_arrives [of st q s ms]
    by (auto simp: settled_def consumed_def the_socket_def arrives_def split: if_splits)
qed

section \<open>Connections on the wire\<close>

text \<open>
  C24: What \<open>write_connection_info\<close> sends, \<open>read_connection_info\<close> reads back, whatever follows: the
  kind, the index and, for the connection of a router, the identity of the peer. Exactly the frames
  written are read, and more is expected just when the last was sent so.
\<close>

theorem connection_info_roundtrip:
  "\<exists>d. read_connection_info \<lparr>it_socket = new_frames s (write_connection_info x f s) @ rest,
      it_message = m, it_has_more = True\<rparr> connection_info_default =
    Inr (if ci_is_router x then x else x\<lparr>ci_sender := []\<rparr>,
      \<lparr>it_socket = rest, it_message = d, it_has_more = sndmore f\<rparr>)"
proof -
  let ?y = "if ci_is_router x then x else x\<lparr>ci_sender := []\<rparr>"
  have "new_frames s (write_connection_info x f s) = connection_info_enc ?y (sndmore f)"
    by (simp add: write_connection_info_enc) (simp add: connection_info_enc_def)
  moreover have "info_wf ?y" by (simp add: info_wf_def)
  ultimately show ?thesis by (intro read_connection_info_enc) simp_all
qed

section \<open>What the threads send\<close>

definition request_header :: "uint64 \<Rightarrow> string \<Rightarrow> string \<Rightarrow> rpc_header" where
  "request_header ev service meth = rpc_header_default\<lparr>req_hdr := Some \<lparr>rq_event_id = Some ev,
     rq_service = Some service, rq_method = Some meth\<rparr>\<rparr>"

definition response_header :: "uint64 \<Rightarrow> rpc_header" where
  "response_header ev = rpc_header_default\<lparr>resp_hdr := Some
     \<lparr>rs_error_code = None, rs_error_str = None, rs_event_id = Some ev\<rparr>\<rparr>"

text \<open>The process after a thread has made the controller of a request.\<close>

definition with_controller :: "response_message_handler \<Rightarrow> int64 \<Rightarrow> process \<Rightarrow> process" where
  "with_controller handler timeout_ms p = p\<lparr>next_event_id := next_event_id p + 1,
     next_addr := next_addr p + 1, rc_heap := (rc_heap p)(next_addr p \<mapsto>
       new_rpc_controller (next_event_id p) handler timeout_ms)\<rparr>"

lemma connection_request_eq:
  assumes "next_addr p \<noteq> NULL" and "serialize req = Some pl"
    and "serialize_hdr pb (request_header (next_event_id p) service meth) = Some h"
  shows "connection_request pb serialize t info service meth req handler timeout_ms p =
    Inr (fe_sends t (request_frames info (next_addr p) h pl) (with_controller handler timeout_ms p))"
  using assms
  by (simp add: connection_request_def get_next_event_id_def request_header_def Let_def
      new_controller_def mv_push_back_def connection_request_vector_eq with_controller_def)

lemma connection_reply_eq:
  assumes "serialize resp = Some pl" and "serialize_hdr pb (response_header ev) = Some h"
  shows "connection_reply pb serialize t info ev resp p = Inr (fe_sends t (reply_frames_of info h pl) p)"
  using assms
  by (simp add: connection_reply_def response_header_def Let_def rpc_header_default_def
      connection_reply_header_def mv_push_back_def connection_reply_vector_eq)

lemma fe_sends_out:
  "fe_socket t q = fe_socket t p \<Longrightarrow> new_frames (fe_socket t p) (fe_socket t (fe_sends t ms q)) = ms"
  by (simp add: fe_sends_def)

lemma fe_socket_with_controller [simp]: "fe_socket t (with_controller c ms p) = fe_socket t p"
  by (cases "tss_fe_socket p t") (simp_all add: fe_socket_def with_controller_def)

lemma command_arrives:
  "frame_enc identity True @ request_frames info a h pl = command_frames identity kRequest
     (connection_info_enc info True @ frame_enc (uint64_bytes a) True @ parts [h, pl])"
  "frame_enc identity True @ reply_frames_of info h pl =
     command_frames identity kReply (connection_info_enc info True @ parts [h, pl])"
  by (simp_all add: request_frames_def reply_frames_of_def command_frames_def frame_enc_def
      del: parts.simps) simp_all

section \<open>The way of a request\<close>

lemma queue_delivered:
  assumes "broker_inv st" and "bt_commander st' = push (worker_of bh info st) c (bt_commander st)"
  shows "queue_of (bt_commander st') (worker_of bh info st) =
    queue_of (bt_commander st) (worker_of bh info st) @ [c]"
  using worker_of_less [of st bh info] broker_inv_parts(1) [OF assms(1)]
  by (simp add: assms(2) queue_of_push workers_inv_def)

text \<open>
  The thread \<open>t\<close> of a process \<open>p\<close> sends a request over the connection \<open>here\<close>; the broker \<open>cb\<close> of the
  process takes the command from the socket of \<open>t\<close>, known to it as \<open>identity\<close>; the broker \<open>sb\<close> of the
  other process takes the message from the socket of the same connection, which is \<open>there\<close> to it.
\<close>

definition request_path ::
  "broker_env \<Rightarrow> boost_hash \<Rightarrow> header_codec \<Rightarrow> ('m \<Rightarrow> bytes option) \<Rightarrow> string \<Rightarrow> thread
    \<Rightarrow> connection_info \<Rightarrow> connection_info \<Rightarrow> string \<Rightarrow> string \<Rightarrow> 'm \<Rightarrow> response_message_handler \<Rightarrow> int64
    \<Rightarrow> process \<Rightarrow> broker_thread \<Rightarrow> broker_thread \<Rightarrow> (process \<times> broker_thread \<times> broker_thread) result" where
  "request_path env bh pb serialize identity t here there service meth req handler timeout_ms p cb sb =
     bindE (connection_request pb serialize t here service meth req handler timeout_ms p) (\<lambda>p'.
     bindE (handle_frontend_socket env (frontend_socket cb) (arrives (frontend_socket cb)
         (frame_enc identity True @ new_frames (fe_socket t p) (fe_socket t p'))
         (cb\<lparr>ctrl_heap := rc_heap p'\<rparr>))) (\<lambda>cb'.
     bindE (handle_remote bh there (arrives (conn_socket there sb)
         (crosses here there (new_frames (the_socket (conn_socket here cb) cb)
            (the_socket (conn_socket here cb) cb'))) sb)) (\<lambda>sb'.
     Inr (p', cb', sb'))))"

lemma frontend_waits:
  assumes "broker_inv st" and "sock_in (the_socket (frontend_socket st) st) = []"
  shows "\<exists>fs. zsocks st (frontend_socket st) = Some fs \<and> sock_in fs = []"
  using broker_inv_frontend [OF assms(1)] assms(2) by (auto simp: the_socket_def)

lemma request_broker_step:
  assumes "broker_inv cb" and "info_wf here" and "conn_live here cb"
    and "sock_in (the_socket (frontend_socket cb) cb) = []" and "a \<noteq> NULL" and "heap a = Some c"
  shows "\<exists>cb'. handle_frontend_socket env (frontend_socket cb) (arrives (frontend_socket cb)
      (frame_enc identity True @ request_frames here a h pl) (cb\<lparr>ctrl_heap := heap\<rparr>)) = Inr cb'
    \<and> sock_out (the_socket (conn_socket here cb) cb') =
        sock_out (the_socket (conn_socket here cb) cb) @ envelope here @ parts [h, pl]
    \<and> bt_commander cb' = push (worker_of (be_hash env) here cb) (Start_Rpc_Cmd a) (bt_commander cb)
    \<and> settled cb cb'"
proof -
  let ?fe = "frontend_socket cb"
  let ?ms = "frame_enc identity True @ request_frames here a h pl"
  let ?st = "arrives ?fe ?ms (cb\<lparr>ctrl_heap := heap\<rparr>)"
  let ?st1 = "timer_set env here c ?st"
  let ?st2 = "sent_on (conn_socket here cb) (envelope here @ parts [h, pl]) ?st1"
  let ?st3 = "deliver (worker_of (be_hash env) here cb) (Start_Rpc_Cmd a) ?st2"
  obtain fs where fs: "zsocks cb ?fe = Some fs" "sock_in fs = []"
    using frontend_waits [OF assms(1,4)] by blast
  have w: "workers_inv ?st" using broker_inv_parts(1) [OF assms(1)] by (simp add: workers_inv_def)
  have s: "zsocks ?st (frontend_socket ?st) = Some (fs\<lparr>sock_in := ?ms\<rparr>)"
    using fs the_socket [OF fs(1)] by simp
  have inp: "sock_in (fs\<lparr>sock_in := ?ms\<rparr>) = command_frames identity kRequest
      (connection_info_enc here True @ frame_enc (uint64_bytes a) True @ parts [h, pl]) @ []"
    using command_arrives(1) [of identity here a h pl] by simp
  have live: "conn_live here ?st" "whole (parts [h, pl])" "ctrl_heap ?st a = Some c"
    using assms(3,6) by (simp_all add: conn_live_arrives)
  from frontend_request [OF w assms(2) live(1) s inp live(2) assms(5) live(3), of env]
  have step: "handle_frontend_socket env ?fe ?st = Inr (consumed ?fe [] ?st3)" by simp
  have "zsocks ?st1 (conn_socket here cb) \<noteq> None"
    using assms(3) by (simp add: conn_live_def arrives_def)
  moreover have "worker_of (be_hash env) here cb < wc_workers (bt_commander ?st2)"
    using worker_of_less [OF broker_inv_parts(1) [OF assms(1)]] by simp
  ultimately have "settled ?st ?st3"
    using settled_trans [OF settled_timer_set settled_trans [OF settled_sent_on settled_deliver]] by blast
  then have "settled cb (consumed ?fe [] ?st3)"
    using settled_consumed [of "cb\<lparr>ctrl_heap := heap\<rparr>" ?fe fs ?ms] fs
    by (simp add: settled_def broker_inv_def broker_sockets_inv_def workers_inv_def)
  with step show ?thesis
    by (simp add: consumed_def deliver_def sent_on_def the_socket_def timer_set_def
        reactor_run_closure_at_def arrives_def)
qed

lemma remote_broker_step:
  assumes "broker_inv sb" and "info_wf there" and "conn_live there sb"
    and "sock_in (the_socket (conn_socket there sb) sb) = []"
  shows "\<exists>sb'. handle_remote bh there (arrives (conn_socket there sb)
      (wire_frames there (frame_enc [] True @ parts [h, pl])) sb) = Inr sb'
    \<and> bt_commander sb' = push (worker_of bh there sb)
        (Handle_Data_Cmd \<lparr>hd_info = Some there, hd_header = h, hd_payload = pl\<rparr>) (bt_commander sb)
    \<and> settled sb sb'"
proof -
  let ?q = "conn_socket there sb"
  let ?ms = "frame_enc [] True @ parts [h, pl]"
  let ?st = "arrives ?q (wire_frames there ?ms) sb"
  let ?d = "\<lparr>hd_info = Some there, hd_header = h, hd_payload = pl\<rparr>"
  obtain r where r: "zsocks sb ?q = Some r" using conn_liveD(3) [OF assms(3)] by blast
  have in_r: "sock_in r = []" using assms(4) the_socket [OF r] by simp
  have w: "workers_inv ?st" using broker_inv_parts(1) [OF assms(1)] by (simp add: workers_inv_def)
  have legal: "is_connection_info_legal there ?st" using conn_liveD(1) [OF assms(3)] by simp
  have s: "zsocks ?st (conn_socket there ?st) = Some (r\<lparr>sock_in := wire_frames there ?ms\<rparr>)"
    using in_r the_socket [OF r] by simp
  have ms: "whole ?ms" by (simp add: frame_enc_def)
  have "remote_effect bh there (map msg_data ?ms) ?st = deliver (worker_of bh there sb) (Handle_Data_Cmd ?d) ?st"
    by (simp add: remote_effect_def remote_data_def frame_enc_def)
  then have step: "handle_remote bh there ?st =
      Inr (consumed ?q [] (deliver (worker_of bh there sb) (Handle_Data_Cmd ?d) ?st))"
    using handle_remote_whole [OF w assms(2) legal s _ ms, of "[]" bh] by simp
  have "settled ?st (deliver (worker_of bh there sb) (Handle_Data_Cmd ?d) ?st)"
    using worker_of_less [OF broker_inv_parts(1) [OF assms(1)]] by (simp add: settled_deliver)
  from settled_consumed [OF r in_r this] step show ?thesis by (simp add: consumed_def deliver_def)
qed

lemma request_path_eq:
  assumes client: "broker_inv cb" "info_wf here" "conn_live here cb"
      "sock_in (the_socket (frontend_socket cb) cb) = []" "next_addr p \<noteq> NULL"
    and codec: "serialize req = Some pl"
      "serialize_hdr pb (request_header (next_event_id p) service meth) = Some h"
    and server: "broker_inv sb" "info_wf there" "conn_live there sb"
      "sock_in (the_socket (conn_socket there sb) sb) = []"
  shows "\<exists>cb' sb'.
    request_path env bh pb serialize identity t here there service meth req handler timeout_ms p cb sb
      = Inr (fe_sends t (request_frames here (next_addr p) h pl) (with_controller handler timeout_ms p), cb', sb')
    \<and> queue_of (bt_commander cb') (worker_of (be_hash env) here cb) =
        queue_of (bt_commander cb) (worker_of (be_hash env) here cb) @ [Start_Rpc_Cmd (next_addr p)]
    \<and> queue_of (bt_commander sb') (worker_of bh there sb) = queue_of (bt_commander sb) (worker_of bh there sb)
        @ [Handle_Data_Cmd \<lparr>hd_info = Some there, hd_header = h, hd_payload = pl\<rparr>]
    \<and> settled cb cb' \<and> settled sb sb'"
proof -
  let ?p' = "fe_sends t (request_frames here (next_addr p) h pl) (with_controller handler timeout_ms p)"
  have heap: "rc_heap ?p' (next_addr p) = Some (new_rpc_controller (next_event_id p) handler timeout_ms)"
    by (simp add: with_controller_def)
  obtain cb' where cb': "handle_frontend_socket env (frontend_socket cb) (arrives (frontend_socket cb)
      (frame_enc identity True @ request_frames here (next_addr p) h pl) (cb\<lparr>ctrl_heap := rc_heap ?p'\<rparr>)) = Inr cb'"
    "sock_out (the_socket (conn_socket here cb) cb') =
        sock_out (the_socket (conn_socket here cb) cb) @ envelope here @ parts [h, pl]"
    "bt_commander cb' = push (worker_of (be_hash env) here cb) (Start_Rpc_Cmd (next_addr p)) (bt_commander cb)"
    "settled cb cb'"
    using request_broker_step [of cb here "next_addr p" "rc_heap ?p'", OF client heap] by blast
  obtain sb' where sb': "handle_remote bh there (arrives (conn_socket there sb)
      (wire_frames there (frame_enc [] True @ parts [h, pl])) sb) = Inr sb'"
    "bt_commander sb' = push (worker_of bh there sb)
        (Handle_Data_Cmd \<lparr>hd_info = Some there, hd_header = h, hd_payload = pl\<rparr>) (bt_commander sb)"
    "settled sb sb'"
    using remote_broker_step [OF server] by blast
  have "request_path env bh pb serialize identity t here there service meth req handler timeout_ms p cb sb
      = Inr (?p', cb', sb')"
    using cb'(1,2) sb'(1)
    by (simp add: request_path_def fe_sends_out
        connection_request_eq [where serialize = serialize and req = req, OF client(5) codec])
  with queue_delivered [OF client(1) cb'(3)] queue_delivered [OF server(1) sb'(2)] cb'(4) sb'(3)
  show ?thesis by blast
qed

text \<open>
  C2: A request reaches its method, in either direction of a connection. Whatever thread sends it: its
  own broker starts the rpc at the worker of the connection, with a controller that has the event and
  the handler; the broker of the other side hands the worker of its end of the connection a data
  command; and that worker calls the method of the service that the request names, with the bytes of
  the request, the event, and the way back. A connection to a server only has to be legal.
\<close>

theorem request_reaches_method:
  assumes client: "broker_inv cb" "info_wf here" "is_connection_info_legal here cb"
      "ci_is_router here \<Longrightarrow> conn_live here cb" "sock_in (the_socket (frontend_socket cb) cb) = []"
      "next_addr p \<noteq> NULL"
    and codec: "serialize req = Some pl"
      "serialize_hdr pb (request_header (next_event_id p) service meth) = Some h"
      "parse_hdr (we_codec we) h = Some (request_header (next_event_id p) service meth)"
      "serializes (we_codec we)"
    and server: "broker_inv sb" "info_wf there" "conn_live there sb"
      "sock_in (the_socket (conn_socket there sb) sb) = []"
    and worker: "request_handler_map w there = Some rh" "rh_conn_info rh = there" "mgr_alive sp"
      "handler_ok sp rh" "refs_live sp rh"
    and dispatch: "named_class sp rh service = Some cls"
      "se_find_method (we_services we) cls meth = Some m" "se_parses (we_services we) cls m pl"
  shows "\<exists>p' cb' sb' d.
    request_path env bh pb serialize identity t here there service meth req handler timeout_ms p cb sb
      = Inr (p', cb', sb')
    \<and> rc_heap p' (next_addr p) = Some (new_rpc_controller (next_event_id p) handler timeout_ms)
    \<and> queue_of (bt_commander cb') (worker_of (be_hash env) here cb) =
        queue_of (bt_commander cb) (worker_of (be_hash env) here cb) @ [Start_Rpc_Cmd (next_addr p)]
    \<and> queue_of (bt_commander sb') (worker_of bh there sb) =
        queue_of (bt_commander sb) (worker_of bh there sb) @ [Handle_Data_Cmd d]
    \<and> worker_step we u (Handle_Data_Cmd d) (sp, w) = Inr (True, (sp\<lparr>user_calls := user_calls sp @
        [Call_Method cls m pl there (next_event_id p)]\<rparr>, w))"
proof -
  let ?p' = "fe_sends t (request_frames here (next_addr p) h pl) (with_controller handler timeout_ms p)"
  let ?d = "\<lparr>hd_info = Some there, hd_header = h, hd_payload = pl\<rparr>"
  have heap: "rc_heap ?p' (next_addr p) = Some (new_rpc_controller (next_event_id p) handler timeout_ms)"
    by (simp add: with_controller_def)
  have live: "conn_live here cb" using client(4) by (rule conn_live_known [OF client(1,3)])
  have rq: "is_request we ?d there (the (req_hdr (request_header (next_event_id p) service meth)))"
    using codec(3) by (simp add: is_request_def request_header_def)
  have "worker_step we u (Handle_Data_Cmd ?d) (sp, w) = Inr (True, (sp\<lparr>user_calls := user_calls sp @
        [Call_Method cls m pl there (next_event_id p)]\<rparr>, w))"
    unfolding request_step [OF rq] worker_request_known [OF rq worker(1) codec(4) worker(3,4,5,2)]
    using dispatch by (simp add: request_header_def served_by_def answered_def outcome_of_def)
  with heap request_path_eq [where serialize = serialize, OF client(1,2) live client(5,6) codec(1,2) server]
  show ?thesis by blast
qed

section \<open>The way of a reply\<close>

text \<open>
  The thread \<open>u\<close> of a process has written a reply, on the connection \<open>here\<close>; its broker \<open>sb\<close> takes the
  command; the broker \<open>cb\<close> of the other process takes the message from the socket of the same
  connection, which is \<open>there\<close> to it.
\<close>

definition reply_crosses ::
  "broker_env \<Rightarrow> boost_hash \<Rightarrow> string \<Rightarrow> connection_info \<Rightarrow> connection_info \<Rightarrow> message list
    \<Rightarrow> broker_thread \<Rightarrow> broker_thread \<Rightarrow> (broker_thread \<times> broker_thread) result" where
  "reply_crosses env bh identity here there ms sb cb =
     bindE (handle_frontend_socket env (frontend_socket sb) (arrives (frontend_socket sb)
         (frame_enc identity True @ ms) sb)) (\<lambda>sb'.
     bindE (handle_remote bh there (arrives (conn_socket there cb)
         (crosses here there (new_frames (the_socket (conn_socket here sb) sb)
            (the_socket (conn_socket here sb) sb'))) cb)) (\<lambda>cb'.
     Inr (sb', cb')))"

definition reply_path ::
  "broker_env \<Rightarrow> boost_hash \<Rightarrow> header_codec \<Rightarrow> ('m \<Rightarrow> bytes option) \<Rightarrow> string \<Rightarrow> thread
    \<Rightarrow> connection_info \<Rightarrow> connection_info \<Rightarrow> uint64 \<Rightarrow> 'm
    \<Rightarrow> process \<Rightarrow> broker_thread \<Rightarrow> broker_thread \<Rightarrow> (process \<times> broker_thread \<times> broker_thread) result" where
  "reply_path env bh pb serialize identity u here there ev resp sp sb cb =
     bindE (connection_reply pb serialize u here ev resp sp) (\<lambda>sp'.
     bindE (reply_crosses env bh identity here there (new_frames (fe_socket u sp) (fe_socket u sp')) sb cb)
       (\<lambda>(sb', cb'). Inr (sp', sb', cb')))"

lemma reply_broker_step:
  assumes "broker_inv sb" and "info_wf here" and "conn_live here sb"
    and "sock_in (the_socket (frontend_socket sb) sb) = []"
  shows "\<exists>sb'. handle_frontend_socket env (frontend_socket sb) (arrives (frontend_socket sb)
      (frame_enc identity True @ reply_frames_of here h pl) sb) = Inr sb'
    \<and> sock_out (the_socket (conn_socket here sb) sb') =
        sock_out (the_socket (conn_socket here sb) sb) @ envelope here @ parts [h, pl]
    \<and> settled sb sb'"
proof -
  let ?fe = "frontend_socket sb"
  let ?ms = "frame_enc identity True @ reply_frames_of here h pl"
  let ?st = "arrives ?fe ?ms sb"
  let ?st1 = "sent_on (conn_socket here sb) (envelope here @ parts [h, pl]) ?st"
  obtain fs where fs: "zsocks sb ?fe = Some fs" "sock_in fs = []"
    using frontend_waits [OF assms(1,4)] by blast
  have s: "zsocks ?st (frontend_socket ?st) = Some (fs\<lparr>sock_in := ?ms\<rparr>)"
    using fs the_socket [OF fs(1)] by simp
  have inp: "sock_in (fs\<lparr>sock_in := ?ms\<rparr>) = command_frames identity kReply
      (connection_info_enc here True @ parts [h, pl]) @ []"
    using command_arrives(2) [of identity here h pl] by simp
  have live: "conn_live here ?st" "whole (parts [h, pl])"
    using assms(3) by (simp_all add: conn_live_arrives)
  from frontend_reply [OF assms(2) live(1) s inp live(2), of env]
  have step: "handle_frontend_socket env ?fe ?st = Inr (consumed ?fe [] ?st1)" by simp
  have "zsocks ?st (conn_socket here sb) \<noteq> None" using assms(3) by (simp add: conn_live_def arrives_def)
  from settled_consumed [OF fs settled_sent_on [OF this]] step show ?thesis
    by (simp add: consumed_def sent_on_def the_socket_def arrives_def)
qed

lemma reply_crosses_eq:
  assumes server: "broker_inv sb" "info_wf here" "conn_live here sb"
      "sock_in (the_socket (frontend_socket sb) sb) = []"
    and client: "broker_inv cb" "info_wf there" "conn_live there cb"
      "sock_in (the_socket (conn_socket there cb) cb) = []"
  shows "\<exists>sb' cb'. reply_crosses env bh identity here there (reply_frames_of here h pl) sb cb = Inr (sb', cb')
    \<and> queue_of (bt_commander cb') (worker_of bh there cb) = queue_of (bt_commander cb) (worker_of bh there cb)
        @ [Handle_Data_Cmd \<lparr>hd_info = Some there, hd_header = h, hd_payload = pl\<rparr>]
    \<and> settled sb sb' \<and> settled cb cb'"
proof -
  obtain sb' where sb': "handle_frontend_socket env (frontend_socket sb) (arrives (frontend_socket sb)
      (frame_enc identity True @ reply_frames_of here h pl) sb) = Inr sb'"
    "sock_out (the_socket (conn_socket here sb) sb') =
        sock_out (the_socket (conn_socket here sb) sb) @ envelope here @ parts [h, pl]"
    "settled sb sb'"
    using reply_broker_step [OF server] by blast
  obtain cb' where cb': "handle_remote bh there (arrives (conn_socket there cb)
      (wire_frames there (frame_enc [] True @ parts [h, pl])) cb) = Inr cb'"
    "bt_commander cb' = push (worker_of bh there cb)
        (Handle_Data_Cmd \<lparr>hd_info = Some there, hd_header = h, hd_payload = pl\<rparr>) (bt_commander cb)"
    "settled cb cb'"
    using remote_broker_step [OF client] by blast
  have "reply_crosses env bh identity here there (reply_frames_of here h pl) sb cb = Inr (sb', cb')"
    using sb'(1,2) cb'(1) by (simp add: reply_crosses_def)
  with queue_delivered [OF client(1) cb'(2)] sb'(3) cb'(3) show ?thesis by blast
qed

text \<open>
  C3: A reply reaches the response handler, in either direction of a connection. Whatever thread sends
  it, on the connection of the request: the broker of its process sends it to the other end, the broker
  there hands the worker of the connection a data command, and that worker calls the handler of the
  pending event, with the bytes of the response and without an error, and deletes the controller.
\<close>

theorem reply_reaches_handler:
  assumes server: "broker_inv sb" "info_wf here" "conn_live here sb"
      "sock_in (the_socket (frontend_socket sb) sb) = []"
    and codec: "serialize resp = Some pl" "serialize_hdr pb (response_header ev) = Some h"
      "parse_hdr (we_codec we) h = Some (response_header ev)"
    and client: "broker_inv cb" "info_wf there" "conn_live there cb"
      "sock_in (the_socket (conn_socket there cb) cb) = []"
    and worker: "rpcs_ok (p, w)" "remote_response_map w ev = Some a" "rc_heap p a = Some c"
      "rc_handler c = Handler f"
  shows "\<exists>sp' sb' cb' d.
    reply_path env bh pb serialize identity u here there ev resp sp sb cb = Inr (sp', sb', cb')
    \<and> queue_of (bt_commander cb') (worker_of bh there cb) =
        queue_of (bt_commander cb) (worker_of bh there cb) @ [Handle_Data_Cmd d]
    \<and> worker_step we t (Handle_Data_Cmd d) (p, w) = Inr (True,
        (delete_controller a (call_user [Response_Handler_Call
           \<lparr>hc_target = f, hc_error = None, hc_data = Some pl\<rparr>] p),
         w\<lparr>remote_response_map := (remote_response_map w)(ev := None)\<rparr>))"
proof -
  let ?d = "\<lparr>hd_info = Some there, hd_header = h, hd_payload = pl\<rparr>"
  obtain sb' cb' where cross:
    "reply_crosses env bh identity here there (reply_frames_of here h pl) sb cb = Inr (sb', cb')"
    "queue_of (bt_commander cb') (worker_of bh there cb) =
        queue_of (bt_commander cb) (worker_of bh there cb) @ [Handle_Data_Cmd ?d]"
    using reply_crosses_eq [OF server client] by blast
  have path: "reply_path env bh pb serialize identity u here there ev resp sp sb cb =
      Inr (fe_sends u (reply_frames_of here h pl) sp, sb', cb')"
    using cross(1)
    by (simp add: reply_path_def fe_sends_out connection_reply_eq [where serialize = serialize and resp = resp,
        OF codec(1,2)])
  have "completes we (Handle_Data_Cmd ?d) = Some (ev, (None, Some pl))"
    using codec(3) by (simp add: completes_def response_header_def rpc_header_default_def response_outcome_def)
  from worker_step_completes [OF this, of t "(p, w)"] finish_eq [OF worker(1), of _ ev] worker(2-4)
  have "worker_step we t (Handle_Data_Cmd ?d) (p, w) = Inr (True,
        (delete_controller a (call_user [Response_Handler_Call
           \<lparr>hc_target = f, hc_error = None, hc_data = Some pl\<rparr>] p),
         w\<lparr>remote_response_map := (remote_response_map w)(ev := None)\<rparr>))"
    by (simp add: calls_of_def)
  with path cross(2) show ?thesis by blast
qed

section \<open>Witnesses\<close>

definition path_codec :: header_codec where
  "path_codec = \<lparr>serialize_hdr = (\<lambda>h. Some (if req_hdr h \<noteq> None then ''q'' else ''r'')),
     parse_hdr = (\<lambda>b. if b = ''q'' then Some (request_header 8 ''s'' ''m'')
       else if b = ''r'' then Some (response_header 8) else None)\<rparr>"

definition path_we :: worker_env where
  "path_we = demo_we\<lparr>we_codec := path_codec\<rparr>"

lemma path_codec:
  "serialize_hdr path_codec (request_header 8 ''s'' ''m'') = Some ''q''"
  "parse_hdr (we_codec path_we) ''q'' = Some (request_header 8 ''s'' ''m'')"
  "serialize_hdr path_codec (response_header 8) = Some ''r''"
  "parse_hdr (we_codec path_we) ''r'' = Some (response_header 8)"
  "serializes (we_codec path_we)"
  by (simp_all add: path_codec_def path_we_def request_header_def response_header_def
      rpc_header_default_def serializes_def)

lemma path_broker:
  "sock_in (the_socket (frontend_socket (demo_broker [] [] [])) (demo_broker [] [] [])) = []"
  "sock_in (the_socket (conn_socket (connection_info_dealer 1) (demo_broker [] [] [])) (demo_broker [] [] [])) = []"
  "sock_in (the_socket (conn_socket demo_conn (demo_broker [] [] [])) (demo_broker [] [] [])) = []"
  "conn_live (connection_info_dealer 1) (demo_broker fe d r)" "conn_live demo_conn (demo_broker fe d r)"
  "info_wf demo_conn" "demo_conn = connection_info_router 1 ''c''"
proof -
  show conn: "demo_conn = connection_info_router 1 ''c''" by (simp add: connection_info_router_def demo_conn_def)
  show "info_wf demo_conn" by (simp add: conn)
  show "conn_live (connection_info_dealer 1) (demo_broker fe d r)" "conn_live demo_conn (demo_broker fe d r)"
    by (simp_all add: conn conn_live_def demo_legal)
qed (simp_all add: the_socket_def demo_legal connection_info_router_def [symmetric] demo_conn_def)

text \<open>The request goes from a dealer to a router.\<close>

theorem request_reaches_method_witness:
  "\<exists>p' cb' sb' d.
    request_path demo_env (be_hash demo_env) path_codec Some ''u'' 0 (connection_info_dealer 1) demo_conn
      ''s'' ''m'' ''p'' (Handler 5) 100 demo_process (demo_broker [] [] []) (demo_broker [] [] [])
      = Inr (p', cb', sb')
    \<and> rc_heap p' 10 = Some (new_rpc_controller 8 (Handler 5) 100)
    \<and> worker_step path_we 1 (Handle_Data_Cmd d) (demo_process,
        (new_worker 0)\<lparr>request_handler_map := [demo_conn \<mapsto> demo_handler]\<rparr>) =
      Inr (True, (demo_process\<lparr>user_calls := [Call_Method 3 0 ''p'' demo_conn 8]\<rparr>,
        (new_worker 0)\<lparr>request_handler_map := [demo_conn \<mapsto> demo_handler]\<rparr>))"
proof -
  let ?w = "(new_worker 0)\<lparr>request_handler_map := [demo_conn \<mapsto> demo_handler]\<rparr>"
  have p: "next_event_id demo_process = 8" "next_addr demo_process = 10" by (simp_all add: demo_process_def)
  have h: "request_handler_map ?w demo_conn = Some demo_handler" "rh_conn_info demo_handler = demo_conn"
    by (simp_all add: demo_process_fields)
  have se: "se_find_method (we_services path_we) 3 ''m'' = Some 0" "se_parses (we_services path_we) 3 0 ''p''"
    by (simp_all add: path_we_def demo_we_def)
  from request_reaches_method [where req = "''p''" and serialize = Some and pb = path_codec and h = "''q''"
      and p = demo_process and service = "''s''" and meth = "''m''" and we = path_we and env = demo_env
      and bh = "be_hash demo_env" and identity = "''u''" and t = 0 and u = 1 and handler = "Handler 5"
      and timeout_ms = 100,
      OF demo_broker_inv info_wf_intros(3) demo_legal(1) _ path_broker(1) _ _ _ _ path_codec(5)
        demo_broker_inv path_broker(6,5,3) h demo_process_fields(1) demo_handler_ok demo_refs_live demo_named se]
  show ?thesis
    unfolding p by (simp add: path_codec demo_process_fields) blast
qed

text \<open>The reply goes from a dealer to a router: the side that bound the endpoint had sent the request.\<close>

theorem reply_reaches_handler_witness:
  "\<exists>sp' sb' cb' d.
    reply_path demo_env (be_hash demo_env) path_codec Some ''u'' 1 (connection_info_dealer 1) demo_conn 8 ''p''
      demo_process (demo_broker [] [] []) (demo_broker [] [] []) = Inr (sp', sb', cb')
    \<and> queue_of (bt_commander cb') 1 = [Handle_Data_Cmd d]
    \<and> worker_step path_we 0 (Handle_Data_Cmd d)
        (demo_process\<lparr>rc_heap := [6 \<mapsto> demo_controller\<lparr>rc_event_id := 8\<rparr>]\<rparr>,
         (new_worker 0)\<lparr>remote_response_map := [8 \<mapsto> 6]\<rparr>) =
      Inr (True, (demo_process\<lparr>user_calls :=
          [Response_Handler_Call \<lparr>hc_target = 5, hc_error = None, hc_data = Some ''p''\<rparr>],
          rc_heap := Map.empty\<rparr>, new_worker 0))"
proof -
  let ?p = "demo_process\<lparr>rc_heap := [6 \<mapsto> demo_controller\<lparr>rc_event_id := 8\<rparr>]\<rparr>"
  let ?w = "(new_worker 0)\<lparr>remote_response_map := [8 \<mapsto> 6]\<rparr>"
  have w: "rpcs_ok (?p, ?w)" "remote_response_map ?w 8 = Some 6"
    "rc_heap ?p 6 = Some (demo_controller\<lparr>rc_event_id := 8\<rparr>)"
    "rc_handler (demo_controller\<lparr>rc_event_id := 8\<rparr>) = Handler 5"
    by (simp_all add: rpcs_ok_def demo_controller_def)
  have q: "queue_of (bt_commander (demo_broker [] [] [])) 1 = []" by (simp add: queue_of_def)
  have of: "worker_of (be_hash demo_env) demo_conn (demo_broker [] [] []) = 1"
    using demo_worker_of(2) by (simp add: path_broker(7))
  have resp: "Some ''p'' = Some ''p''" ..
  from reply_reaches_handler [where serialize = Some and resp = "''p''" and we = path_we and env = demo_env
      and bh = "be_hash demo_env" and identity = "''u''" and u = 1 and t = 0 and sp = demo_process,
      OF demo_broker_inv info_wf_intros(3) path_broker(4,1) resp path_codec(3,4) demo_broker_inv
        path_broker(6,5,3) w]
  show ?thesis
    unfolding of q
    by (simp add: delete_controller_def call_user_def new_worker_def demo_process_fields)
qed

end
