(* ===== verification/Round_Trip.thy ===== *)
theory Round_Trip
  imports Rpc_Path
begin

text \<open>
  A whole rpc, there and back: the request of a thread over both brokers to a worker of the other side,
  the method or the refusal there, and the reply over both brokers to the worker that waits for it. The
  operations are those of \<open>Rpc_Path\<close>, composed in the order they happen in, and each worker executes
  what is in its queue. Either side of the connection may be the one that calls.
\<close>

section \<open>The composition\<close>

text \<open>
  The method that a worker has called answers before it returns: with a message, or with an error code,
  through the replier it was given.
\<close>

datatype 'm method_answer = Replies 'm | Replies_Error int string

definition run_method ::
  "header_codec \<Rightarrow> ('m \<Rightarrow> bytes option) \<Rightarrow> (nat \<Rightarrow> nat \<Rightarrow> bytes \<Rightarrow> 'm method_answer) \<Rightarrow> thread
    \<Rightarrow> user_call list \<Rightarrow> process \<Rightarrow> process result" where
  "run_method pb serialize answer u calls p = (case calls of
     Call_Method k d pl info ev # _ \<Rightarrow> (case answer k d pl of
         Replies resp \<Rightarrow> connection_reply pb serialize u info ev resp p
       | Replies_Error code msg \<Rightarrow>
           replier_reply_error pb u \<lparr>rep_conn = info, rep_event_id = ev\<rparr> code msg p)
   | _ \<Rightarrow> Inr p)"

text \<open>What does not change during an rpc: the environments of both sides, the threads, the identities.\<close>

record 'm rpc_sides =
  client_env :: broker_env
  client_we :: worker_env
  client_thread :: thread
  client_identity :: string
  client_worker :: thread
  server_env :: broker_env
  server_we :: worker_env
  server_worker :: thread
  server_identity :: string
  rs_serialize :: "'m \<Rightarrow> bytes option"
  rs_answer :: "nat \<Rightarrow> nat \<Rightarrow> bytes \<Rightarrow> 'm method_answer"

definition rpc_round_trip ::
  "'m rpc_sides \<Rightarrow> connection_info \<Rightarrow> connection_info \<Rightarrow> string \<Rightarrow> string \<Rightarrow> 'm \<Rightarrow> response_message_handler
    \<Rightarrow> int64 \<Rightarrow> process \<times> worker \<Rightarrow> broker_thread \<Rightarrow> process \<times> worker \<Rightarrow> broker_thread
    \<Rightarrow> ((process \<times> worker) \<times> (process \<times> worker)) result" where
  "rpc_round_trip rs here there service meth req handler timeout_ms pw cb sw sb =
     bindE (request_path (client_env rs) (be_hash (server_env rs)) (we_codec (client_we rs))
         (rs_serialize rs) (client_identity rs) (client_thread rs) here there service meth req handler
         timeout_ms (fst pw) cb sb) (\<lambda>(p1, cb1, sb1).
     bindE (worker_loop (server_we rs) (server_worker rs)
         (queue_of (bt_commander sb1) (worker_of (be_hash (server_env rs)) there sb1)) sw)
       (\<lambda>(_, _, (sp1, sw1)).
     bindE (run_method (we_codec (server_we rs)) (rs_serialize rs) (rs_answer rs) (server_worker rs)
         (drop (length (user_calls (fst sw))) (user_calls sp1)) sp1) (\<lambda>sp2.
     bindE (reply_crosses (server_env rs) (be_hash (client_env rs)) (server_identity rs) there here
         (new_frames (fe_socket (server_worker rs) (fst sw)) (fe_socket (server_worker rs) sp2)) sb1 cb1)
       (\<lambda>(sb2, cb2).
     bindE (worker_loop (client_we rs) (client_worker rs)
         (queue_of (bt_commander cb2) (worker_of (be_hash (client_env rs)) here cb2)) (p1, snd pw))
       (\<lambda>(_, _, pw1). Inr (pw1, (sp2, sw1)))))))"

section \<open>What the caller is told\<close>

text \<open>The answer to a request: what the method says, or the error code it is refused with.\<close>

definition final_answer :: "'m rpc_sides \<Rightarrow> bytes \<Rightarrow> request_outcome \<Rightarrow> 'm method_answer" where
  "final_answer rs pl oc = (case oc of Served k d \<Rightarrow> rs_answer rs k d pl
     | Refused code msg \<Rightarrow> Replies_Error code msg)"

definition answer_header :: "uint64 \<Rightarrow> 'm method_answer \<Rightarrow> rpc_header" where
  "answer_header ev ans = (case ans of Replies resp \<Rightarrow> response_header ev
     | Replies_Error code msg \<Rightarrow> error_header ev code msg)"

definition answer_payload :: "'m rpc_sides \<Rightarrow> 'm method_answer \<Rightarrow> bytes" where
  "answer_payload rs ans = (case ans of Replies resp \<Rightarrow> the (rs_serialize rs resp)
     | Replies_Error code msg \<Rightarrow> [])"

definition told_outcome :: "'m rpc_sides \<Rightarrow> 'm method_answer \<Rightarrow> outcome" where
  "told_outcome rs ans = (case ans of Replies resp \<Rightarrow> (None, Some (the (rs_serialize rs resp)))
   | Replies_Error code msg \<Rightarrow> (Some (new_rpc_error (we_lexical_cast (client_we rs)) code msg), None))"

definition method_call :: "connection_info \<Rightarrow> uint64 \<Rightarrow> bytes \<Rightarrow> request_outcome \<Rightarrow> user_call list" where
  "method_call there ev pl oc = (case oc of Served k d \<Rightarrow> [Call_Method k d pl there ev]
     | Refused code msg \<Rightarrow> [])"

section \<open>The server's side\<close>

lemma answered_replies:
  assumes "\<And>resp. rs_serialize rs resp \<noteq> None" and "serializes pb"
    and ans: "ans = final_answer rs pl oc" and hb: "hb = the (serialize_hdr pb (answer_header ev ans))"
  shows "\<exists>sp2. run_method pb (rs_serialize rs) (rs_answer rs) u
      (drop (length (user_calls sp)) (user_calls (answered pb u there ev pl oc sp)))
      (answered pb u there ev pl oc sp) = Inr sp2
    \<and> user_calls sp2 = user_calls sp @ method_call there ev pl oc
    \<and> new_frames (fe_socket u sp) (fe_socket u sp2) = reply_frames_of there hb (answer_payload rs ans)"
proof (cases oc)
  case (Served k d)
  let ?sp1 = "sp\<lparr>user_calls := user_calls sp @ [Call_Method k d pl there ev]\<rparr>"
  have fe: "fe_socket u ?sp1 = fe_socket u sp"
    by (cases "tss_fe_socket sp u") (simp_all add: fe_socket_def)
  note sent = fe_sends_out [OF fe, of "reply_frames_of there hb (answer_payload rs ans)"]
  show ?thesis
  proof (cases "rs_answer rs k d pl")
    case (Replies resp)
    obtain b where b: "rs_serialize rs resp = Some b" using assms(1) [of resp] by blast
    have h: "serialize_hdr pb (response_header ev) = Some hb"
      using assms(2) by (auto simp: hb ans final_answer_def Served Replies answer_header_def serializes_def)
    from connection_reply_eq [where serialize = "rs_serialize rs", OF b h, of u there ?sp1] sent
    show ?thesis
      by (simp add: Served Replies answered_def run_method_def method_call_def answer_payload_def b ans
          final_answer_def fe_sends_def)
  next
    case (Replies_Error code msg)
    from reply_error_answered [OF assms(2), of u there ev code msg ?sp1 pl] sent
    show ?thesis
      by (simp add: Served Replies_Error answered_def run_method_def method_call_def answer_payload_def ans hb
          final_answer_def answer_header_def fe_sends_def)
  qed
next
  case (Refused code msg)
  then show ?thesis
    using fe_sends_out [of u sp sp]
    by (simp add: answered_def run_method_def method_call_def answer_payload_def hb answer_header_def ans
        final_answer_def fe_sends_def)
qed

lemma request_answered:
  assumes "request_handler_map w there = Some rh" "rh_conn_info rh = there" "mgr_alive sp"
      "handler_ok sp rh" "refs_live sp rh" "serializes (we_codec we)"
    and "parse_hdr (we_codec we) h = Some (request_header ev service meth)"
  shows "worker_loop we u [Handle_Data_Cmd \<lparr>hd_info = Some there, hd_header = h, hd_payload = pl\<rparr>] (sp, w) =
    Inr (True, [], (answered (we_codec we) u there ev pl
      (outcome_of (we_services we) (named_class sp rh service) service meth pl) sp, w))"
proof -
  let ?d = "\<lparr>hd_info = Some there, hd_header = h, hd_payload = pl\<rparr>"
  have rq: "is_request we ?d there (the (req_hdr (request_header ev service meth)))"
    using assms(7) by (simp add: is_request_def request_header_def)
  show ?thesis
    by (simp add: request_step [OF rq] worker_request_known [OF rq assms(1,6,3,4,5,2)])
      (simp add: request_header_def served_by_def)
qed

section \<open>The client's side\<close>

lemma answer_completes:
  assumes "parse_hdr (we_codec (client_we rs)) h = Some (answer_header ev ans)"
  shows "completes (client_we rs) (Handle_Data_Cmd
      \<lparr>hd_info = i, hd_header = h, hd_payload = answer_payload rs ans\<rparr>) = Some (ev, told_outcome rs ans)"
  using assms
  by (cases ans) (simp_all add: completes_def answer_header_def response_header_def rpc_header_default_def
      error_header_def response_outcome_def answer_payload_def told_outcome_def)

text \<open>The worker starts the rpc and is told its outcome.\<close>

lemma start_and_finish:
  assumes "rpcs_ok (p, w)" "a \<noteq> NULL" "rc_heap p a = Some c" "completes we r = Some (rc_event_id c, oc)"
  shows "worker_loop we u [Start_Rpc_Cmd a, r] (p, w) = Inr (True, [],
    (delete_controller a (call_user (map Response_Handler_Call (calls_of oc c)) p),
     w\<lparr>remote_response_map := (remote_response_map w)(rc_event_id c := None)\<rparr>))"
proof -
  let ?w = "w\<lparr>remote_response_map := (remote_response_map w)(rc_event_id c \<mapsto> a)\<rparr>"
  have "worker_step we u (Start_Rpc_Cmd a) (p, w) = Inr (True, (p, ?w))"
    using assms(2,3) by (simp add: worker_step_def worker_start_rpc_def deref_controller_def get_event_id_def)
  moreover have "rpcs_ok (p, ?w)" using assms(1-3) by (auto simp: rpcs_ok_def)
  ultimately show ?thesis
    using worker_step_completes [OF assms(4), of u "(p, ?w)"] finish_eq [of p ?w oc "rc_event_id c"] assms(3)
    by simp
qed

section \<open>There and back\<close>

text \<open>What the theorem needs of the process that calls: a worker whose pending rpcs are in order, a free
  address for the controller, an idle broker and a live connection.\<close>

definition calls_ready :: "broker_env \<Rightarrow> connection_info \<Rightarrow> process \<times> worker \<Rightarrow> broker_thread \<Rightarrow> bool" where
  "calls_ready env here pw cb \<longleftrightarrow> broker_inv cb \<and> info_wf here \<and> conn_live here cb
     \<and> sock_in (the_socket (frontend_socket cb) cb) = [] \<and> sock_in (the_socket (conn_socket here cb) cb) = []
     \<and> queue_of (bt_commander cb) (worker_of (be_hash env) here cb) = []
     \<and> rpcs_ok pw \<and> next_addr (fst pw) \<noteq> NULL \<and> rc_heap (fst pw) (next_addr (fst pw)) = None"

text \<open>And of the process that is called: a worker that has a handler for the connection.\<close>

definition serves_ready ::
  "broker_env \<Rightarrow> connection_info \<Rightarrow> request_handler \<Rightarrow> process \<times> worker \<Rightarrow> broker_thread \<Rightarrow> bool" where
  "serves_ready env there rh sw sb \<longleftrightarrow> broker_inv sb \<and> info_wf there \<and> conn_live there sb
     \<and> sock_in (the_socket (frontend_socket sb) sb) = [] \<and> sock_in (the_socket (conn_socket there sb) sb) = []
     \<and> queue_of (bt_commander sb) (worker_of (be_hash env) there sb) = []
     \<and> request_handler_map (snd sw) there = Some rh \<and> rh_conn_info rh = there \<and> mgr_alive (fst sw)
     \<and> handler_ok (fst sw) rh \<and> refs_live (fst sw) rh"

definition outcome_there ::
  "'m rpc_sides \<Rightarrow> process \<Rightarrow> request_handler \<Rightarrow> string \<Rightarrow> string \<Rightarrow> bytes \<Rightarrow> request_outcome" where
  "outcome_there rs sp rh service meth pl =
     outcome_of (we_services (server_we rs)) (named_class sp rh service) service meth pl"

lemma calls_readyD:
  assumes "calls_ready env here (p, w) cb"
  shows "broker_inv cb" "info_wf here" "conn_live here cb" "sock_in (the_socket (frontend_socket cb) cb) = []"
    "next_addr p \<noteq> NULL" "sock_in (the_socket (conn_socket here cb) cb) = []"
    "queue_of (bt_commander cb) (worker_of (be_hash env) here cb) = []" "rpcs_ok (p, w)"
    "rc_heap p (next_addr p) = None"
  using assms by (simp_all add: calls_ready_def)

lemma serves_readyD:
  assumes "serves_ready env there rh (sp, sw) sb"
  shows "broker_inv sb" "info_wf there" "conn_live there sb" "sock_in (the_socket (conn_socket there sb) sb) = []"
    "sock_in (the_socket (frontend_socket sb) sb) = []"
    "queue_of (bt_commander sb) (worker_of (be_hash env) there sb) = []"
    "request_handler_map sw there = Some rh" "rh_conn_info rh = there" "mgr_alive sp" "handler_ok sp rh"
    "refs_live sp rh"
  using assms by (simp_all add: serves_ready_def)

lemma with_controller_fields [simp]:
  "rc_heap (with_controller handler timeout_ms p) =
     (rc_heap p)(next_addr p \<mapsto> new_rpc_controller (next_event_id p) handler timeout_ms)"
  "user_calls (with_controller handler timeout_ms p) = user_calls p"
  "rc_event_id (new_rpc_controller ev handler timeout_ms) = ev"
  by (simp_all add: with_controller_def new_rpc_controller_def)

lemma new_call_ok:
  assumes "rpcs_ok (p, w)" "rc_heap p (next_addr p) = None"
  shows "rpcs_ok (fe_sends t ms (with_controller handler timeout_ms p), w)"
  using assms by (fastforce simp: rpcs_ok_def)

text \<open>The way there: afterwards both brokers are idle again, and the server's worker has answered.\<close>

lemma request_there:
  fixes rs :: "'m rpc_sides"
  assumes c: "calls_ready (client_env rs) here (p, w) cb"
    and s: "serves_ready (server_env rs) there rh (sp, sw) sb"
    and req: "rs_serialize rs req = Some pl"
    and h: "serialize_hdr (we_codec (client_we rs)) (request_header (next_event_id p) service meth) = Some h"
      "parse_hdr (we_codec (server_we rs)) h = Some (request_header (next_event_id p) service meth)"
      "serializes (we_codec (server_we rs))"
  shows "\<exists>cb1 sb1. request_path (client_env rs) (be_hash (server_env rs)) (we_codec (client_we rs))
      (rs_serialize rs) (client_identity rs) (client_thread rs) here there service meth req handler timeout_ms
      p cb sb = Inr (fe_sends (client_thread rs) (request_frames here (next_addr p) h pl)
        (with_controller handler timeout_ms p), cb1, sb1)
    \<and> settled cb cb1 \<and> settled sb sb1
    \<and> queue_of (bt_commander cb1) (worker_of (be_hash (client_env rs)) here cb) = [Start_Rpc_Cmd (next_addr p)]
    \<and> worker_loop (server_we rs) (server_worker rs)
        (queue_of (bt_commander sb1) (worker_of (be_hash (server_env rs)) there sb1)) (sp, sw) =
      Inr (True, [], (answered (we_codec (server_we rs)) (server_worker rs) there (next_event_id p) pl
        (outcome_there rs sp rh service meth pl) sp, sw))"
proof -
  note cr = calls_readyD [OF c] and sr = serves_readyD [OF s]
  from request_path_eq [where serialize = "rs_serialize rs" and p = p, OF cr(1-5) req h(1) sr(1-4),
      of "client_env rs" "be_hash (server_env rs)" "client_identity rs" "client_thread rs" handler timeout_ms]
  obtain cb1 sb1 where path: "request_path (client_env rs) (be_hash (server_env rs)) (we_codec (client_we rs))
      (rs_serialize rs) (client_identity rs) (client_thread rs) here there service meth req handler timeout_ms
      p cb sb = Inr (fe_sends (client_thread rs) (request_frames here (next_addr p) h pl)
        (with_controller handler timeout_ms p), cb1, sb1)"
      "settled cb cb1" "settled sb sb1"
    and q: "queue_of (bt_commander cb1) (worker_of (be_hash (client_env rs)) here cb) = [Start_Rpc_Cmd (next_addr p)]"
      "queue_of (bt_commander sb1) (worker_of (be_hash (server_env rs)) there sb) =
        [Handle_Data_Cmd \<lparr>hd_info = Some there, hd_header = h, hd_payload = pl\<rparr>]"
    unfolding cr(7) sr(6) append_Nil by blast
  have "worker_loop (server_we rs) (server_worker rs)
        (queue_of (bt_commander sb1) (worker_of (be_hash (server_env rs)) there sb1)) (sp, sw) =
      Inr (True, [], (answered (we_codec (server_we rs)) (server_worker rs) there (next_event_id p) pl
        (outcome_there rs sp rh service meth pl) sp, sw))"
    using request_answered [OF sr(7-11) h(3,2), of "server_worker rs" pl]
    by (simp add: settledD(5) [OF path(3)] q(2) outcome_there_def)
  with path q(1) show ?thesis by blast
qed



text \<open>
  The side that bound the endpoint calls a service that the side that connected has registered on its
  connection.
\<close>

definition demo_sides :: "bytes rpc_sides" where
  "demo_sides = \<lparr>client_env = demo_env, client_we = path_we, client_thread = 0, client_identity = ''u'',
     client_worker = 1, server_env = demo_env, server_we = path_we, server_worker = 1,
     server_identity = ''u'', rs_serialize = Some, rs_answer = (\<lambda>k d b. Replies (''a'' @ b))\<rparr>"

definition demo_dealer_handler :: request_handler where
  "demo_dealer_handler = demo_handler\<lparr>rh_conn_info := connection_info_dealer 1\<rparr>"

lemma demo_queues:
  "queue_of (bt_commander (demo_broker [] [] [])) (worker_of (be_hash demo_env) (connection_info_dealer 1)
     (demo_broker [] [] [])) = []"
  "queue_of (bt_commander (demo_broker [] [] [])) (worker_of (be_hash demo_env) demo_conn
     (demo_broker [] [] [])) = []"
  unfolding path_broker(7) demo_worker_of by (simp_all add: queue_of_def)

lemma demo_sides_ready:
  "calls_ready demo_env demo_conn (demo_process, new_worker 0) (demo_broker [] [] [])"
  "serves_ready demo_env (connection_info_dealer 1) demo_dealer_handler (demo_process,
     (new_worker 0)\<lparr>request_handler_map := [connection_info_dealer 1 \<mapsto> demo_dealer_handler]\<rparr>)
     (demo_broker [] [] [])"
  using demo_broker_inv path_broker(1-6) demo_queues demo_rpcs demo_handler_ok demo_refs_live
  by (simp_all add: calls_ready_def serves_ready_def demo_process_fields demo_dealer_handler_def
      handler_ok_def refs_live_def)


end
