(* ===== verification/Worker_Refine.thy ===== *)
theory Worker_Refine
  imports Worker_Spec
begin

text \<open>
  The abstract specification of a worker as a client sees it: a table of the events that wait for an
  outcome, with their response handlers, and the calls made so far. A worker keeps an index of
  controllers on a shared heap instead, allocated by the threads that send and freed by the worker;
  the theorem says that this is a correct implementation of the table.
\<close>

section \<open>The table\<close>

datatype rpc_event = Started uint64 response_message_handler | Outcome uint64 outcome | Other

type_synonym rpc_table = "(uint64 \<Rightarrow> response_message_handler option) \<times> handler_call list"

definition told_of :: "outcome \<Rightarrow> response_message_handler \<Rightarrow> handler_call list" where
  "told_of oc h = (case h of Empty_Handler \<Rightarrow> []
     | Handler k \<Rightarrow> [\<lparr>hc_target = k, hc_error = fst oc, hc_data = snd oc\<rparr>])"

fun table_step :: "rpc_table \<Rightarrow> rpc_event \<Rightarrow> rpc_table" where
  "table_step (m, calls) (Started ev h) = (m(ev \<mapsto> h), calls)"
| "table_step (m, calls) (Outcome ev oc) = (case m ev of None \<Rightarrow> (m, calls)
     | Some h \<Rightarrow> (m(ev := None), calls @ told_of oc h))"
| "table_step mc Other = mc"

section \<open>The implementation\<close>

text \<open>What a command is to the table, given the controllers on the heap.\<close>

definition event_of :: "worker_env \<Rightarrow> (ptr \<Rightarrow> rpc_controller option) \<Rightarrow> worker_cmd \<Rightarrow> rpc_event" where
  "event_of we heap c = (case c of
     Start_Rpc_Cmd a \<Rightarrow> (case heap a of None \<Rightarrow> Other | Some rc \<Rightarrow> Started (rc_event_id rc) (rc_handler rc))
   | _ \<Rightarrow> (case completes we c of None \<Rightarrow> Other | Some (ev, oc) \<Rightarrow> Outcome ev oc))"

text \<open>The table a worker and its process stand for.\<close>

definition pending :: "process \<times> worker \<Rightarrow> uint64 \<Rightarrow> response_message_handler option" where
  "pending pw ev = (case remote_response_map (snd pw) ev of None \<Rightarrow> None
     | Some a \<Rightarrow> map_option rc_handler (rc_heap (fst pw) a))"

definition table_of :: "process \<times> worker \<Rightarrow> rpc_table" where
  "table_of pw = (pending pw, handler_calls (fst pw))"

lemma event_of_start [simp]:
  "event_of we heap (Start_Rpc_Cmd a) =
     (case heap a of None \<Rightarrow> Other | Some rc \<Rightarrow> Started (rc_event_id rc) (rc_handler rc))"
  by (simp add: event_of_def)

lemma event_of_outcome [simp]:
  assumes "completes we c = Some (ev, oc)"
  shows "event_of we heap c = Outcome ev oc"
proof (cases c)
  case (Start_Rpc_Cmd a)
  then show ?thesis using assms by (simp add: completes_def)
qed (use assms in \<open>simp_all add: event_of_def\<close>)

lemma event_of_other [simp]:
  assumes "\<not> is_rpc_cmd we c"
  shows "event_of we heap c = Other"
  using not_rpc_cmd [OF assms] by (cases c) (simp_all add: event_of_def)

lemma calls_of_told: "calls_of oc c = told_of oc (rc_handler c)"
  by (simp add: calls_of_def told_of_def)

lemma table_started:
  assumes "rc_heap p a = Some c"
  shows "table_of (p, w\<lparr>remote_response_map := (remote_response_map w)(rc_event_id c \<mapsto> a)\<rparr>) =
    table_step (table_of (p, w)) (Started (rc_event_id c) (rc_handler c))"
  using assms by (auto simp: table_of_def pending_def fun_eq_iff split: option.split)

lemma table_finished:
  assumes "rpcs_ok (p, w)" and "finish oc ev (p, w) = Inr pw'"
  shows "table_of pw' = table_step (table_of (p, w)) (Outcome ev oc)"
proof (cases "remote_response_map w ev")
  case (Some a)
  obtain c where c: "rc_heap p a = Some c" "rc_event_id c = ev"
    using rpcs_okD(2) [OF assms(1) Some] by blast
  have pw': "pw' = (delete_controller a (call_user (map Response_Handler_Call (calls_of oc c)) p),
      w\<lparr>remote_response_map := (remote_response_map w)(ev := None)\<rparr>)"
    using assms(2) Some c by (simp add: finish_eq [OF assms(1)])
  have other: "b \<noteq> a" if "remote_response_map w e = Some b" "e \<noteq> ev" for e b
    using rpcs_okD(2) [OF assms(1) that(1)] c that(2) by auto
  have "pending pw' = (pending (p, w))(ev := None)"
    using other by (auto simp: pending_def pw' split: option.split)
  moreover have "pending (p, w) ev = Some (rc_handler c)"
    using Some c by (simp add: pending_def)
  ultimately show ?thesis
    by (simp add: table_of_def) (simp add: pw' handler_calls_append calls_of_told)
next
  case None
  then have "pw' = (p, w)" "pending (p, w) ev = None"
    using assms(2) by (auto simp: finish_eq [OF assms(1)] pending_def)
  then show ?thesis by (simp add: table_of_def)
qed

lemma table_same: "same_rpcs pw pw' \<Longrightarrow> table_of pw' = table_of pw"
  by (simp add: same_rpcs_def table_of_def pending_def fun_eq_iff cong: option.case_cong)

text \<open>A step frees no controller that is still to be started.\<close>

lemma step_keeps_starts:
  assumes "rpcs_ok (p, w)" and "fresh_starts (c # cs) (p, w)"
    and "worker_step we t c (p, w) = Inr (b, (p', w'))" and "a \<in> set (started cs)"
  shows "rc_heap p' a = rc_heap p a"
proof (cases "is_rpc_cmd we c")
  case True
  then show ?thesis
  proof (cases rule: is_rpc_cmd_cases)
    case (1 a')
    then show ?thesis using started_step [OF assms(1) assms(2) [unfolded 1], of we t] assms(3) by auto
  next
    case (2 ev oc)
    have f: "finish oc ev (p, w) = Inr (p', w')"
      using assms(3) unfolding worker_step_completes [OF 2] by (auto simp: result_simps)
    have "a \<notin> ran (remote_response_map w)"
      using assms(2,4) by (auto simp: fresh_starts_def)
    with f show ?thesis
      by (auto simp: finish_eq [OF assms(1)] intro: ranI split: option.splits)
  qed
next
  case False
  then show ?thesis
    using worker_step_same [OF assms(3)] not_rpc_cmd [OF False] by (simp add: same_rpcs_def)
qed

lemma table_stepped:
  assumes "rpcs_ok (p, w)" and "fresh_starts (c # cs) (p, w)"
    and "worker_step we t c (p, w) = Inr (b, (p', w'))"
  shows "table_of (p', w') = table_step (table_of (p, w)) (event_of we (rc_heap p) c)"
proof (cases "is_rpc_cmd we c")
  case True
  then show ?thesis
  proof (cases rule: is_rpc_cmd_cases)
    case (1 a)
    obtain c' where "rc_heap p a = Some c'" "(p', w') =
        (p, w\<lparr>remote_response_map := (remote_response_map w)(rc_event_id c' \<mapsto> a)\<rparr>)"
      using started_step [OF assms(1) assms(2) [unfolded 1], of we t] assms(3) 1 by auto
    then show ?thesis using table_started 1 by simp
  next
    case (2 ev oc)
    have "finish oc ev (p, w) = Inr (p', w')"
      using assms(3) unfolding worker_step_completes [OF 2] by (auto simp: result_simps)
    from table_finished [OF assms(1) this] show ?thesis using 2 by simp
  qed
next
  case False
  then show ?thesis
    using table_same worker_step_same [OF assms(3)] not_rpc_cmd [OF False] by simp
qed

lemma event_of_heap:
  assumes "\<And>a. a \<in> set (started cs) \<Longrightarrow> heap' a = heap a"
  shows "map (event_of we heap') cs = map (event_of we heap) cs"
  using assms
proof (induction cs)
  case (Cons c cs)
  then show ?case by (cases c) (simp_all add: event_of_def)
qed simp

lemma worker_refines:
  assumes "rpcs_ok (p, w)" and "fresh_starts cs (p, w)" and "Quit_Worker_Cmd \<notin> set cs"
    and "worker_loop we t cs (p, w) = Inr (b, rest, pw')"
  shows "table_of pw' = foldl table_step (table_of (p, w)) (map (event_of we (rc_heap p)) cs)"
  using assms
proof (induction cs arbitrary: p w)
  case (Cons c cs)
  obtain p1 w1 where 1: "worker_step we t c (p, w) = Inr (True, (p1, w1))"
    "worker_loop we t cs (p1, w1) = Inr (b, rest, pw')"
    using Cons.prems(3,4) by (cases c) (fastforce simp: worker_step_def result_simps)+
  have heap: "map (event_of we (rc_heap p1)) cs = map (event_of we (rc_heap p)) cs"
    by (rule event_of_heap) (rule step_keeps_starts [OF Cons.prems(1,2) 1(1)])
  show ?case
    using Cons.IH [OF _ _ _ 1(2)] Cons.prems(3) worker_step_counts [OF Cons.prems(1,2) 1(1)]
    by (simp add: heap table_stepped [OF Cons.prems(1,2) 1(1)])
qed simp

text \<open>
  C12: A worker implements the table. Whatever commands it executes, the events that wait, their
  handlers, and the calls of handlers with their arguments, in order, are what the table has after the
  same starts and outcomes; controllers, their addresses and the connections do not show.
\<close>

theorem worker_refines_table:
  assumes "rpcs_ok (p, w)" and "fresh_starts cs (p, w)" and "Quit_Worker_Cmd \<notin> set cs"
    and "worker_loop we t cs (p, w) = Inr (b, rest, pw')"
  shows "table_of pw' = foldl table_step (table_of (p, w)) (map (event_of we (rc_heap p)) cs)"
  using assms by (rule worker_refines)

theorem worker_refines_table_witness:
  "\<exists>pw'. worker_loop demo_we 0 [Start_Rpc_Cmd 6, demo_data ''r'', Handle_Timeout_Cmd 7]
     (demo_process, new_worker 0) = Inr (True, [], pw')
    \<and> table_of pw' = (Map.empty, [\<lparr>hc_target = 5, hc_error = None, hc_data = Some ''p''\<rparr>])"
proof -
  let ?cs = "[Start_Rpc_Cmd 6, demo_data ''r'', Handle_Timeout_Cmd 7]"
  obtain p' w' where l: "worker_loop demo_we 0 ?cs (demo_process, new_worker 0) = Inr (True, [], (p', w'))"
    using demo_loop by blast
  have q: "Quit_Worker_Cmd \<notin> set ?cs" by (simp add: demo_data_def)
  have e: "map (event_of demo_we (rc_heap demo_process)) ?cs =
      [Started 7 (Handler 5), Outcome 7 (None, Some ''p''), Outcome 7 (timeout_outcome demo_we)]"
    by (simp add: demo_completes) (simp add: demo_process_fields demo_controller_def)
  have t0: "table_of (demo_process, new_worker 0) = (Map.empty, [])"
    by (simp add: table_of_def pending_def fun_eq_iff new_worker_def handler_calls_def demo_process_fields)
  have "table_of (p', w') = (Map.empty, [\<lparr>hc_target = 5, hc_error = None, hc_data = Some ''p''\<rparr>])"
    unfolding worker_refines_table [OF demo_rpcs demo_starts q l] e t0 by (simp add: told_of_def)
  with l show ?thesis by blast
qed

end
