(* ===== verification/Runs.thy ===== *)
theory Runs
  imports Prelude
begin

text \<open>
  Runs of a labelled step relation, and two contracts for the relations of the model: a step keeps an
  invariant, and a step does to an abstract state what its label says. What a run does follows once for
  all.
\<close>

inductive runs :: "('e \<Rightarrow> 's \<Rightarrow> 's \<Rightarrow> bool) \<Rightarrow> 's \<Rightarrow> 'e list \<Rightarrow> 's \<Rightarrow> bool" for step where
  run_none: "runs step s [] s"
| run_step: "runs step s es s' \<Longrightarrow> step e s' s'' \<Longrightarrow> runs step s (es @ [e]) s''"

lemma runs_trans: "runs step s' es' s'' \<Longrightarrow> runs step s es s' \<Longrightarrow> runs step s (es @ es') s''"
proof (induction rule: runs.induct)
  case (run_step s1 es1 s2 e s3)
  then show ?case using runs.run_step [of step s "es @ es1" s2 e s3] by simp
qed simp

lemma runs_Cons: "step e s s' \<Longrightarrow> runs step s' es s'' \<Longrightarrow> runs step s (e # es) s''"
  using runs_trans [of step s' es s'' s "[e]"] run_step [OF run_none, of step e s s'] by simp

locale keeps_invariant =
  fixes step :: "'e \<Rightarrow> 's \<Rightarrow> 's \<Rightarrow> bool"
    and inv :: "'s \<Rightarrow> bool"
  assumes step_inv: "step e s s' \<Longrightarrow> inv s \<Longrightarrow> inv s'"
begin

lemma run_inv: "runs step s es s' \<Longrightarrow> inv s \<Longrightarrow> inv s'"
  by (induction rule: runs.induct) (auto intro: step_inv)

end

locale simulation = keeps_invariant +
  fixes rel :: "'s \<Rightarrow> 'a \<Rightarrow> bool"
    and astep :: "'a \<Rightarrow> 'e \<Rightarrow> 'a"
  assumes step_rel: "step e s s' \<Longrightarrow> inv s \<Longrightarrow> rel s a \<Longrightarrow> rel s' (astep a e)"
begin

lemma run_rel: "runs step s es s' \<Longrightarrow> inv s \<Longrightarrow> rel s a \<Longrightarrow> rel s' (foldl astep a es)"
proof (induction rule: runs.induct)
  case (run_step s es s' e s'')
  have "rel s'' (astep (foldl astep a es) e)"
    by (rule step_rel [OF run_step(2) run_inv [OF run_step(1,4)] run_step(3) [OF run_step(4,5)]])
  then show ?case by simp
qed simp

end

end
