(* ===== verification/System.thy ===== *)
theory System
  imports Rpc_Path Worker_Refine Runs
begin

text \<open>
  A whole process: its user threads, its broker and its workers, all running at once. Each step is one
  operation of one of them, as the theories of the components model it; between the threads and the
  broker are the commands that are on their way, in order for each thread, and between the broker and
  the workers are the queues. The network may deliver anything at any time, and time passes as it likes.
  This theory has the steps; \<open>System_Inv\<close> and \<open>System_Spec\<close> prove what holds of every run.
\<close>

section \<open>Commands on their way\<close>

datatype user_command =
    Cmd_Request connection_info ptr bytes bytes
  | Cmd_Reply connection_info bytes bytes
  | Cmd_Register connection_info string ptr
  | Cmd_Closure ptr
  | Cmd_Connect string
  | Cmd_Bind string
  | Cmd_Unbind string

text \<open>The frames of a command, as the thread writes them.\<close>

fun command_out :: "user_command \<Rightarrow> message list" where
  "command_out (Cmd_Request info a h pl) = request_frames info a h pl"
| "command_out (Cmd_Reply info h pl) = reply_frames_of info h pl"
| "command_out (Cmd_Register info name svc) = register_frames info name svc"
| "command_out (Cmd_Closure cl) = add_frames cl"
| "command_out (Cmd_Connect endpoint) = connect_frames endpoint"
| "command_out (Cmd_Bind endpoint) = bind_frames endpoint"
| "command_out (Cmd_Unbind endpoint) = unbind_frames endpoint"

fun is_request_cmd :: "user_command \<Rightarrow> bool" where
  "is_request_cmd (Cmd_Request info a h pl) = True"
| "is_request_cmd _ = False"

fun is_reply_cmd :: "user_command \<Rightarrow> bool" where
  "is_reply_cmd (Cmd_Reply info h pl) = True"
| "is_reply_cmd _ = False"

text \<open>The controllers that the commands of a thread carry.\<close>

fun carried :: "user_command list \<Rightarrow> ptr list" where
  "carried [] = []"
| "carried (c # cs) = (case c of Cmd_Request info a h pl \<Rightarrow> [a] | _ \<Rightarrow> []) @ carried cs"

section \<open>State\<close>

text \<open>
  The setting: the environment of the workers, the hash of the broker, the identity that the socket of
  a thread has for the broker, and the thread that a worker runs in.
\<close>

record rpc_setting =
  ps_worker_env :: worker_env
  ps_hash :: boost_hash
  ps_identity :: "thread \<Rightarrow> string"
  ps_thread :: "unsigned_int \<Rightarrow> thread"

record rpc_system =
  sy_process :: process
  sy_broker :: broker_thread
  sy_workers :: "unsigned_int \<Rightarrow> worker"
  sy_wire :: "thread \<Rightarrow> user_command list"

text \<open>
  ZeroMQ hands a whole message to the socket the broker turns to; every handler consumes the messages
  it has been handed before.
\<close>

definition presents :: "ptr \<Rightarrow> message list \<Rightarrow> broker_thread \<Rightarrow> broker_thread" where
  "presents q ms st = st\<lparr>zsocks := (zsocks st)(q \<mapsto> (the_socket q st)\<lparr>sock_in := ms\<rparr>)\<rparr>"

section \<open>Steps\<close>

text \<open>What a command that a worker executes is to the table of pending rpcs.\<close>

definition worker_event :: "worker_env \<Rightarrow> worker_cmd \<Rightarrow> worker \<Rightarrow> rpc_event" where
  "worker_event we c w = (case completes we c of
     Some (ev, oc) \<Rightarrow> if remote_response_map w ev = None then Other else Outcome ev oc
   | None \<Rightarrow> Other)"

text \<open>
  A step, with what it is to the table. A thread sends a request, over a connection in either
  direction, as \<open>connection::request\<close> does: \<open>new\<close> returns an address that is not in use, and there are fewer than
  $2^{64}$ requests. A thread sends another command; every operation of \<open>connection\<close>, \<open>manager\<close> and
  \<open>server\<close> that sends one only writes its frames. The broker takes the next command of a thread; it
  takes a message from a dealer or a router socket; it lets a time pass; it deletes the sockets that
  have been unbound. A worker takes a command from its queue; what it writes are replies.
\<close>

inductive system_step :: "rpc_setting \<Rightarrow> rpc_event \<Rightarrow> rpc_system \<Rightarrow> rpc_system \<Rightarrow> bool" for ps where
  sys_request:
  "connection_request (we_codec (ps_worker_env ps)) Some t info service meth payload handler timeout_ms
      (sy_process s) = Inr p' \<Longrightarrow>
   serialize_hdr (we_codec (ps_worker_env ps))
      (request_header (next_event_id (sy_process s)) service meth) = Some h \<Longrightarrow>
   info_wf info \<Longrightarrow> is_connection_info_legal info (sy_broker s) \<Longrightarrow>
   next_addr (sy_process s) \<noteq> NULL \<Longrightarrow> rc_heap (sy_process s) (next_addr (sy_process s)) = None \<Longrightarrow>
   next_event_id (sy_process s) \<noteq> - 1 \<Longrightarrow>
   system_step ps (Started (next_event_id (sy_process s)) handler) s
     (s\<lparr>sy_process := p', sy_wire := (sy_wire s)(t := sy_wire s t
          @ [Cmd_Request info (next_addr (sy_process s)) h payload])\<rparr>)"
| sys_command:
  "\<not> is_request_cmd c \<Longrightarrow>
   system_step ps Other s (s\<lparr>sy_process := fe_sends t (command_out c) (sy_process s),
     sy_wire := (sy_wire s)(t := sy_wire s t @ [c])\<rparr>)"
| sys_broker:
  "sy_wire s t = c # cs \<Longrightarrow> be_hash env = ps_hash ps \<Longrightarrow> env_ok env (sy_broker s) \<Longrightarrow>
   handle_frontend_socket env (frontend_socket (sy_broker s))
     (presents (frontend_socket (sy_broker s)) (frame_enc (ps_identity ps t) True @ command_out c)
       ((sy_broker s)\<lparr>ctrl_heap := rc_heap (sy_process s)\<rparr>)) = Inr bt' \<Longrightarrow>
   system_step ps Other s (s\<lparr>sy_broker := bt', sy_wire := (sy_wire s)(t := cs)\<rparr>)"
| sys_dealer:
  "is_dealer_index_legal i (sy_broker s) \<Longrightarrow>
   handle_dealer_socket (ps_hash ps) i
     (presents (dealer_sockets (sy_broker s) ! unat i) ms (sy_broker s)) = Inr bt' \<Longrightarrow>
   system_step ps Other s (s\<lparr>sy_broker := bt'\<rparr>)"
| sys_router:
  "is_router_index_legal i (sy_broker s) \<Longrightarrow>
   zsocks (sy_broker s) (router_sockets (sy_broker s) ! unat i) = Some r \<Longrightarrow>
   handle_router_socket (ps_hash ps) i
     (presents (router_sockets (sy_broker s) ! unat i) ms (sy_broker s)) = Inr bt' \<Longrightarrow>
   system_step ps Other s (s\<lparr>sy_broker := bt'\<rparr>)"
| sys_timers:
  "process_closure_run_map (broker_closure_run env) now (sy_broker s) = Inr (ms, bt') \<Longrightarrow>
   system_step ps Other s (s\<lparr>sy_broker := bt'\<rparr>)"
| sys_rebuild:
  "rebuild_poll_items (broker_closure_run env) (sy_broker s) = Inr bt' \<Longrightarrow>
   system_step ps Other s (s\<lparr>sy_broker := bt'\<rparr>)"
| sys_worker:
  "i < bt_workers (sy_broker s) \<Longrightarrow> pop i (bt_commander (sy_broker s)) = Some (c, wc) \<Longrightarrow>
   worker_step (ps_worker_env ps) (ps_thread ps i) c (sy_process s, sy_workers s i) =
     Inr (b, (p', w')) \<Longrightarrow>
   list_all is_reply_cmd cs \<Longrightarrow>
   new_frames (fe_socket (ps_thread ps i) (sy_process s)) (fe_socket (ps_thread ps i) p') =
     concat (map command_out cs) \<Longrightarrow>
   system_step ps (worker_event (ps_worker_env ps) c (sy_workers s i)) s
     (s\<lparr>sy_process := p', sy_broker := (sy_broker s)\<lparr>bt_commander := wc\<rparr>,
        sy_workers := (sy_workers s)(i := w'),
        sy_wire := (sy_wire s)(ps_thread ps i := sy_wire s (ps_thread ps i) @ cs)\<rparr>)"

text \<open>A run, with what its steps are to the table.\<close>

abbreviation system_run :: "rpc_setting \<Rightarrow> rpc_system \<Rightarrow> rpc_event list \<Rightarrow> rpc_system \<Rightarrow> bool" where
  "system_run ps \<equiv> runs (system_step ps)"

text \<open>What the constructor of the manager leaves: nothing has happened yet.\<close>

definition system_start :: "rpc_system \<Rightarrow> bool" where
  "system_start s \<longleftrightarrow> broker_inv (sy_broker s) \<and> r_closure_run_map (sy_broker s) = []
     \<and> (\<forall>i < bt_workers (sy_broker s). queue_of (bt_commander (sy_broker s)) i = []
          \<and> remote_response_map (sy_workers s i) = Map.empty)
     \<and> (\<forall>t. sy_wire s t = []) \<and> rc_heap (sy_process s) = Map.empty
     \<and> user_calls (sy_process s) = [] \<and> next_event_id (sy_process s) = 1"

end
