(* ===== verification/System_Inv.thy ===== *)
theory System_Inv
  imports System
begin

text \<open>
  The invariant of the whole system. First, what each operation of the broker does to the queues of the
  workers; then the ownership of controllers, which move from the thread that made them over the broker
  to a worker, and are in exactly one place at any time.
\<close>

section \<open>Work that starts no rpc\<close>

text \<open>
  \<open>adds_work st st'\<close>: every queue has grown by commands that start no rpc; no connection has gone, and
  no timer.
\<close>

definition adds_work :: "broker_thread \<Rightarrow> broker_thread \<Rightarrow> bool" where
  "adds_work st st' \<longleftrightarrow> workers_inv st' \<and> bt_workers st' = bt_workers st
     \<and> (\<forall>i < bt_workers st. \<exists>cs. queue_of (bt_commander st') i = queue_of (bt_commander st) i @ cs
          \<and> started cs = [])
     \<and> prefix (dealer_sockets st) (dealer_sockets st')
     \<and> r_closure_run_map st' = r_closure_run_map st"

named_theorems adds_intros "operations that add work"

lemma started_append [simp]: "started (cs @ ds) = started cs @ started ds"
  by (induction cs) simp_all

lemma adds_work_refl: "workers_inv st \<Longrightarrow> adds_work st st"
  by (auto simp: adds_work_def)

lemma adds_work_trans: "adds_work a b \<Longrightarrow> adds_work b c \<Longrightarrow> adds_work a c"
  unfolding adds_work_def by (fastforce intro: prefix_order.trans)

lemma adds_work_frames [simp]:
  "adds_work st (st'\<lparr>zsocks := z\<rparr>) = adds_work st st'"
  "adds_work st (st'\<lparr>router_sockets := d\<rparr>) = adds_work st st'"
  "adds_work st (st'\<lparr>bind_map := m\<rparr>) = adds_work st st'"
  "adds_work st (set_should_quit st') = adds_work st st'"
  "adds_work st (delete_closure cl st') = adds_work st st'"
  "adds_work st (reactor_add_socket p c st') = adds_work st st'"
  "adds_work st (reactor_del_socket p c st') = adds_work st st'"
  by (simp_all add: adds_work_def workers_inv_def set_should_quit_def delete_closure_def
      reactor_add_socket_def reactor_del_socket_def)

lemma adds_work_dealer:
  "adds_work st st' \<Longrightarrow> adds_work st (st'\<lparr>zsocks := z, dealer_sockets := dealer_sockets st' @ d\<rparr>)"
  by (auto simp: adds_work_def workers_inv_def prefix_def)

lemma workers_inv_frames [simp]:
  "workers_inv (st\<lparr>zsocks := z\<rparr>) = workers_inv st"
  "workers_inv (st\<lparr>ctrl_heap := h\<rparr>) = workers_inv st"
  by (simp_all add: workers_inv_def)

abbreviation adds :: "broker_thread \<Rightarrow> broker_thread result \<Rightarrow> bool" where
  "adds st \<equiv> ensures (adds_work st)"

abbreviation adds_iter :: "broker_thread \<Rightarrow> (message_iterator \<times> broker_thread) result \<Rightarrow> bool" where
  "adds_iter st \<equiv> ensures (\<lambda>(it, st'). adds_work st st')"

lemma adds_bindE [adds_intros]:
  "adds st r \<Longrightarrow> (\<And>x. adds_work st x \<Longrightarrow> ensures P (k x)) \<Longrightarrow> ensures P (bindE r k)"
  by (rule ensures_bindE)

lemma adds_iter_bindE [adds_intros]:
  "adds_iter st r \<Longrightarrow> (\<And>it x. adds_work st x \<Longrightarrow> ensures P (k (it, x))) \<Longrightarrow> ensures P (bindE r k)"
  by (rule ensures_bindE [where Q = "\<lambda>(it, x). adds_work st x"]) auto

lemma adds_on_socket [adds_intros]: "adds_work st st' \<Longrightarrow> adds st (on_socket p f st')"
  by (rule ensuresI) (auto simp: result_simps)

lemma adds_work_push:
  assumes "adds_work st st'" and "i < wc_workers (bt_commander st')" and "started [c] = []"
  shows "adds_work st (st'\<lparr>bt_commander := push i c (bt_commander st')\<rparr>)"
proof -
  have ok: "commander_ok (bt_commander st')" using assms(1) by (simp add: adds_work_def workers_inv_def)
  have "\<exists>cs. queue_of (push i c (bt_commander st')) j = queue_of (bt_commander st) j @ cs \<and> started cs = []"
    if j: "j < bt_workers st" for j
  proof -
    obtain cs where "queue_of (bt_commander st') j = queue_of (bt_commander st) j @ cs" "started cs = []"
      using assms(1) j by (auto simp: adds_work_def)
    then show ?thesis
      using assms(3) by (intro exI [of _ "if j = i then cs @ [c] else cs"])
        (auto simp: queue_of_push [OF ok assms(2)])
  qed
  with assms(1) commander_ok_push [OF ok assms(2)] show ?thesis
    by (auto simp: adds_work_def workers_inv_def)
qed

lemma adds_on_commander:
  assumes "adds_work st st'"
    and "\<And>wc wc'. f wc = Inr wc' \<Longrightarrow> \<exists>i c. i < wc_workers wc \<and> wc' = push i c wc \<and> started [c] = []"
  shows "adds st (on_commander f st')"
  by (rule ensuresI) (use assms adds_work_push in \<open>fastforce simp: on_commander_def result_simps\<close>)

lemma commander_adds:
  "commander_run_closure i c wc = Inr wc' \<Longrightarrow> \<exists>i x. i < wc_workers wc \<and> wc' = push i x wc \<and> started [x] = []"
  "commander_handle_data i d wc = Inr wc' \<Longrightarrow> \<exists>i x. i < wc_workers wc \<and> wc' = push i x wc \<and> started [x] = []"
  "commander_handle_timeout i e wc = Inr wc' \<Longrightarrow> \<exists>i x. i < wc_workers wc \<and> wc' = push i x wc \<and> started [x] = []"
  "commander_register_svc i info n c wc = Inr wc' \<Longrightarrow> \<exists>i x. i < wc_workers wc \<and> wc' = push i x wc \<and> started [x] = []"
  by (force simp: commander_defs is_worker_index_legal_def split: if_splits)+

lemma adds_commands [adds_intros]:
  assumes "adds_work st st'"
  shows "adds st (on_commander (commander_run_closure i c) st')"
    "adds st (on_commander (commander_handle_data i d) st')"
    "adds st (on_commander (commander_handle_timeout i e) st')"
    "adds st (on_commander (commander_register_svc i info n c) st')"
  by (rule adds_on_commander [OF assms]; erule commander_adds)+

lemma adds_with_iterator [adds_intros]:
  assumes "adds_work st st'" and "\<And>it. adds_iter st (body it st')"
  shows "adds st (with_iterator p body st')"
proof -
  have rest: "adds st (case r of (it, st1) \<Rightarrow> bindE (message_iterator_destroy it) (\<lambda>ms.
      on_socket p (\<lambda>s. Inr (s\<lparr>sock_in := ms\<rparr>)) st1))" if "case r of (it, st1) \<Rightarrow> adds_work st st1" for r
    using that by (cases r) (auto intro: ensures_bindE_any adds_intros)
  show ?thesis
    unfolding with_iterator_def
    by (intro ensures_bindE_socket ensures_bindE [OF assms(2)] rest)
qed

lemma adds_handle_connect_command [adds_intros]:
  "adds_work st st' \<Longrightarrow> adds st (handle_connect_command env sender endpoint st')"
  unfolding handle_connect_command_def Let_def
  by (intro ensures_intros adds_intros) (simp_all add: adds_work_dealer)

lemma adds_handle_bind_command_iter [adds_intros]:
  "adds_work st st' \<Longrightarrow> adds_iter st (handle_bind_command_iter env sender iter st')"
  unfolding handle_bind_command_iter_def handle_bind_command_def Let_def
  by (intro ensures_intros adds_intros) simp_all

lemma adds_handle_unbind_command [adds_intros]:
  "adds_work st st' \<Longrightarrow> adds st (handle_unbind_command sender endpoint st')"
  unfolding handle_unbind_command_def Let_def
  by (auto split: option.split intro!: ensures_intros adds_intros)

lemma adds_forward_to [adds_intros]:
  "adds_work st st' \<Longrightarrow> adds_iter st (forward_to info iter st')"
  unfolding forward_to_def Let_def
  by (intro ensures_intros adds_intros ensures_bindE_any [where r = "forward_messages it s" for it s])
    simp_all

lemma adds_add_closure [adds_intros]: "adds_work st st' \<Longrightarrow> adds st (add_closure env c st')"
  unfolding add_closure_def Let_def by (intro ensures_intros adds_intros)

lemma adds_send_reply [adds_intros]: "adds_work st st' \<Longrightarrow> adds_iter st (send_reply iter st')"
  unfolding send_reply_def by (intro ensures_intros adds_intros)

lemma adds_register_service [adds_intros]:
  "adds_work st st' \<Longrightarrow> adds_iter st (register_service bh iter st')"
  unfolding register_service_def by (intro ensures_intros adds_intros) simp_all

lemma adds_handle_socket [adds_intros]:
  "adds_work st st' \<Longrightarrow> adds_iter st (handle_socket bh info iter st')"
  unfolding handle_socket_def Let_def by (intro ensures_intros adds_intros) simp_all

lemma adds_handle_router_socket: "adds_work st st' \<Longrightarrow> adds st (handle_router_socket bh i st')"
  unfolding handle_router_socket_def by (intro ensures_intros adds_intros) simp_all

lemma adds_handle_dealer_socket: "adds_work st st' \<Longrightarrow> adds st (handle_dealer_socket bh i st')"
  unfolding handle_dealer_socket_def by (intro ensures_intros adds_intros) simp_all

lemma adds_dispatch_command:
  "adds_work st st' \<Longrightarrow> c \<noteq> kRequest \<Longrightarrow> adds_iter st (dispatch_command env c sender iter st')"
  unfolding dispatch_command_def handle_quit_command_def
  by (auto intro!: ensures_intros adds_intros)

section \<open>What the broker does in a step\<close>

lemma presents_fields [simp]:
  "frontend_socket (presents q ms st) = frontend_socket st"
  "dealer_sockets (presents q ms st) = dealer_sockets st"
  "router_sockets (presents q ms st) = router_sockets st"
  "bt_commander (presents q ms st) = bt_commander st" "bt_workers (presents q ms st) = bt_workers st"
  "r_closure_run_map (presents q ms st) = r_closure_run_map st"
  "ctrl_heap (presents q ms st) = ctrl_heap st"
  "workers_inv (presents q ms st) = workers_inv st"
  "adds_work st' (presents q ms st) = adds_work st' st"
  "is_connection_info_legal info (presents q ms st) = is_connection_info_legal info st"
  "is_dealer_index_legal i (presents q ms st) = is_dealer_index_legal i st"
  "is_router_index_legal i (presents q ms st) = is_router_index_legal i st"
  "conn_socket info (presents q ms st) = conn_socket info st"
  by (simp_all add: presents_def is_connection_info_legal_def is_dealer_index_legal_def
      is_router_index_legal_def conn_socket_def)

lemma presents_sockets [simp]:
  "zsocks (presents q ms st) q = Some ((the_socket q st)\<lparr>sock_in := ms\<rparr>)"
  by (simp add: presents_def)

lemma broker_inv_presents: "zsocks st q = Some s \<Longrightarrow> broker_inv (presents q ms st) = broker_inv st"
  unfolding presents_def by (rule broker_inv_update)

lemma conn_live_presents:
  assumes "zsocks st q = Some s"
  shows "conn_live info (presents q ms st) = conn_live info st"
  using assms by (simp add: conn_live_def) (simp add: presents_def)

lemma env_ok_presents:
  assumes "zsocks st q = Some s" and "env_ok env st"
  shows "env_ok env (presents q ms st)"
proof -
  have "be_new_socket env \<noteq> q" using assms by (auto simp: env_ok_def)
  then show ?thesis using assms(2) by (simp add: env_ok_def presents_def)
qed

lemma adds_work_heap [simp]:
  "adds_work (st\<lparr>ctrl_heap := h\<rparr>) st' = adds_work st st'"
  by (simp add: adds_work_def)

lemma command_out_head:
  "\<exists>k body. command_out c = frame_enc [] True @ frame_enc [k] (body \<noteq> []) @ body
     \<and> (k = kRequest) = is_request_cmd c"
proof (cases c)
  case (Cmd_Request info a h pl)
  then show ?thesis
    by (intro exI [of _ kRequest] exI [of _ "connection_info_enc info True
        @ frame_enc (uint64_bytes a) True @ parts [h, pl]"])
      (simp add: request_frames_def frame_enc_def)
next
  case (Cmd_Reply info h pl)
  then show ?thesis
    by (intro exI [of _ kReply] exI [of _ "connection_info_enc info True @ parts [h, pl]"])
      (simp add: reply_frames_of_def)
next
  case (Cmd_Register info name svc)
  then show ?thesis
    by (intro exI [of _ kRegisterSvc] exI [of _ "connection_info_enc info True @ frame_enc name True
        @ frame_enc (uint64_bytes svc) False"])
      (simp add: register_frames_def frame_enc_def c2b_defs)
next
  case (Cmd_Closure cl)
  then show ?thesis
    by (intro exI [of _ kRunClosure] exI [of _ "frame_enc (uint64_bytes cl) False"])
      (simp add: add_frames_def frame_enc_def)
next
  case (Cmd_Connect endpoint)
  then show ?thesis
    by (intro exI [of _ kConnect] exI [of _ "frame_enc endpoint False"])
      (simp add: connect_frames_def frame_enc_def c2b_defs)
next
  case (Cmd_Bind endpoint)
  then show ?thesis
    by (intro exI [of _ kBind] exI [of _ "frame_enc endpoint False"])
      (simp add: bind_frames_def frame_enc_def c2b_defs)
next
  case (Cmd_Unbind endpoint)
  then show ?thesis
    by (intro exI [of _ kUnbind] exI [of _ "frame_enc endpoint False"])
      (simp add: unbind_frames_def frame_enc_def c2b_defs)
qed

lemma handle_frontend_socket_dispatch:
  assumes "zsocks st fe = Some s" and "sock_in s = command_frames sender k body"
  shows "handle_frontend_socket env fe st = bindE (dispatch_command env k sender
      \<lparr>it_socket = body, it_message = [k], it_has_more = body \<noteq> []\<rparr> st) (\<lambda>(iter, st).
    bindE (message_iterator_destroy iter) (\<lambda>rest. on_socket fe (\<lambda>s. Inr (s\<lparr>sock_in := rest\<rparr>)) st))"
  using assms(1)
  by (simp add: handle_frontend_socket_def with_iterator_def deref_socket_Some message_iterator_new_def
      assms(2) command_frames_def frame_enc_def read_string_def read_char_def)

text \<open>A command that is not a request adds work.\<close>

lemma frontend_adds_work:
  assumes "workers_inv st" and "\<not> is_request_cmd c"
    and "handle_frontend_socket env fe (presents fe (frame_enc ident True @ command_out c) st) = Inr st'"
  shows "adds_work st st'"
proof -
  let ?st = "presents fe (frame_enc ident True @ command_out c) st"
  obtain k body where c: "command_out c = frame_enc [] True @ frame_enc [k] (body \<noteq> []) @ body" "k \<noteq> kRequest"
    using command_out_head [of c] assms(2) by auto
  have "sock_in ((the_socket fe st)\<lparr>sock_in := frame_enc ident True @ command_out c\<rparr>) =
      command_frames ident k body"
    by (simp add: command_frames_def c(1))
  note d = handle_frontend_socket_dispatch [OF presents_sockets this, of env]
  have "adds st (handle_frontend_socket env fe ?st)"
    unfolding d
    by (intro adds_iter_bindE [OF adds_dispatch_command [OF _ c(2)]])
      (use assms(1) in \<open>auto intro!: ensures_bindE_any adds_intros simp: adds_work_refl\<close>)
  then show ?thesis using assms(3) by (rule ensuresD)
qed

text \<open>A request starts its rpc, and arms its timer.\<close>

lemma frontend_starts:
  assumes "broker_inv st" and "info_wf info" and "conn_live info st" and "a \<noteq> NULL"
    and "ctrl_heap st a = Some c"
  shows "\<exists>st'. handle_frontend_socket env (frontend_socket st) (presents (frontend_socket st)
      (frame_enc ident True @ command_out (Cmd_Request info a h pl)) st) = Inr st'
    \<and> bt_commander st' = push (worker_of (be_hash env) info st) (Start_Rpc_Cmd a) (bt_commander st)
    \<and> bt_workers st' = bt_workers st \<and> dealer_sockets st' = dealer_sockets st
    \<and> r_closure_run_map st' = r_closure_run_map (timer_set env info c st)"
proof -
  let ?fe = "frontend_socket st"
  let ?ms = "frame_enc ident True @ request_frames info a h pl"
  let ?st = "presents ?fe ?ms st"
  obtain fs where fs: "zsocks st ?fe = Some fs" using broker_inv_frontend [OF assms(1)] by blast
  have inv: "workers_inv ?st" using broker_inv_presents [OF fs] assms(1) broker_inv_parts(1) by simp
  have inp: "sock_in ((the_socket ?fe st)\<lparr>sock_in := ?ms\<rparr>) = command_frames ident kRequest
      (connection_info_enc info True @ frame_enc (uint64_bytes a) True @ parts [h, pl]) @ []"
    using command_arrives(1) [of ident info a h pl] by simp
  have live: "conn_live info ?st" "whole (parts [h, pl])" "ctrl_heap ?st a = Some c"
    using assms(3,5) conn_live_presents [OF fs] by simp_all
  have s: "zsocks ?st (frontend_socket ?st) = Some ((the_socket ?fe st)\<lparr>sock_in := ?ms\<rparr>)" by simp
  from frontend_request [OF inv assms(2) live(1) s inp live(2) assms(4) live(3), of env]
  have "handle_frontend_socket env ?fe ?st = Inr (consumed ?fe []
      (deliver (worker_of (be_hash env) info ?st) (Start_Rpc_Cmd a)
        (sent_on (conn_socket info ?st) (envelope info @ parts [h, pl]) (timer_set env info c ?st))))"
    by simp
  moreover have "worker_of (be_hash env) info ?st = worker_of (be_hash env) info st"
    by (simp add: worker_of_def)
  moreover have "r_closure_run_map (timer_set env info c ?st) = r_closure_run_map (timer_set env info c st)"
    by (simp add: timer_set_def reactor_run_closure_at_def)
  ultimately show ?thesis by (simp add: consumed_def deliver_def sent_on_def)
qed

text \<open>A request that the broker has accepted was on a live connection.\<close>

lemma frontend_accepts_live:
  assumes "broker_inv st" and "info_wf info"
    and "handle_frontend_socket env (frontend_socket st) (presents (frontend_socket st)
      (frame_enc ident True @ command_out (Cmd_Request info a h pl)) st) = Inr st'"
  shows "conn_live info st"
proof -
  let ?fe = "frontend_socket st"
  let ?st = "presents ?fe (frame_enc ident True @ command_out (Cmd_Request info a h pl)) st"
  let ?rest = "frame_enc (uint64_bytes a) True @ parts [h, pl]"
  obtain fs where fs: "zsocks st ?fe = Some fs" using broker_inv_frontend [OF assms(1)] by blast
  have "sock_in ((the_socket ?fe st)\<lparr>sock_in := frame_enc ident True @ command_out (Cmd_Request info a h pl)\<rparr>) =
      command_frames ident kRequest (connection_info_enc info True @ ?rest)"
    using command_arrives(1) [of ident info a h pl] by simp
  from handle_frontend_socket_dispatch [OF presents_sockets this, of env] assms(3)
  obtain r where "send_request env \<lparr>it_socket = connection_info_enc info True @ ?rest,
      it_message = [kRequest], it_has_more = True\<rparr> ?st = Inr r"
    by (auto simp: bindE_eq_Inr dispatch_command_def frame_enc_def)
  from send_request_live [OF assms(2) _ _ this] have "conn_live info ?st" by simp
  then show ?thesis using conn_live_presents [OF fs] by blast
qed

lemma socket_adds_work:
  assumes "workers_inv st"
  shows "handle_dealer_socket bh i (presents q ms st) = Inr st' \<Longrightarrow> adds_work st st'"
    and "handle_router_socket bh i (presents q ms st) = Inr st' \<Longrightarrow> adds_work st st'"
proof -
  have "adds_work st (presents q ms st)" using adds_work_refl [OF assms] by simp
  note adds = adds_handle_dealer_socket [OF this] adds_handle_router_socket [OF this]
  show "handle_dealer_socket bh i (presents q ms st) = Inr st' \<Longrightarrow> adds_work st st'"
    using adds(1) by (rule ensuresD)
  show "handle_router_socket bh i (presents q ms st) = Inr st' \<Longrightarrow> adds_work st st'"
    using adds(2) by (rule ensuresD)
qed

lemma rebuild_adds_work:
  assumes "broker_inv st" and "rebuild_poll_items (broker_closure_run env) st = Inr st'"
  shows "adds_work st st'"
proof -
  note more = more_fields [OF inv_rebuild(4) [OF assms]]
  have "workers_inv st" using broker_inv_parts(1) [OF assms(1)] .
  then show ?thesis
    using inv_rebuild(5) [OF assms] by (auto simp: adds_work_def workers_inv_def more)
qed

text \<open>The timers that are due become timeouts, and add nothing else.\<close>

lemma timers_add:
  assumes "broker_inv st" and "process_closure_run_map (broker_closure_run env) now st = Inr (ms, st')"
  shows "broker_inv st'" "bt_workers st' = bt_workers st" "dealer_sockets st' = dealer_sockets st"
    "r_closure_run_map st' = [e \<leftarrow> r_closure_run_map st. now < fst e]"
    "queue_of (bt_commander st') i = queue_of (bt_commander st) i
       @ map snd [d \<leftarrow> due_timeouts now st. fst d = i]"
    "started (map snd [d \<leftarrow> due_timeouts now st. fst d = i]) = []"
proof -
  let ?wc = "commander.post_all (due_timeouts now st) (bt_commander st)"
  obtain ds where st': "st' = st\<lparr>deleted_closures := ds, bt_commander := ?wc,
      r_closure_run_map := [e \<leftarrow> r_closure_run_map st. now < fst e]\<rparr>"
    using timers_pass(1) [OF assms(1), of env now] assms(2) by auto
  have ok: "commander_ok (bt_commander st)" using assms(1) by (simp add: broker_inv_def workers_inv_def)
  note legal = timers_pass(2) [OF assms(1), of now]
  have post: "commander_ok (commander.post_all cs wc) \<and> wc_workers (commander.post_all cs wc) = wc_workers wc"
    if "commander_ok wc" "\<forall>(i, c) \<in> set cs. i < wc_workers wc" for cs wc
    using that
  proof (induction cs arbitrary: wc)
    case (Cons e cs)
    obtain i c where e: "e = (i, c)" by (cases e)
    show ?case using Cons.IH [of "push i c wc"] Cons.prems by (simp add: e commander_ok_push)
  qed simp
  show "bt_workers st' = bt_workers st" "dealer_sockets st' = dealer_sockets st"
    "r_closure_run_map st' = [e \<leftarrow> r_closure_run_map st. now < fst e]"
    by (simp_all add: st')
  show "queue_of (bt_commander st') i = queue_of (bt_commander st) i
       @ map snd [d \<leftarrow> due_timeouts now st. fst d = i]"
    using commander.pending_post_all [OF ok legal] by (simp add: st')
  have "timers_inv [e \<leftarrow> r_closure_run_map st. now < fst e]"
    using assms(1) map_ok_filter by (auto simp: broker_inv_def timers_inv_def)
  with post [OF ok legal] assms(1) show "broker_inv st'"
    by (simp add: st' broker_inv_def broker_sockets_inv_def workers_inv_def)
  have none: "started (map snd xs) = []" if "\<forall>x \<in> set xs. \<exists>w e. x = (w, Handle_Timeout_Cmd e)"
    for xs :: "(unsigned_int \<times> worker_cmd) list"
    using that by (induction xs) auto
  show "started (map snd [d \<leftarrow> due_timeouts now st. fst d = i]) = []"
    by (rule none) (auto simp: due_timeouts_def)
qed

section \<open>Ownership\<close>

text \<open>
  \<open>owned H D\<close>: the elements of \<open>D\<close> are held in the places of \<open>H\<close>, each in one. They appear, move and
  disappear.
\<close>

definition owned :: "('x \<Rightarrow> 'a set) \<Rightarrow> 'a set \<Rightarrow> bool" where
  "owned H D \<longleftrightarrow> (\<forall>a. a \<in> D \<longleftrightarrow> (\<exists>x. a \<in> H x)) \<and> (\<forall>a x y. a \<in> H x \<longrightarrow> a \<in> H y \<longrightarrow> x = y)"

lemma owned_in: "owned H D \<Longrightarrow> a \<in> H x \<Longrightarrow> a \<in> D"
  by (auto simp: owned_def)

lemma owned_unique: "owned H D \<Longrightarrow> a \<in> H x \<Longrightarrow> a \<in> H y \<Longrightarrow> x = y"
  by (auto simp: owned_def)

lemma owned_somewhere: "owned H D \<Longrightarrow> a \<in> D \<Longrightarrow> \<exists>x. a \<in> H x"
  by (auto simp: owned_def)

lemma owned_new:
  assumes "owned H D" "a \<notin> D" "\<And>y. H' y = (if y = x then insert a (H x) else H y)"
  shows "owned H' (insert a D)"
proof -
  have H': "b \<in> H' y \<longleftrightarrow> b = a \<and> y = x \<or> b \<in> H y" for b y using assms(3) by auto
  have "a \<notin> H y" for y using assms(1,2) owned_in by metis
  then show ?thesis using assms(1) unfolding owned_def H' by (metis insert_iff)
qed

lemma owned_move:
  assumes "owned H D" "a \<in> H x" "x \<noteq> z"
    "\<And>y. H' y = (if y = x then H x - {a} else if y = z then insert a (H z) else H y)"
  shows "owned H' D"
proof -
  have only: "a \<in> H y \<longleftrightarrow> y = x" for y using assms(1,2) owned_unique by metis
  have H': "b \<in> H' y \<longleftrightarrow> (if b = a then y = z else b \<in> H y)" for b y
    using assms(3,4) only [of y] by auto
  have "a \<in> D" using assms(1,2) owned_in by metis
  then show ?thesis using assms(1) unfolding owned_def H' by metis
qed

lemma owned_gone:
  assumes "owned H D" "a \<in> H x" "\<And>y. H' y = (if y = x then H x - {a} else H y)"
  shows "owned H' (D - {a})"
proof -
  have only: "a \<in> H y \<longleftrightarrow> y = x" for y using assms(1,2) owned_unique by metis
  have H': "b \<in> H' y \<longleftrightarrow> b \<noteq> a \<and> b \<in> H y" for b y
    using assms(3) only [of y] by auto
  show ?thesis using assms(1) unfolding owned_def H' by blast
qed

section \<open>The invariant of the system\<close>

datatype place = On_Wire thread | In_Queue unsigned_int | At_Worker unsigned_int

text \<open>The controllers in each place: commands on their way, queues, and the pending rpcs of a worker.\<close>

fun held :: "rpc_system \<Rightarrow> place \<Rightarrow> ptr set" where
  "held s (On_Wire t) = set (carried (sy_wire s t))"
| "held s (In_Queue i) = (if i < bt_workers (sy_broker s)
     then set (started (queue_of (bt_commander (sy_broker s)) i)) else {})"
| "held s (At_Worker i) = (if i < bt_workers (sy_broker s)
     then ran (remote_response_map (sy_workers s i)) else {})"

fun request_ok :: "broker_thread \<Rightarrow> user_command \<Rightarrow> bool" where
  "request_ok bt (Cmd_Request info a h pl) \<longleftrightarrow>
     info_wf info \<and> (\<not> ci_is_router info \<longrightarrow> is_connection_info_legal info bt)"
| "request_ok bt _ \<longleftrightarrow> True"

definition controllers_ok :: "process \<Rightarrow> bool" where
  "controllers_ok p \<longleftrightarrow> finite (dom (rc_heap p)) \<and> own_events p
     \<and> (\<forall>a c. rc_heap p a = Some c \<longrightarrow> a \<noteq> NULL \<and> rc_event_id c < next_event_id p)"

definition system_inv :: "rpc_system \<Rightarrow> bool" where
  "system_inv s \<longleftrightarrow> broker_inv (sy_broker s) \<and> controllers_ok (sy_process s)
     \<and> owned (held s) (dom (rc_heap (sy_process s)))
     \<and> (\<forall>t. distinct (carried (sy_wire s t)) \<and> (\<forall>c \<in> set (sy_wire s t). request_ok (sy_broker s) c))
     \<and> (\<forall>i < bt_workers (sy_broker s). distinct (started (queue_of (bt_commander (sy_broker s)) i))
          \<and> rpcs_ok (sy_process s, sy_workers s i))"

lemma system_invD:
  assumes "system_inv s"
  shows "broker_inv (sy_broker s)" "controllers_ok (sy_process s)"
    "owned (held s) (dom (rc_heap (sy_process s)))"
    "distinct (carried (sy_wire s t))" "c \<in> set (sy_wire s t) \<Longrightarrow> request_ok (sy_broker s) c"
    "i < bt_workers (sy_broker s) \<Longrightarrow> distinct (started (queue_of (bt_commander (sy_broker s)) i))"
    "i < bt_workers (sy_broker s) \<Longrightarrow> rpcs_ok (sy_process s, sy_workers s i)"
    "workers_inv (sy_broker s)"
  using assms broker_inv_parts(1) by (auto simp: system_inv_def)

lemma system_start_inv: "system_start s \<Longrightarrow> system_inv s"
proof -
  assume s: "system_start s"
  have "held s x = {}" for x using s by (cases x) (simp_all add: system_start_def)
  with s show ?thesis
    by (simp add: system_start_def system_inv_def controllers_ok_def own_events_def owned_def rpcs_ok_def)
qed

lemma carried_append [simp]: "carried (cs @ ds) = carried cs @ carried ds"
  by (induction cs) simp_all

lemma carried_none: "(\<And>c. c \<in> set cs \<Longrightarrow> \<not> is_request_cmd c) \<Longrightarrow> carried cs = []"
  by (induction cs) (force split: user_command.splits)+

text \<open>A legal connection to a server stays legal.\<close>

lemma request_ok_mono:
  assumes "prefix (dealer_sockets bt) (dealer_sockets bt')" "request_ok bt c"
  shows "request_ok bt' c"
  using assms prefix_length_le [OF assms(1)]
  by (cases c) (auto simp: is_connection_info_legal_def is_dealer_index_legal_def)

text \<open>What adds work, keeps the invariant; it may take a command off a wire that is no request.\<close>

lemma system_inv_adds:
  assumes "system_inv s" "adds_work (sy_broker s) bt'" "broker_inv bt'"
    "\<And>u. carried (wire' u) = carried (sy_wire s u)" "\<And>u. set (wire' u) \<subseteq> set (sy_wire s u)"
  shows "system_inv (s\<lparr>sy_broker := bt', sy_wire := wire'\<rparr>)"
proof -
  let ?s' = "s\<lparr>sy_broker := bt', sy_wire := wire'\<rparr>"
  have n: "bt_workers bt' = bt_workers (sy_broker s)"
    "prefix (dealer_sockets (sy_broker s)) (dealer_sockets bt')"
    using assms(2) by (simp_all add: adds_work_def)
  have q: "started (queue_of (bt_commander bt') i) = started (queue_of (bt_commander (sy_broker s)) i)"
    if "i < bt_workers (sy_broker s)" for i
  proof -
    from assms(2) that obtain cs where "queue_of (bt_commander bt') i =
        queue_of (bt_commander (sy_broker s)) i @ cs" "started cs = []"
      unfolding adds_work_def by blast
    then show ?thesis by simp
  qed
  have "held ?s' x = held s x" for x by (cases x) (simp_all add: n q assms(4))
  then have "held ?s' = held s" by (rule ext)
  moreover have "request_ok bt' c" if "c \<in> set (wire' u)" for c u
    using request_ok_mono [OF n(2)] system_invD(5) [OF assms(1)] assms(5) that by blast
  ultimately show ?thesis using assms(1,3) q n(1) assms(4) by (simp add: system_inv_def)
qed

section \<open>Steps of the threads\<close>

lemma word_less_succ: "(w :: uint64) \<noteq> - 1 \<Longrightarrow> w < w + 1"
proof -
  assume "w \<noteq> - 1"
  then have "1 + w \<noteq> 0" by (metis add.commute add_eq_0_iff2)
  then have "unat (1 + w) = Suc (unat w)" by (rule unatSuc)
  then show ?thesis by (simp add: word_less_nat_alt add.commute)
qed

lemma controllers_ok_new:
  assumes "controllers_ok p" "next_addr p \<noteq> NULL" "next_event_id p \<noteq> - 1" "rc_heap p (next_addr p) = None"
  shows "controllers_ok (with_controller handler ms p)"
proof -
  let ?a = "next_addr p" and ?c = "new_rpc_controller (next_event_id p) handler ms"
  have heap: "rc_heap (with_controller handler ms p) = (rc_heap p)(?a \<mapsto> ?c)"
    "next_event_id (with_controller handler ms p) = next_event_id p + 1"
    by (simp_all add: with_controller_def)
  have ev: "rc_event_id ?c = next_event_id p" by (simp add: new_rpc_controller_def)
  have old: "rc_event_id d < next_event_id p" "b \<noteq> NULL" if "rc_heap p b = Some d" for b d
    using assms(1) that by (auto simp: controllers_ok_def)
  have succ: "next_event_id p < next_event_id p + 1" using word_less_succ [OF assms(3)] .
  have "own_events (with_controller handler ms p)"
    using assms(1) old(1) ev unfolding own_events_def heap controllers_ok_def
    by (auto split: if_splits) (metis less_irrefl)+
  moreover have "\<forall>b d. ((rc_heap p)(?a \<mapsto> ?c)) b = Some d \<longrightarrow> b \<noteq> NULL \<and> rc_event_id d < next_event_id p + 1"
    using old assms(2) ev succ by (auto split: if_splits intro: less_trans)
  ultimately show ?thesis using assms(1) by (simp add: controllers_ok_def heap)
qed

lemma rpcs_ok_heap_mono:
  "rpcs_ok (p, w) \<Longrightarrow> rc_heap p \<subseteq>\<^sub>m rc_heap p' \<Longrightarrow> rpcs_ok (p', w)"
  by (fastforce simp: rpcs_ok_def map_le_def dom_def)

lemma request_result:
  assumes "connection_request pb Some t info service meth payload handler ms p = Inr p'"
    and "serialize_hdr pb (request_header (next_event_id p) service meth) = Some h" and "next_addr p \<noteq> NULL"
  shows "p' = fe_sends t (request_frames info (next_addr p) h payload) (with_controller handler ms p)"
proof -
  have "Some payload = Some payload" ..
  from connection_request_eq [where serialize = Some and req = payload, OF assms(3) this assms(2), of t info handler ms]
  show ?thesis using assms(1) by simp
qed

lemma system_inv_request:
  assumes inv: "system_inv s" and p: "next_addr (sy_process s) \<noteq> NULL"
      "rc_heap (sy_process s) (next_addr (sy_process s)) = None" "next_event_id (sy_process s) \<noteq> - 1"
    and c: "request_ok (sy_broker s) (Cmd_Request info a h pl)" "a = next_addr (sy_process s)"
  shows "system_inv (s\<lparr>sy_process := fe_sends t ms (with_controller handler to (sy_process s)),
    sy_wire := (sy_wire s)(t := sy_wire s t @ [Cmd_Request info a h pl])\<rparr>)" (is "system_inv ?s'")
proof -
  let ?p = "sy_process s"
  have new: "a \<notin> dom (rc_heap ?p)" using p(2) c(2) by auto
  then have fresh: "a \<notin> held s x" for x using owned_in [OF system_invD(3) [OF inv]] by blast
  have heap: "rc_heap (sy_process ?s') = (rc_heap ?p)(a \<mapsto> new_rpc_controller (next_event_id ?p) handler to)"
    by (simp add: with_controller_def c(2))
  have "held ?s' x = (if x = On_Wire t then insert a (held s (On_Wire t)) else held s x)" for x
    by (cases x) auto
  from owned_new [OF system_invD(3) [OF inv] new this]
  have "owned (held ?s') (dom (rc_heap (sy_process ?s')))" unfolding heap by simp
  moreover have "controllers_ok (sy_process ?s')"
    using controllers_ok_new [OF system_invD(2) [OF inv] p(1,3,2)]
    by (simp add: controllers_ok_def own_events_def)
  moreover have "rc_heap ?p \<subseteq>\<^sub>m rc_heap (sy_process ?s')"
    unfolding heap using new by (auto simp: map_le_def)
  note le = this
  have "rpcs_ok (sy_process ?s', sy_workers s i)" if "i < bt_workers (sy_broker s)" for i
    by (rule rpcs_ok_heap_mono [OF system_invD(7) [OF inv that] le])
  moreover have "distinct (carried (sy_wire ?s' u))" for u
    using system_invD(4) [OF inv, of u] fresh [of "On_Wire u"] by auto
  moreover have "request_ok (sy_broker s) d" if "d \<in> set (sy_wire ?s' u)" for u d
    using system_invD(5) [OF inv] c(1) that by (auto split: if_splits)
  ultimately show ?thesis using inv by (simp add: system_inv_def)
qed

lemma system_inv_sends:
  assumes "system_inv s" "\<And>c. c \<in> set cs \<Longrightarrow> \<not> is_request_cmd c"
    "rc_heap p' = rc_heap (sy_process s)" "next_event_id p' = next_event_id (sy_process s)"
  shows "system_inv (s\<lparr>sy_process := p', sy_wire := (sy_wire s)(t := sy_wire s t @ cs)\<rparr>)" (is "system_inv ?s'")
proof -
  have none: "carried cs = []" using assms(2) by (rule carried_none)
  have "held ?s' x = held s x" for x by (cases x) (simp_all add: none)
  then have "held ?s' = held s" by (rule ext)
  moreover have "request_ok (sy_broker s) c" if "c \<in> set cs" for c
    using assms(2) [OF that] by (cases c) auto
  ultimately show ?thesis
    using assms(1,3,4) none by (auto simp: system_inv_def controllers_ok_def own_events_def rpcs_ok_def)
qed

section \<open>Steps of the workers\<close>

lemma pop_queue:
  assumes "commander_ok wc" "i < wc_workers wc" "pop i wc = Some (c, wc')"
  shows "queue_of wc i = c # queue_of wc' i" "j \<noteq> i \<Longrightarrow> queue_of wc' j = queue_of wc j"
proof -
  obtain q where q: "queue_of wc i = c # q"
    "wc' = wc\<lparr>worker_cmd_queues := (worker_cmd_queues wc)[unat i := Some q]\<rparr>"
    using assms(3) by (auto simp: pop_def split: list.splits)
  have "queue_of wc' i = q" using commander_ok_bound [OF assms(1,2)] by (simp add: q(2) queue_of_def)
  with q(1) show "queue_of wc i = c # queue_of wc' i" by simp
  show "j \<noteq> i \<Longrightarrow> queue_of wc' j = queue_of wc j"
    by (simp add: q(2) queue_of_def nth_list_update word_unat_eq_iff)
qed

text \<open>What a worker does to the rpcs: it starts one, it finishes one, or neither.\<close>

lemma worker_step_kinds:
  assumes "rpcs_ok (p, w)" "fresh_starts (c # cs) (p, w)" "worker_step we t c (p, w) = Inr (b, (p', w'))"
  obtains (start) a rc where "c = Start_Rpc_Cmd a" "rc_heap p a = Some rc" "a \<noteq> NULL"
      "remote_response_map w (rc_event_id rc) = None" "p' = p"
      "remote_response_map w' = (remote_response_map w)(rc_event_id rc \<mapsto> a)"
  | (finish) ev oc a rc where "completes we c = Some (ev, oc)" "remote_response_map w ev = Some a"
      "rc_heap p a = Some rc" "rc_event_id rc = ev" "rc_heap p' = (rc_heap p)(a := None)"
      "handler_calls p' = handler_calls p @ calls_of oc rc" "next_event_id p' = next_event_id p"
      "remote_response_map w' = (remote_response_map w)(ev := None)"
  | (same) "same_rpcs (p, w) (p', w')" "started (c # cs) = started cs" "worker_event we c w = Other"
proof (cases "is_rpc_cmd we c")
  case True
  then show thesis
  proof (cases rule: is_rpc_cmd_cases)
    case (1 a)
    then have "a \<noteq> NULL" using assms(2) by (simp add: fresh_starts_def)
    with 1 show thesis
      using started_step [OF assms(1) assms(2) [unfolded 1], of we t] assms(3) start by auto
  next
    case (2 ev oc)
    have f: "finish oc ev (p, w) = Inr (p', w')"
      using assms(3) unfolding worker_step_completes [OF 2] by (auto simp: result_simps)
    show thesis
    proof (cases "remote_response_map w ev")
      case None
      then have "p' = p" "w' = w" using f by (auto simp: finish_eq [OF assms(1)])
      then show thesis
        using same completes_no_start [OF 2] None 2 by (simp add: same_rpcs_def worker_event_def)
    next
      case (Some a)
      obtain rc where rc: "rc_heap p a = Some rc" "rc_event_id rc = ev"
        using rpcs_okD(2) [OF assms(1) Some] by blast
      then show thesis
        using finish [OF 2 Some] f Some by (auto simp: finish_eq [OF assms(1)] handler_calls_append)
    qed
  qed
next
  case False
  then show thesis
    using same worker_step_same [OF assms(3)] not_rpc_cmd [OF False] not_rpc_no_start [OF False]
    by (simp add: worker_event_def)
qed

section \<open>Steps of the broker\<close>

lemma system_workers:
  assumes "system_inv s"
  shows "commander_ok (bt_commander (sy_broker s))"
    "wc_workers (bt_commander (sy_broker s)) = bt_workers (sy_broker s)"
  using system_invD(8) [OF assms] by (simp_all add: workers_inv_def)

text \<open>A controller on the wire, or in a queue, is a live one.\<close>

lemma held_live:
  assumes "system_inv s" "a \<in> held s x"
  shows "a \<noteq> NULL" "\<exists>c. rc_heap (sy_process s) a = Some c"
  using owned_in [OF system_invD(3) [OF assms(1)] assms(2)] system_invD(2) [OF assms(1)]
  by (auto simp: controllers_ok_def)

text \<open>A request that the broker takes goes from the wire to the queue of its worker.\<close>

lemma request_started:
  assumes inv: "system_inv s" and w: "sy_wire s t = Cmd_Request info a h pl # cs"
    and live: "ci_is_router info \<Longrightarrow> conn_live info (sy_broker s)"
  shows "\<exists>c. rc_heap (sy_process s) a = Some c \<and> (\<exists>bt'. handle_frontend_socket env (frontend_socket (sy_broker s))
      (presents (frontend_socket (sy_broker s)) (frame_enc ident True @ command_out (Cmd_Request info a h pl))
        ((sy_broker s)\<lparr>ctrl_heap := rc_heap (sy_process s)\<rparr>)) = Inr bt'
    \<and> bt_commander bt' = push (worker_of (be_hash env) info (sy_broker s)) (Start_Rpc_Cmd a)
        (bt_commander (sy_broker s))
    \<and> bt_workers bt' = bt_workers (sy_broker s) \<and> dealer_sockets bt' = dealer_sockets (sy_broker s)
    \<and> r_closure_run_map bt' = r_closure_run_map (timer_set env info c (sy_broker s)))"
proof -
  have "a \<in> held s (On_Wire t)" by (simp add: w)
  then obtain c where c: "a \<noteq> NULL" "rc_heap (sy_process s) a = Some c" using held_live [OF inv] by blast
  have ok: "info_wf info" "\<not> ci_is_router info \<Longrightarrow> is_connection_info_legal info (sy_broker s)"
    using system_invD(5) [OF inv, of "Cmd_Request info a h pl" t] by (simp_all add: w)
  let ?bt = "(sy_broker s)\<lparr>ctrl_heap := rc_heap (sy_process s)\<rparr>"
  have "conn_live info (sy_broker s)"
    using conn_live_known [OF system_invD(1) [OF inv], of info] ok(2) live
    by (cases "ci_is_router info") (auto dest: conn_liveD(1))
  then have "broker_inv ?bt" "conn_live info ?bt" "ctrl_heap ?bt a = Some c"
    using system_invD(1) [OF inv] c(2) by simp_all
  from frontend_starts [OF this(1) ok(1) this(2) c(1) this(3), of env ident h pl]
  moreover have "r_closure_run_map (timer_set env info c ?bt) = r_closure_run_map (timer_set env info c (sy_broker s))"
    by (simp add: timer_set_def reactor_run_closure_at_def)
  ultimately show ?thesis using c(2) by (intro exI [of _ c]) simp
qed

text \<open>The same of a request that the broker has accepted.\<close>

lemma request_accepted:
  assumes inv: "system_inv s" and w: "sy_wire s t = Cmd_Request info a h pl # cs"
    and bt: "handle_frontend_socket env (frontend_socket (sy_broker s))
      (presents (frontend_socket (sy_broker s)) (frame_enc ident True @ command_out (Cmd_Request info a h pl))
        ((sy_broker s)\<lparr>ctrl_heap := rc_heap (sy_process s)\<rparr>)) = Inr bt'"
  shows "\<exists>c. rc_heap (sy_process s) a = Some c
    \<and> bt_commander bt' = push (worker_of (be_hash env) info (sy_broker s)) (Start_Rpc_Cmd a)
        (bt_commander (sy_broker s))
    \<and> bt_workers bt' = bt_workers (sy_broker s) \<and> dealer_sockets bt' = dealer_sockets (sy_broker s)
    \<and> r_closure_run_map bt' = r_closure_run_map (timer_set env info c (sy_broker s))"
proof -
  have "info_wf info" using system_invD(5) [OF inv, of "Cmd_Request info a h pl" t] by (simp add: w)
  then have "conn_live info (sy_broker s)"
    using frontend_accepts_live [of "(sy_broker s)\<lparr>ctrl_heap := rc_heap (sy_process s)\<rparr>" info env ident a h pl bt']
      system_invD(1) [OF inv] bt by simp
  from request_started [OF inv w this, of env ident] bt show ?thesis by auto
qed

lemma frontend_inv:
  assumes "broker_inv bt" "env_ok env bt"
    and "handle_frontend_socket env (frontend_socket bt)
      (presents (frontend_socket bt) ms (bt\<lparr>ctrl_heap := h\<rparr>)) = Inr bt'"
  shows "broker_inv bt'"
proof -
  obtain fs where fs: "zsocks bt (frontend_socket bt) = Some fs"
    using broker_inv_frontend [OF assms(1)] by blast
  let ?bt = "bt\<lparr>ctrl_heap := h\<rparr>"
  have fs': "zsocks ?bt (frontend_socket bt) = Some fs" using fs by simp
  have "broker_inv (presents (frontend_socket bt) ms ?bt)"
    using broker_inv_presents [OF fs'] assms(1) by simp
  moreover have "env_ok env (presents (frontend_socket bt) ms ?bt)"
    by (rule env_ok_presents [OF fs']) (use assms(2) in \<open>simp add: env_ok_def\<close>)
  ultimately have "ensures broker_inv (handle_frontend_socket env (frontend_socket bt)
      (presents (frontend_socket bt) ms ?bt))" by (rule inv_handle_frontend_socket)
  then show ?thesis using assms(3) by (rule ensuresD)
qed

lemma system_inv_started:
  assumes inv: "system_inv s" and w: "sy_wire s t = Cmd_Request info a h pl # cs"
    and bt: "broker_inv bt'" "bt_workers bt' = bt_workers (sy_broker s)"
      "dealer_sockets bt' = dealer_sockets (sy_broker s)"
      "bt_commander bt' = push i (Start_Rpc_Cmd a) (bt_commander (sy_broker s))"
    and i: "i < bt_workers (sy_broker s)"
  shows "system_inv (s\<lparr>sy_broker := bt', sy_wire := (sy_wire s)(t := cs)\<rparr>)" (is "system_inv ?s'")
proof -
  note wc = system_workers [OF inv]
  have i': "i < wc_workers (bt_commander (sy_broker s))" using i wc(2) by simp
  note q = queue_of_push [OF wc(1) i', where c = "Start_Rpc_Cmd a", folded bt(4)]
  have a: "a \<in> held s (On_Wire t)" by (simp add: w)
  have d: "distinct (carried (sy_wire s u))" for u using system_invD(4) [OF inv] .
  have "held ?s' x = (if x = On_Wire t then held s (On_Wire t) - {a}
      else if x = In_Queue i then insert a (held s (In_Queue i)) else held s x)" for x
    using d [of t] by (cases x) (auto simp: q bt(2) w i)
  then have "owned (held ?s') (dom (rc_heap (sy_process ?s')))"
    using owned_move [OF system_invD(3) [OF inv] a, of "In_Queue i" "held ?s'"] by simp
  moreover have "a \<notin> set (started (queue_of (bt_commander (sy_broker s)) i))"
    using owned_unique [OF system_invD(3) [OF inv] a, of "In_Queue i"] i by auto
  then have "distinct (started (queue_of (bt_commander bt') j))" if "j < bt_workers (sy_broker s)" for j
    using system_invD(6) [OF inv that] by (auto simp: q)
  moreover have "request_ok bt' c" if "c \<in> set (sy_wire ?s' u)" for c u
    using request_ok_mono [of "sy_broker s" bt' c] system_invD(5) [OF inv, of c u] that
    by (auto simp: bt(3) w split: if_splits)
  moreover have "distinct (carried (sy_wire ?s' u))" for u using d [of u] by (auto simp: w)
  ultimately show ?thesis using inv bt(1,2) by (simp add: system_inv_def)
qed

lemma system_inv_broker:
  assumes inv: "system_inv s" and w: "sy_wire s t = c # cs" and env: "env_ok env (sy_broker s)"
    and h: "handle_frontend_socket env (frontend_socket (sy_broker s))
      (presents (frontend_socket (sy_broker s)) (frame_enc ident True @ command_out c)
        ((sy_broker s)\<lparr>ctrl_heap := rc_heap (sy_process s)\<rparr>)) = Inr bt'"
  shows "system_inv (s\<lparr>sy_broker := bt', sy_wire := (sy_wire s)(t := cs)\<rparr>)"
proof -
  note b = frontend_inv [OF system_invD(1) [OF inv] env h]
  show ?thesis
  proof (cases "is_request_cmd c")
    case True
    then obtain info a hd pl where c: "c = Cmd_Request info a hd pl" by (cases c) auto
    note w' = w [unfolded c]
    from request_accepted [OF inv w' h [unfolded c]]
    have "bt_commander bt' = push (worker_of (be_hash env) info (sy_broker s)) (Start_Rpc_Cmd a)
        (bt_commander (sy_broker s))" "bt_workers bt' = bt_workers (sy_broker s)"
      "dealer_sockets bt' = dealer_sockets (sy_broker s)" by auto
    moreover have "worker_of (be_hash env) info (sy_broker s) < bt_workers (sy_broker s)"
      using worker_of_less [OF system_invD(8) [OF inv]] system_workers(2) [OF inv] by simp
    ultimately show ?thesis using system_inv_started [OF inv w' b] by blast
  next
    case False
    have "workers_inv ((sy_broker s)\<lparr>ctrl_heap := rc_heap (sy_process s)\<rparr>)"
      using system_invD(8) [OF inv] by simp
    from frontend_adds_work [OF this False h] have "adds_work (sy_broker s) bt'" by simp
    moreover have "carried [c] = []" using False by (cases c) simp_all
    ultimately show ?thesis using w by (intro system_inv_adds [OF inv _ b]) auto
  qed
qed

lemma system_inv_timers:
  assumes inv: "system_inv s"
    and h: "process_closure_run_map (broker_closure_run env) now (sy_broker s) = Inr (ms, bt')"
  shows "system_inv (s\<lparr>sy_broker := bt'\<rparr>)" (is "system_inv ?s'")
proof -
  note b = timers_add [OF system_invD(1) [OF inv] h]
  have q: "started (queue_of (bt_commander bt') i) = started (queue_of (bt_commander (sy_broker s)) i)" for i
    using b(5,6) by simp
  have "held ?s' x = held s x" for x by (cases x) (simp_all add: q b(2))
  then have "held ?s' = held s" by (rule ext)
  moreover have "request_ok bt' = request_ok (sy_broker s)"
    using request_ok_mono [of bt' "sy_broker s"] request_ok_mono [of "sy_broker s" bt'] b(3) by auto
  ultimately show ?thesis using inv b(1,2) q by (simp add: system_inv_def)
qed

text \<open>The commands of a queue start what waits there, each controller once.\<close>

lemma fresh_queue:
  assumes inv: "system_inv s" and i: "i < bt_workers (sy_broker s)"
  shows "fresh_starts (queue_of (bt_commander (sy_broker s)) i) (sy_process s, sy_workers s i)"
proof -
  have "x \<notin> ran (remote_response_map (sy_workers s i))"
    if "x \<in> set (started (queue_of (bt_commander (sy_broker s)) i))" for x
    using owned_unique [OF system_invD(3) [OF inv], of x "In_Queue i" "At_Worker i"] i that by auto
  moreover have "x \<noteq> NULL \<and> rc_heap (sy_process s) x \<noteq> None"
    if "x \<in> set (started (queue_of (bt_commander (sy_broker s)) i))" for x
    using held_live [OF inv, of x "In_Queue i"] i that by auto
  moreover have "own_events (sy_process s)"
    using system_invD(2) [OF inv] by (simp add: controllers_ok_def)
  ultimately show ?thesis
    using system_invD(6) [OF inv i] unfolding fresh_starts_def by auto
qed

lemma ran_finished:
  assumes "rpcs_ok (p, w)" "remote_response_map w ev = Some a"
  shows "ran ((remote_response_map w)(ev := None)) = ran (remote_response_map w) - {a}"
proof -
  have "e = ev" if "remote_response_map w e = Some a" for e
    using rpcs_okD(2) [OF assms(1) that] rpcs_okD(2) [OF assms] by auto
  note only = this
  have "(\<exists>e. e \<noteq> ev \<and> remote_response_map w e = Some x) =
      (x \<noteq> a \<and> (\<exists>e. remote_response_map w e = Some x))" for x
    using assms(2) only by (metis option.inject)
  then show ?thesis by (auto simp: ran_def)
qed

lemma rpcs_ok_delete:
  assumes "rpcs_ok (p, w)" "a \<notin> ran (remote_response_map w)" "rc_heap p' = (rc_heap p)(a := None)"
  shows "rpcs_ok (p', w)"
  using assms by (auto simp: rpcs_ok_def ran_def)

lemma controllers_ok_delete:
  assumes "controllers_ok p" "rc_heap p' = (rc_heap p)(a := None)" "next_event_id p' = next_event_id p"
  shows "controllers_ok p'"
  using assms by (auto simp: controllers_ok_def own_events_def split: if_splits)

text \<open>A command popped: the state before what the worker does to the wire.\<close>

abbreviation worker_moved ::
  "process \<Rightarrow> workers_commander \<Rightarrow> unsigned_int \<Rightarrow> worker \<Rightarrow> rpc_system \<Rightarrow> rpc_system" where
  "worker_moved p' wc i w' s \<equiv> s\<lparr>sy_process := p', sy_broker := (sy_broker s)\<lparr>bt_commander := wc\<rparr>,
     sy_workers := (sy_workers s)(i := w')\<rparr>"

lemma system_inv_worker_moved:
  assumes inv: "system_inv s" and i: "i < bt_workers (sy_broker s)"
    and pop: "pop i (bt_commander (sy_broker s)) = Some (c, wc)"
    and own: "owned (held (worker_moved p' wc i w' s)) (dom (rc_heap p'))"
    and p': "controllers_ok p'" "rpcs_ok (p', w')"
    and other: "\<And>j. j < bt_workers (sy_broker s) \<Longrightarrow> j \<noteq> i \<Longrightarrow> rpcs_ok (p', sy_workers s j)"
  shows "system_inv (worker_moved p' wc i w' s)"
proof -
  let ?s' = "worker_moved p' wc i w' s"
  note c = system_workers [OF inv]
  have i': "i < wc_workers (bt_commander (sy_broker s))" using i c(2) by simp
  note q = pop_queue [OF c(1) i' pop]
  have "broker_inv (sy_broker ?s')"
    using system_invD(1) [OF inv] commander_ok_pop [OF c(1) pop] pop_workers [OF pop]
    by (simp add: broker_inv_def broker_sockets_inv_def workers_inv_def)
  moreover have "distinct (started (queue_of wc j))" if "j < bt_workers (sy_broker s)" for j
    using system_invD(6) [OF inv that] q(1) q(2) [of j] by (cases "j = i") simp_all
  moreover have "request_ok (sy_broker ?s') = request_ok (sy_broker s)"
    using request_ok_mono [of "sy_broker ?s'" "sy_broker s"] request_ok_mono [of "sy_broker s" "sy_broker ?s'"]
    by auto
  moreover have "rpcs_ok (p', (if j = i then w' else sy_workers s j))" if "j < bt_workers (sy_broker s)" for j
    using p'(2) other [OF that] by simp
  ultimately show ?thesis using inv own p'(1) by (simp add: system_inv_def)
qed

lemma system_inv_worker_step:
  assumes inv: "system_inv s" and i: "i < bt_workers (sy_broker s)"
    and pop: "pop i (bt_commander (sy_broker s)) = Some (c, wc)"
    and step: "worker_step we t c (sy_process s, sy_workers s i) = Inr (b, (p', w'))"
  shows "system_inv (worker_moved p' wc i w' s)" (is "system_inv ?s'")
proof -
  note cm = system_workers [OF inv]
  have i': "i < wc_workers (bt_commander (sy_broker s))" using i cm(2) by simp
  note q = pop_queue [OF cm(1) i' pop]
  note ok = system_invD(7) [OF inv i]
  note own = system_invD(3) [OF inv]
  have fresh: "fresh_starts (c # queue_of wc i) (sy_process s, sy_workers s i)"
    using fresh_queue [OF inv i] by (simp add: q(1))
  from ok fresh step show ?thesis
  proof (cases rule: worker_step_kinds)
    case (start a rc)
    have a: "a \<in> held s (In_Queue i)" by (simp add: i q(1) start(1))
    have new: "ran ((remote_response_map (sy_workers s i))(rc_event_id rc \<mapsto> a)) =
        insert a (ran (remote_response_map (sy_workers s i)))" using start(4) by simp
    have "a \<notin> set (started (queue_of wc i))"
      using system_invD(6) [OF inv i] by (simp add: q(1) start(1))
    then have "held ?s' x = (if x = In_Queue i then held s (In_Queue i) - {a}
        else if x = At_Worker i then insert a (held s (At_Worker i)) else held s x)" for x
      using q(2) by (cases x) (auto simp: q(1) i start(1,6) new)
    from owned_move [OF own a _ this]
    have "owned (held ?s') (dom (rc_heap p'))" by (simp add: start(5))
    moreover have "rpcs_ok (p', w')"
      using ok start(2,3) unfolding start(5) rpcs_ok_def by (simp add: start(6))
    moreover have "controllers_ok p'" "\<And>j. j < bt_workers (sy_broker s) \<Longrightarrow> rpcs_ok (p', sy_workers s j)"
      using system_invD(2,7) [OF inv] by (simp_all add: start(5))
    ultimately show ?thesis by (intro system_inv_worker_moved [OF inv i pop])
  next
    case (finish ev oc a rc)
    have a: "a \<in> held s (At_Worker i)" using i finish(2) by (auto intro: ranI)
    have sc: "started (queue_of (bt_commander (sy_broker s)) i) = started (queue_of wc i)"
      using completes_no_start [OF finish(1)] by (simp add: q(1))
    have sc': "started (queue_of (bt_commander (sy_broker s)) j) = started (queue_of wc j)" for j
      using sc q(2) [of j] by (cases "j = i") simp_all
    have "held ?s' x = (if x = At_Worker i then held s (At_Worker i) - {a} else held s x)" for x
      using ran_finished [OF ok finish(2)] by (cases x) (simp_all add: sc' i finish(8))
    from owned_gone [OF own a this]
    have "owned (held ?s') (dom (rc_heap p'))" by (simp add: finish(5))
    moreover have "controllers_ok p'"
      by (rule controllers_ok_delete [OF system_invD(2) [OF inv] finish(5,7)])
    moreover have "rpcs_ok (p', w')"
      using worker_step_counts [OF ok fresh step] by blast
    moreover have "rpcs_ok (p', sy_workers s j)" if "j < bt_workers (sy_broker s)" "j \<noteq> i" for j
      by (rule rpcs_ok_delete [OF system_invD(7) [OF inv that(1)] _ finish(5)])
        (use owned_unique [OF own a, of "At_Worker j"] that in auto)
    ultimately show ?thesis by (rule system_inv_worker_moved [OF inv i pop])
  next
    case same
    have heap: "rc_heap p' = rc_heap (sy_process s)" "next_event_id p' = next_event_id (sy_process s)"
      "remote_response_map w' = remote_response_map (sy_workers s i)"
      using same(1) by (simp_all add: same_rpcs_def)
    have sc: "started (queue_of (bt_commander (sy_broker s)) i) = started (queue_of wc i)"
      by (simp only: q(1) same(2))
    have sc': "started (queue_of (bt_commander (sy_broker s)) j) = started (queue_of wc j)" for j
      using sc q(2) [of j] by (cases "j = i") simp_all
    have "held ?s' x = held s x" for x by (cases x) (simp_all add: sc' heap)
    then have h: "held ?s' = held s" by (rule ext)
    have "owned (held ?s') (dom (rc_heap p'))" unfolding h heap by (rule own)
    moreover have "controllers_ok p'" using system_invD(2) [OF inv] heap
      by (simp add: controllers_ok_def own_events_def)
    moreover have "rpcs_ok (p', w')" using ok by (simp add: rpcs_ok_def heap)
    moreover have "rpcs_ok (p', sy_workers s j)" if "j < bt_workers (sy_broker s)" for j
      using system_invD(7) [OF inv that] by (simp add: rpcs_ok_def heap)
    ultimately show ?thesis by (intro system_inv_worker_moved [OF inv i pop])
  qed
qed

section \<open>Every step keeps the invariant\<close>

lemma reply_not_request: "list_all is_reply_cmd cs \<Longrightarrow> c \<in> set cs \<Longrightarrow> \<not> is_request_cmd c"
  by (cases c) (auto simp: list_all_iff)

lemma system_inv_step:
  assumes "system_step ps e s s'" "system_inv s"
  shows "system_inv s'"
  using assms
proof cases
  case (sys_request t info service meth payload handler timeout_ms p' h)
  note p' = request_result [OF sys_request(3,4,7)]
  have "request_ok (sy_broker s) (Cmd_Request info (next_addr (sy_process s)) h payload)"
    using sys_request(5,6) by simp
  from system_inv_request [OF assms(2) sys_request(7-9) this refl]
  show ?thesis unfolding sys_request(2) p' .
next
  case (sys_command c t)
  show ?thesis unfolding sys_command(2)
    by (rule system_inv_sends [OF assms(2)]) (use sys_command(3) in auto)
next
  case (sys_broker t c cs env bt')
  show ?thesis unfolding sys_broker(2) by (rule system_inv_broker [OF assms(2) sys_broker(3,5,6)])
next
  case (sys_dealer i ms bt')
  obtain d where d: "zsocks (sy_broker s) (dealer_sockets (sy_broker s) ! unat i) = Some d"
    using broker_inv_dealer [OF system_invD(1) [OF assms(2)] sys_dealer(3)] by blast
  have "broker_inv (presents (dealer_sockets (sy_broker s) ! unat i) ms (sy_broker s))"
    using broker_inv_presents [OF d] system_invD(1) [OF assms(2)] by simp
  note inv = ensuresD [OF inv_handle_dealer_socket [OF this] sys_dealer(4)]
  from system_inv_adds [OF assms(2) socket_adds_work(1) [OF system_invD(8) [OF assms(2)] sys_dealer(4)] inv,
      of "sy_wire s"]
  show ?thesis unfolding sys_dealer(2) by simp
next
  case (sys_router i r ms bt')
  have "broker_inv (presents (router_sockets (sy_broker s) ! unat i) ms (sy_broker s))"
    using broker_inv_presents [OF sys_router(4)] system_invD(1) [OF assms(2)] by simp
  note inv = ensuresD [OF inv_handle_router_socket [OF this] sys_router(5)]
  from system_inv_adds [OF assms(2) socket_adds_work(2) [OF system_invD(8) [OF assms(2)] sys_router(5)] inv,
      of "sy_wire s"]
  show ?thesis unfolding sys_router(2) by simp
next
  case (sys_timers env now ms bt')
  show ?thesis unfolding sys_timers(2) by (rule system_inv_timers [OF assms(2) sys_timers(3)])
next
  case (sys_rebuild env bt')
  note inv = system_invD(1) [OF assms(2)]
  from system_inv_adds [OF assms(2) rebuild_adds_work [OF inv sys_rebuild(3)]
      inv_rebuild(1) [OF inv sys_rebuild(3)], of "sy_wire s"]
  show ?thesis unfolding sys_rebuild(2) by simp
next
  case (sys_worker i c wc b p' w' cs)
  note moved = system_inv_worker_step [OF assms(2) sys_worker(3,4,5)]
  from system_inv_sends [where cs = cs and p' = p' and t = "ps_thread ps i", OF moved reply_not_request [OF sys_worker(6)]]
  show ?thesis unfolding sys_worker(2) by (cases s) simp
qed

end
