(* ===== verification/System_Replies.thy ===== *)
theory System_Replies
  imports System_Inv
begin

text \<open>
  What a worker writes: whole replies, on the socket of its own thread, and nothing else. ZeroMQ sockets
  belong to one thread, and the broker reads what they send as commands; so this is what makes workers
  safe to run beside each other, and what the step of a worker in \<open>System\<close> relies on.
\<close>

definition answers :: "thread \<Rightarrow> process \<Rightarrow> process \<Rightarrow> bool" where
  "answers t p p' \<longleftrightarrow> frontend_endpoint p' = frontend_endpoint p
     \<and> (\<exists>cs. list_all is_reply_cmd cs \<and> fe_socket t p' =
          (fe_socket t p)\<lparr>sock_out := sock_out (fe_socket t p) @ concat (map command_out cs)\<rparr>)
     \<and> (\<forall>u. u \<noteq> t \<longrightarrow> tss_fe_socket p' u = tss_fe_socket p u)"

named_theorems answers_intros "operations that write replies"

lemma fe_socket_cong:
  "tss_fe_socket p' t = tss_fe_socket p t \<Longrightarrow> frontend_endpoint p' = frontend_endpoint p
     \<Longrightarrow> fe_socket t p' = fe_socket t p"
  by (simp add: fe_socket_def cong: option.case_cong)

lemma answers_same:
  assumes "answers t p q" "tss_fe_socket q' = tss_fe_socket q" "frontend_endpoint q' = frontend_endpoint q"
  shows "answers t p q'"
  using assms fe_socket_cong [of q' t q] by (simp add: answers_def)

lemma answers_refl [simp]: "answers t p p"
  unfolding answers_def by (intro conjI exI [of _ "[]"]) simp_all

lemma answers_updates [answers_intros]:
  "answers t p q \<Longrightarrow> answers t p (q\<lparr>svc_heap := h\<rparr>)"
  "answers t p q \<Longrightarrow> answers t p (made f q)"
  "answers t p q \<Longrightarrow> answers t p (call_method k m b rep q)"
  "answers t p q \<Longrightarrow> answers t p (call_user us q)"
  "answers t p q \<Longrightarrow> answers t p (delete_controller a q)"
  by (erule answers_same; simp add: made_def call_method_def call_user_def delete_controller_def)+

lemma answers_reply [answers_intros]:
  assumes "answers t p q"
  shows "answers t p (fe_sends t (reply_frames_of info h pl) q)"
proof -
  obtain cs where cs: "list_all is_reply_cmd cs" "fe_socket t q =
      (fe_socket t p)\<lparr>sock_out := sock_out (fe_socket t p) @ concat (map command_out cs)\<rparr>"
    using assms by (auto simp: answers_def)
  have "frontend_endpoint (fe_sends t ms q) = frontend_endpoint q"
    "u \<noteq> t \<Longrightarrow> tss_fe_socket (fe_sends t ms q) u = tss_fe_socket q u" for ms u
    by (simp_all add: fe_sends_def set_fe_socket_def)
  then show ?thesis
    using assms cs unfolding answers_def
    by (intro conjI exI [of _ "cs @ [Cmd_Reply info h pl]"]) (simp_all add: fe_sends_def)
qed

lemma answers_reply_error:
  "answers t p q \<Longrightarrow> ensures (answers t p) (replier_reply_error pb t rep c e q)"
  by (simp add: replier_reply_error_def connection_reply_error_def connection_reply_header_def
      mv_push_back_def connection_reply_vector_eq ensures_Inl ensures_Inr answers_intros Let_def
      split: option.split)

lemma answers_cpp_dispatch:
  "answers t p q \<Longrightarrow> ensures (answers t p) (cpp_service_dispatch_request pb se t cls m b rep q)"
  by (simp add: cpp_service_dispatch_request_def answers_reply_error ensures_Inr answers_intros
      split: option.split)

lemma answers_dispatch:
  "answers t p q \<Longrightarrow> ensures (answers t p) (dispatch_request pb se t svc m b rep q)"
  by (simp add: dispatch_request_def mono_state_dispatch_request_def answers_cpp_dispatch ensures_Inl
      split: option.split iservice.split)

lemma answers_handle_request:
  "answers t p q \<Longrightarrow> ensures (answers t p) (handler_handle_request pb se t rh rq b q)"
  unfolding handler_handle_request_def connection_of_info_def manager_get_def
  by (auto simp: Let_def ensures_Inl answers_reply_error answers_dispatch split: option.split)

text \<open>Services are made and deleted without a message.\<close>

lemma answers_unregister:
  "answers t p (fst ph) \<Longrightarrow> ensures (\<lambda>ph. answers t p (fst ph)) (unregister_service name ph)"
  by (cases ph) (simp add: unregister_service_def delete_service_def ensures_Inl ensures_Inr
      answers_intros split: option.split)

lemma answers_register:
  assumes "answers t p (fst ph)"
  shows "ensures (\<lambda>ph. answers t p (fst ph)) (handler_register_service name svc ph)"
  unfolding handler_register_service_def
  by (auto intro!: ensures_if ensures_Inl ensures_bindE [OF answers_unregister [OF assms]] ensures_Inr)

lemma answers_create:
  assumes "answers t p (fst ph)"
  shows "ensures (\<lambda>ph. answers t p (fst ph)) (create_and_register_service name f ph)"
  using answers_register [of t p "(made f (fst ph), snd ph)"] assms answers_updates(2)
  by (cases ph) (simp add: create_and_register_service_def factory_create_made ensures_Inl)

lemma answers_create_services:
  assumes "answers t p (fst ph)"
  shows "ensures (\<lambda>ph. answers t p (fst ph)) (create_services ph)"
proof (cases ph)
  case (Pair q rh)
  have "ensures (\<lambda>ph. answers t p (fst ph))
      (service_factory_map_for_each a create_and_register_service (q, rh))" for a
    unfolding service_factory_map_for_each_def
    by (rule ensures_bindE_any, rule ensures_foldE) (use assms Pair in \<open>auto intro: answers_create\<close>)
  then show ?thesis
    using assms unfolding Pair create_services_def
    by (auto simp: manager_get_def ensures_Inl ensures_Inr router_service_factories_get_def
        intro!: ensures_bindE_any split: option.split)
qed

lemma answers_get_handler: "ensures (\<lambda>pm. answers t p (fst pm)) (get_handler info (p, m))"
proof -
  have "ensures (\<lambda>ph. answers t p (fst ph)) (new_request_handler info p)"
    unfolding new_request_handler_def by (rule answers_create_services) simp
  then have "ensures (\<lambda>pm. answers t p (fst pm))
      (bindE (new_request_handler info p) (\<lambda>(p', rh). Inr (p', m(info \<mapsto> rh))))"
    by (rule ensures_bindE) (auto intro!: ensures_Inr)
  then show ?thesis
    by (auto simp: get_handler_def insert_new_handler_def ensures_Inr split: option.split)
qed

section \<open>The operations of a worker\<close>

abbreviation worker_answers :: "thread \<Rightarrow> process \<Rightarrow> process \<times> worker \<Rightarrow> bool" where
  "worker_answers t p pw \<equiv> answers t p (fst pw)"

lemma answers_worker_request:
  "ensures (worker_answers t p) (worker_handle_request we t rq d (p, w))"
proof (cases "hd_info d")
  case (Some info)
  show ?thesis
    unfolding worker_handle_request_def Some
    by (auto intro!: ensures_bindE [OF answers_get_handler] ensures_bindE [OF answers_handle_request]
        ensures_Inl ensures_Inr split: option.split)
qed (simp add: worker_handle_request_def ensures_Inl)

lemma answers_worker_register:
  "ensures (worker_answers t p) (worker_register_service info name svc (p, w))"
  unfolding worker_register_service_def
  by (auto intro!: ensures_bindE [OF answers_get_handler] ensures_bindE [OF answers_register]
      ensures_Inl ensures_Inr split: option.split)

lemma answers_finish: "ensures (worker_answers t p) (finish oc ev (p, w))"
  by (auto simp: finish_def result_simps intro!: ensuresI answers_intros split: option.splits if_splits)

lemma worker_step_answers: "ensures (\<lambda>r. worker_answers t p (snd r)) (worker_step we t c (p, w))"
proof (cases "completes we c")
  case (Some eo)
  then show ?thesis
    by (cases eo) (auto simp: worker_step_completes intro!: ensures_bindE [OF answers_finish] ensures_Inr)
next
  case None
  show ?thesis
  proof (cases c)
    case (Handle_Data_Cmd d)
    have "ensures (worker_answers t p) (worker_handle_data we t d (p, w))"
      using None answers_worker_request unfolding Handle_Data_Cmd worker_handle_data_def completes_def
      by (auto intro!: ensures_Inr split: option.splits)
    then show ?thesis
      unfolding Handle_Data_Cmd worker_step_def
      by (simp, elim ensures_bindE) (auto intro!: ensures_Inr)
  next
    case (Register_Svc_Cmd info name svc)
    then show ?thesis
      by (auto simp: worker_step_def intro!: ensures_bindE [OF answers_worker_register] ensures_Inr)
  next
    case (Run_Closure_Cmd cl)
    then show ?thesis
      by (auto simp: worker_step_def worker_run_closure_def result_simps intro!: ensuresI answers_intros
          split: if_splits)
  next
    case (Start_Rpc_Cmd a)
    then show ?thesis
      by (auto simp: worker_step_def worker_start_rpc_def result_simps intro!: ensuresI split: if_splits)
  qed (use None in \<open>simp_all add: completes_def worker_step_def ensures_Inr\<close>)
qed


text \<open>So a worker takes a step in the system whenever it returns from a command.\<close>

lemma worker_system_step:
  assumes "i < bt_workers (sy_broker s)" "pop i (bt_commander (sy_broker s)) = Some (c, wc)"
    "worker_step (ps_worker_env ps) (ps_thread ps i) c (sy_process s, sy_workers s i) = Inr (b, (p', w'))"
  shows "\<exists>e s'. system_step ps e s s' \<and> sy_process s' = p' \<and> sy_workers s' i = w'"
proof -
  have "answers (ps_thread ps i) (sy_process s) p'"
    using ensuresD [OF worker_step_answers assms(3)] by simp
  then obtain cs where "list_all is_reply_cmd cs" "new_frames (fe_socket (ps_thread ps i) (sy_process s))
      (fe_socket (ps_thread ps i) p') = concat (map command_out cs)"
    by (auto simp: answers_def new_frames_def)
  from sys_worker [OF assms this] show ?thesis by (intro exI conjI) (assumption | simp)+
qed


end
