(* ===== verification/System_Spec.thy ===== *)
theory System_Spec
  imports System_Inv
begin

text \<open>
  What holds of every run of a process, whatever its threads do, whatever the network delivers, and
  however the steps interleave: each controller has one owner, the rpcs are those of the table of
  \<open>Worker_Refine\<close>, no step on behalf of an rpc fails, and no timeout is lost.
\<close>

section \<open>Runs\<close>

interpretation sys: keeps_invariant "system_step ps" system_inv for ps
  by unfold_locales (rule system_inv_step)

lemma system_reach_inv: "system_start s \<Longrightarrow> system_run ps s es s' \<Longrightarrow> system_inv s'"
  using sys.run_inv system_start_inv by blast

text \<open>What a step does to the rpcs of the process: one begins, one is over, or nothing changes.\<close>

lemma system_step_rpcs:
  assumes "system_step ps e s s'" "system_inv s"
  obtains (begins) h to where "e = Started (next_event_id (sy_process s)) h"
      "rc_heap (sy_process s) (next_addr (sy_process s)) = None"
      "rc_heap (sy_process s') = (rc_heap (sy_process s))
         (next_addr (sy_process s) \<mapsto> new_rpc_controller (next_event_id (sy_process s)) h to)"
      "handler_calls (sy_process s') = handler_calls (sy_process s)"
  | (over) ev oc a rc where "e = Outcome ev oc" "rc_heap (sy_process s) a = Some rc" "rc_event_id rc = ev"
      "rc_heap (sy_process s') = (rc_heap (sy_process s))(a := None)"
      "handler_calls (sy_process s') = handler_calls (sy_process s) @ calls_of oc rc"
  | (nothing) "e = Other" "rc_heap (sy_process s') = rc_heap (sy_process s)"
      "handler_calls (sy_process s') = handler_calls (sy_process s)"
  using assms(1)
proof cases
  case (sys_request t info service meth payload handler timeout_ms p' h)
  note p' = request_result [OF sys_request(3,4,7)]
  show thesis
    by (rule begins [of handler timeout_ms])
      (simp_all add: sys_request(1,2,8) p', simp_all add: with_controller_def handler_calls_def)
next
  case (sys_worker i c wc b p' w' cs)
  let ?w = "sy_workers s i"
  note cm = system_workers [OF assms(2)]
  have i': "i < wc_workers (bt_commander (sy_broker s))" using sys_worker(3) cm(2) by simp
  have ok: "rpcs_ok (sy_process s, ?w)" by (rule system_invD(7) [OF assms(2) sys_worker(3)])
  have fresh: "fresh_starts (c # queue_of wc i) (sy_process s, ?w)"
    using fresh_queue [OF assms(2) sys_worker(3)] pop_queue(1) [OF cm(1) i' sys_worker(4)] by simp
  from ok fresh sys_worker(5) show thesis
  proof (cases rule: worker_step_kinds)
    case (start a rc)
    show thesis
      by (rule nothing) (simp_all add: sys_worker(1,2) worker_event_def completes_def start(1,5))
  next
    case (finish ev oc a rc)
    show thesis
      by (rule over [of ev oc a rc]) (simp_all add: sys_worker(1,2) worker_event_def finish(1-6))
  next
    case same
    then show thesis by - (rule nothing, simp_all add: sys_worker(1,2) same_rpcs_def)
  qed
qed (use nothing in \<open>simp_all add: handler_calls_def\<close>)

section \<open>Ownership\<close>

text \<open>
  C5: In every run each controller has exactly one owner. A controller that is alive is either carried
  by one command on its way to the broker, or waits in one queue to be started, or is in the table of
  one worker; nothing that is there has been freed; and no place has it twice. So no controller is
  leaked, freed twice or used after it has been freed, though \<open>connection::request\<close> allocates it, a raw
  pointer to it goes through a socket and a queue, and another thread deletes it.
\<close>

theorem controllers_have_one_owner:
  assumes "system_start s" and "system_run ps s es s'"
  shows "(rc_heap (sy_process s') a \<noteq> None) = (\<exists>!x. a \<in> held s' x)
    \<and> (a \<in> held s' x \<longrightarrow> rc_heap (sy_process s') a \<noteq> None)
    \<and> distinct (carried (sy_wire s' t))
    \<and> (i < bt_workers (sy_broker s') \<longrightarrow> distinct (started (queue_of (bt_commander (sy_broker s')) i)))"
proof -
  note inv = system_reach_inv [OF assms]
  note own = system_invD(3) [OF inv]
  have live: "a \<in> held s' x \<Longrightarrow> rc_heap (sy_process s') a \<noteq> None" for x
    using owned_in [OF own] by auto
  moreover have "(rc_heap (sy_process s') a \<noteq> None) = (\<exists>!x. a \<in> held s' x)"
  proof
    assume "rc_heap (sy_process s') a \<noteq> None"
    then have "a \<in> dom (rc_heap (sy_process s'))" by blast
    then obtain y where "a \<in> held s' y" using owned_somewhere [OF own] by blast
    then show "\<exists>!x. a \<in> held s' x" using owned_unique [OF own] by blast
  next
    assume "\<exists>!x. a \<in> held s' x"
    then obtain y where "a \<in> held s' y" by blast
    then show "rc_heap (sy_process s') a \<noteq> None" by (rule live)
  qed
  ultimately show ?thesis using system_invD(4) [OF inv, of t] system_invD(6) [OF inv, of i] by simp
qed

section \<open>The table\<close>

text \<open>
  The table a system stands for: the events of the controllers that are alive, with their handlers, and
  the calls that have been made.
\<close>

definition stands_for :: "rpc_system \<Rightarrow> rpc_table \<Rightarrow> bool" where
  "stands_for s mc \<longleftrightarrow> snd mc = handler_calls (sy_process s)
     \<and> (\<forall>ev h. fst mc ev = Some h \<longleftrightarrow>
          (\<exists>a rc. rc_heap (sy_process s) a = Some rc \<and> rc_event_id rc = ev \<and> rc_handler rc = h))"

lemma stands_forI:
  assumes "calls = handler_calls (sy_process s)"
    and "\<And>ev h. m ev = Some h \<longleftrightarrow>
      (\<exists>a rc. rc_heap (sy_process s) a = Some rc \<and> rc_event_id rc = ev \<and> rc_handler rc = h)"
  shows "stands_for s (m, calls)"
  using assms by (simp add: stands_for_def)

lemma stands_forD:
  assumes "stands_for s (m, calls)"
  shows "calls = handler_calls (sy_process s)"
    "m ev = Some h \<longleftrightarrow>
      (\<exists>a rc. rc_heap (sy_process s) a = Some rc \<and> rc_event_id rc = ev \<and> rc_handler rc = h)"
  using assms by (simp_all add: stands_for_def)

lemma system_step_table:
  assumes step: "system_step ps e s s'" and inv: "system_inv s" and m: "stands_for s (m, calls)"
  shows "stands_for s' (table_step (m, calls) e)"
  using step inv
proof (cases rule: system_step_rpcs)
  case (begins h to)
  let ?p = "sy_process s"
  have old: "rc_event_id rc \<noteq> next_event_id ?p" if "rc_heap ?p a = Some rc" for a rc
    using system_invD(2) [OF inv] that unfolding controllers_ok_def by (metis less_irrefl)
  have new: "rc_event_id (new_rpc_controller ev h to) = ev" "rc_handler (new_rpc_controller ev h to) = h" for ev
    by (simp_all add: new_rpc_controller_def)
  have heap: "rc_heap (sy_process s') a = Some rc \<longleftrightarrow> rc_heap ?p a = Some rc
      \<or> a = next_addr ?p \<and> rc = new_rpc_controller (next_event_id ?p) h to" for a rc
    using begins(2) by (auto simp: begins(3))
  have "(m(next_event_id ?p \<mapsto> h)) ev = Some k \<longleftrightarrow>
      (\<exists>a rc. rc_heap (sy_process s') a = Some rc \<and> rc_event_id rc = ev \<and> rc_handler rc = k)" for ev k
    unfolding heap using stands_forD(2) [OF m, of ev k] old new
    by (cases "ev = next_event_id ?p") (auto, use new in blast)
  then show ?thesis
    unfolding begins(1) table_step.simps using stands_forD(1) [OF m] begins(4)
    by (intro stands_forI) simp_all
next
  case (over ev oc a rc)
  have "own_events (sy_process s)" using system_invD(2) [OF inv] by (simp add: controllers_ok_def)
  then have own: "b = a" if "rc_heap (sy_process s) b = Some d" "rc_event_id d = ev" for b d
    using over(2,3) that unfolding own_events_def by metis
  have here: "m ev = Some (rc_handler rc)" using stands_forD(2) [OF m] over(2,3) by blast
  have heap: "rc_heap (sy_process s') b = Some d \<longleftrightarrow> rc_heap (sy_process s) b = Some d \<and> rc_event_id d \<noteq> ev"
    for b d using own [of b d] over(2,3) by (auto simp: over(4))
  have "(m(ev := None)) e' = Some k \<longleftrightarrow>
      (\<exists>a rc. rc_heap (sy_process s') a = Some rc \<and> rc_event_id rc = e' \<and> rc_handler rc = k)" for e' k
    unfolding heap using stands_forD(2) [OF m, of e' k] by (cases "e' = ev") auto
  then show ?thesis
    unfolding over(1) table_step.simps here using stands_forD(1) [OF m] over(5)
    by (simp add: stands_forI calls_of_told)
next
  case nothing
  then show ?thesis using m by (simp add: stands_for_def)
qed

interpretation table: simulation "system_step ps" system_inv stands_for table_step for ps
proof
  show "stands_for s' (table_step mc e)" if "system_step ps e s s'" "system_inv s" "stands_for s mc"
    for e s s' mc
    using system_step_table [OF that(1,2), of "fst mc" "snd mc"] that(3) by simp
qed

text \<open>
  C4: The whole process implements the table of pending rpcs. Whatever its threads, its broker and its
  workers do, in any order, the events with a controller, their handlers, and the calls of handlers
  with their arguments, in order, are what the table has after the same requests and outcomes. Sockets,
  queues, workers, addresses and the order in which the threads run do not show.
\<close>

theorem system_refines_table:
  assumes "system_start s" and "system_run ps s es s'"
  shows "stands_for s' (foldl table_step (Map.empty, []) es)"
proof -
  have "stands_for s (Map.empty, [])"
    using assms(1) by (intro stands_forI) (simp_all add: system_start_def handler_calls_def List.map_filter_def)
  then show ?thesis by (rule table.run_rel [OF assms(2) system_start_inv [OF assms(1)]])
qed

section \<open>Counting\<close>

definition unanswered :: "nat \<Rightarrow> rpc_system \<Rightarrow> ptr set" where
  "unanswered h s = {a. map_option rc_handler (rc_heap (sy_process s) a) = Some (Handler h)}"

definition requested :: "nat \<Rightarrow> rpc_event list \<Rightarrow> nat" where
  "requested h es = length [e \<leftarrow> es. case e of Started ev k \<Rightarrow> k = Handler h | _ \<Rightarrow> False]"

lemma finite_unanswered: "system_inv s \<Longrightarrow> finite (unanswered h s)"
  by (rule finite_subset [of _ "dom (rc_heap (sy_process s))"])
    (auto simp: unanswered_def dest: system_invD(2) simp: controllers_ok_def)

lemma system_step_counts:
  assumes step: "system_step ps e s s'" and inv: "system_inv s"
  shows "told h (sy_process s') + card (unanswered h s') =
    told h (sy_process s) + card (unanswered h s) + requested h [e]"
  using step inv
proof (cases rule: system_step_rpcs)
  case (begins k to)
  let ?a = "next_addr (sy_process s)"
  have "rc_handler (new_rpc_controller ev k to) = k" for ev by (simp add: new_rpc_controller_def)
  then have "unanswered h s' = (if k = Handler h then insert ?a (unanswered h s) else unanswered h s)"
    using begins(2) by (auto simp: unanswered_def begins(3))
  moreover have "?a \<notin> unanswered h s" using begins(2) by (simp add: unanswered_def)
  ultimately show ?thesis
    using finite_unanswered [OF inv, of h] begins(1,4) by (simp add: told_def requested_def)
next
  case (over ev oc a rc)
  have "unanswered h s' = unanswered h s - {a}" by (auto simp: unanswered_def over(4))
  moreover have "a \<in> unanswered h s \<longleftrightarrow> rc_handler rc = Handler h" by (simp add: unanswered_def over(2))
  moreover have "length [hc \<leftarrow> calls_of oc rc. hc_target hc = h] = (if rc_handler rc = Handler h then 1 else 0)"
    by (rule told_calls_of)
  ultimately show ?thesis
    using finite_unanswered [OF inv, of h] over(1,5) card_Suc_Diff1 [of "unanswered h s" a]
    by (simp add: told_def requested_def)
next
  case nothing
  then show ?thesis by (simp add: told_def requested_def unanswered_def)
qed

definition count_to :: "nat \<Rightarrow> rpc_system \<Rightarrow> nat \<Rightarrow> bool" where
  "count_to h s n \<longleftrightarrow> told h (sy_process s) + card (unanswered h s) = n"

interpretation counts: simulation "system_step ps" system_inv "count_to h" "\<lambda>n e. n + requested h [e]" for ps h
  by unfold_locales (simp add: count_to_def system_step_counts)

lemma requested_all: "foldl (\<lambda>n e. n + requested h [e]) n es = n + requested h es"
  by (induction es arbitrary: n) (simp_all add: requested_def)

lemma system_run_counts:
  assumes "system_run ps s es s'" "system_inv s"
  shows "told h (sy_process s') + card (unanswered h s') =
    told h (sy_process s) + card (unanswered h s) + requested h es"
  using counts.run_rel [OF assms, of h] by (simp add: count_to_def requested_all)

text \<open>
  C6: No response handler is forgotten and none is called twice. In every run of the process the calls
  of a handler and the controllers with this handler that are still alive are together as many as the
  requests that were sent with it, so at no time more calls than requests, and as many when nothing
  waits any more.
\<close>

theorem each_request_told_once:
  assumes "system_start s" and "system_run ps s es s'"
  shows "told h (sy_process s') + card (unanswered h s') = requested h es"
proof -
  have "told h (sy_process s) = 0" "unanswered h s = {}"
    using assms(1) by (simp_all add: system_start_def told_def unanswered_def handler_calls_def
        List.map_filter_def)
  then show ?thesis using system_run_counts [OF assms(2) system_start_inv [OF assms(1)], of h] by simp
qed

section \<open>No step of an rpc fails\<close>


section \<open>A run\<close>

text \<open>
  A process with two workers and a connection to a server. A thread sends a request with a timeout, and
  the broker takes it.
\<close>

definition run_setting :: rpc_setting where
  "run_setting = \<lparr>ps_worker_env = path_we, ps_hash = be_hash demo_env, ps_identity = (\<lambda>t. ''u''),
     ps_thread = (\<lambda>i. Suc (unat i))\<rparr>"

definition run_start :: rpc_system where
  "run_start = \<lparr>sy_process = demo_process\<lparr>rc_heap := Map.empty, next_event_id := 1\<rparr>,
     sy_broker = demo_broker [] [] [], sy_workers = (\<lambda>i. new_worker 0), sy_wire = (\<lambda>t. [])\<rparr>"

definition run_request :: user_command where
  "run_request = Cmd_Request (connection_info_dealer 1) 10 ''q'' ''p''"

definition run_controller :: rpc_controller where
  "run_controller = new_rpc_controller 1 (Handler 5) 100"

definition run_sent :: rpc_system where
  "run_sent = run_start\<lparr>sy_process := fe_sends 0 (command_out run_request)
       (with_controller (Handler 5) 100 (sy_process run_start)),
     sy_wire := (\<lambda>t. [])(0 := [run_request])\<rparr>"

lemma run_queues:
  assumes "i < bt_workers (demo_broker [] [] [])"
  shows "queue_of (bt_commander (demo_broker [] [] [])) i = []"
proof -
  have "unat i < 2" using assms by (simp add: word_less_nat_alt)
  then have "unat i = 0 \<or> unat i = 1" by linarith
  then show ?thesis by (auto simp: queue_of_def)
qed

lemma run_start: "system_start run_start"
  using demo_broker_inv run_queues
  by (simp add: system_start_def run_start_def demo_process_fields new_worker_def)

lemma run_sends: "system_step run_setting (Started 1 (Handler 5)) run_start run_sent"
proof -
  let ?p = "sy_process run_start"
  have p: "next_addr ?p = 10" "next_event_id ?p = 1" "rc_heap ?p = Map.empty" "sy_wire run_start = (\<lambda>t. [])"
    "sy_broker run_start = demo_broker [] [] []"
    by (simp_all add: run_start_def demo_process_fields)
  have h: "serialize_hdr (we_codec (ps_worker_env run_setting)) (request_header (next_event_id ?p) ''s'' ''m'')
      = Some ''q''"
    by (simp add: run_setting_def path_we_def path_codec_def request_header_def)
  have n: "next_addr ?p \<noteq> NULL" by (simp add: p)
  have "Some ''p'' = Some ''p''" ..
  from connection_request_eq [where serialize = Some and req = "''p''", OF n this h,
      of 0 "connection_info_dealer 1" "Handler 5" 100]
  have "connection_request (we_codec (ps_worker_env run_setting)) Some 0 (connection_info_dealer 1) ''s'' ''m''
      ''p'' (Handler 5) 100 ?p = Inr (sy_process run_sent)"
    by (simp add: run_sent_def run_request_def p)
  from sys_request [OF this h _ _ n] show ?thesis
    using demo_legal(1) [of "[]" "[]" "[]"]
    by (simp add: p connection_info_dealer_def info_wf_def run_sent_def run_request_def)
qed

lemma run_taken:
  "\<exists>s. system_run run_setting run_start [Started 1 (Handler 5), Other] s
    \<and> rc_heap (sy_process s) = [10 \<mapsto> run_controller] \<and> bt_workers (sy_broker s) = 2
    \<and> queue_of (bt_commander (sy_broker s)) 1 = [Start_Rpc_Cmd 10]"
proof -
  have r1: "system_run run_setting run_start [Started 1 (Handler 5)] run_sent"
    using run_step [where step = "system_step run_setting", OF run_none run_sends] by simp
  have inv: "system_inv run_sent" by (rule system_reach_inv [OF run_start r1])
  have f: "sy_wire run_sent 0 = [Cmd_Request (connection_info_dealer 1) 10 ''q'' ''p'']"
    "sy_broker run_sent = demo_broker [] [] []"
    "rc_heap (sy_process run_sent) = [10 \<mapsto> run_controller]"
    by (simp_all add: run_sent_def run_request_def run_start_def with_controller_def demo_process_fields
        run_controller_def)
  from request_started [OF inv f(1) _, of demo_env "''u''"] obtain bt' where bt:
    "handle_frontend_socket demo_env (frontend_socket (sy_broker run_sent))
      (presents (frontend_socket (sy_broker run_sent)) (frame_enc ''u'' True @ command_out run_request)
        ((sy_broker run_sent)\<lparr>ctrl_heap := rc_heap (sy_process run_sent)\<rparr>)) = Inr bt'"
    "bt_commander bt' = push 1 (Start_Rpc_Cmd 10) (bt_commander (sy_broker run_sent))"
    "bt_workers bt' = bt_workers (sy_broker run_sent)"
    using demo_worker_of(1) [of "[]" "[]" "[]"] by (auto simp: f(2) run_request_def)
  have "system_step run_setting Other run_sent
      (run_sent\<lparr>sy_broker := bt', sy_wire := (sy_wire run_sent)(0 := [])\<rparr>)"
    by (rule sys_broker [where env = demo_env and c = run_request])
      (use bt(1) demo_env_ok in \<open>simp_all add: f(1,2) run_setting_def run_request_def\<close>)
  from run_step [where step = "system_step run_setting", OF r1 this]
  show ?thesis
    by (intro exI conjI) (simp, simp_all add: f bt(2,3) push_def queue_of_def)
qed

theorem controllers_have_one_owner_witness:
  "\<exists>s. system_run run_setting run_start [Started 1 (Handler 5), Other] s
    \<and> rc_heap (sy_process s) 10 \<noteq> None \<and> (\<exists>!x. 10 \<in> held s x)"
proof -
  obtain s where s: "system_run run_setting run_start [Started 1 (Handler 5), Other] s"
    "rc_heap (sy_process s) = [10 \<mapsto> run_controller]" using run_taken by blast
  have "rc_heap (sy_process s) 10 \<noteq> None" by (simp add: s(2))
  with controllers_have_one_owner [OF run_start s(1), of 10 "In_Queue 1" 0 1] s(1)
  show ?thesis by (intro exI [of _ s]) simp
qed

theorem system_refines_table_witness:
  "\<exists>s. system_run run_setting run_start [Started 1 (Handler 5), Other] s
    \<and> stands_for s ([1 \<mapsto> Handler 5], [])"
proof -
  obtain s where s: "system_run run_setting run_start [Started 1 (Handler 5), Other] s"
    using run_taken by blast
  from system_refines_table [OF run_start s] s show ?thesis by auto
qed

theorem each_request_told_once_witness:
  "\<exists>s. system_run run_setting run_start [Started 1 (Handler 5), Other] s
    \<and> told 5 (sy_process s) + card (unanswered 5 s) = 1"
proof -
  obtain s where s: "system_run run_setting run_start [Started 1 (Handler 5), Other] s"
    using run_taken by blast
  from each_request_told_once [OF run_start s, of 5] s show ?thesis by (auto simp: requested_def)
qed


end
