(* ===== verification/System_Time.thy ===== *)
theory System_Time
  imports System_Spec
begin

text \<open>
  Timeouts in a running process: no timer of a pending rpc is ever lost between the broker, the queue
  and the worker, and when its time comes, the handler is told.
\<close>

section \<open>Where a timeout is\<close>

text \<open>A timer of the broker that will post the timeout of an event to a worker.\<close>

definition armed :: "broker_thread \<Rightarrow> unsigned_int \<Rightarrow> uint64 \<Rightarrow> bool" where
  "armed bt i ev \<longleftrightarrow> (\<exists>cl \<in> set (concat (map snd (r_closure_run_map bt))).
     timer_worker (bt_workers bt) cl = i \<and> timer_event cl = ev)"

text \<open>The commands of a queue that a worker executes after it has started a controller.\<close>

definition behind :: "ptr \<Rightarrow> worker_cmd list \<Rightarrow> worker_cmd list" where
  "behind a q = (if Start_Rpc_Cmd a \<in> set q then tl (dropWhile (\<lambda>c. c \<noteq> Start_Rpc_Cmd a) q) else q)"

lemma set_started: "a \<in> set (started q) \<longleftrightarrow> Start_Rpc_Cmd a \<in> set q"
  by (induction q) (auto split: worker_cmd.split)

lemma behind_append:
  assumes "Start_Rpc_Cmd a \<notin> set cs"
  shows "behind a (q @ cs) = behind a q @ cs"
proof (cases "Start_Rpc_Cmd a \<in> set q")
  case True
  then have "dropWhile (\<lambda>c. c \<noteq> Start_Rpc_Cmd a) q \<noteq> []" by (simp add: dropWhile_eq_Nil_conv)
  with True show ?thesis by (simp add: behind_def dropWhile_append1 [where x = "Start_Rpc_Cmd a"])
qed (simp add: behind_def assms)

lemma behind_first: "Start_Rpc_Cmd a \<notin> set q \<Longrightarrow> behind a (Start_Rpc_Cmd a # q) = behind a q"
  by (simp add: behind_def)

lemma behind_other:
  "c \<noteq> Start_Rpc_Cmd a \<Longrightarrow> set (behind a (c # q)) \<subseteq> insert c (set (behind a q))"
  by (auto simp: behind_def)

text \<open>
  What holds of every rpc with a timeout that has left its thread: a timer is armed for the worker that
  has the rpc, or the timeout is in the queue of this worker, behind the start of the rpc.
\<close>

definition has_rpc :: "rpc_system \<Rightarrow> unsigned_int \<Rightarrow> ptr \<Rightarrow> bool" where
  "has_rpc s i a \<longleftrightarrow> i < bt_workers (sy_broker s) \<and> (a \<in> held s (In_Queue i) \<or> a \<in> held s (At_Worker i))"

abbreviation queued :: "rpc_system \<Rightarrow> unsigned_int \<Rightarrow> worker_cmd list" where
  "queued s i \<equiv> queue_of (bt_commander (sy_broker s)) i"

lemma has_rpc_iff:
  "has_rpc s i a \<longleftrightarrow> i < bt_workers (sy_broker s)
     \<and> (Start_Rpc_Cmd a \<in> set (queued s i) \<or> a \<in> ran (remote_response_map (sy_workers s i)))"
  by (auto simp: has_rpc_def set_started)

definition will_time_out :: "rpc_system \<Rightarrow> unsigned_int \<Rightarrow> ptr \<Rightarrow> uint64 \<Rightarrow> bool" where
  "will_time_out s i a ev \<longleftrightarrow> armed (sy_broker s) i ev \<or> Handle_Timeout_Cmd ev \<in> set (behind a (queued s i))"

definition times_out :: "rpc_system \<Rightarrow> bool" where
  "times_out s \<longleftrightarrow> (\<forall>a rc i. rc_heap (sy_process s) a = Some rc \<longrightarrow> get_timeout_ms rc \<noteq> - 1 \<longrightarrow>
     has_rpc s i a \<longrightarrow> will_time_out s i a (get_event_id rc))"

lemma times_outD:
  "times_out s \<Longrightarrow> rc_heap (sy_process s) a = Some rc \<Longrightarrow> get_timeout_ms rc \<noteq> - 1 \<Longrightarrow> has_rpc s i a
     \<Longrightarrow> will_time_out s i a (get_event_id rc)"
  by (simp add: times_out_def)

text \<open>A step keeps it when it gives a worker no new rpc, and loses no timeout of the ones it has.\<close>

lemma times_out_step:
  assumes "times_out s"
    and "\<And>a rc i. rc_heap (sy_process s') a = Some rc \<Longrightarrow> has_rpc s' i a \<Longrightarrow>
      rc_heap (sy_process s) a = Some rc \<and> has_rpc s i a"
    and "\<And>a rc i. rc_heap (sy_process s') a = Some rc \<Longrightarrow> has_rpc s' i a \<Longrightarrow>
      will_time_out s i a (get_event_id rc) \<Longrightarrow> will_time_out s' i a (get_event_id rc)"
  shows "times_out s'"
  using assms unfolding times_out_def by blast

section \<open>Steps of the broker\<close>

lemma will_time_out_adds:
  assumes "bt_workers (sy_broker s') = bt_workers (sy_broker s)"
    and "queued s' i = queued s i @ cs" and "Start_Rpc_Cmd a \<notin> set cs"
    and "armed (sy_broker s) i ev \<Longrightarrow> armed (sy_broker s') i ev \<or> Handle_Timeout_Cmd ev \<in> set cs"
    and "will_time_out s i a ev"
  shows "will_time_out s' i a ev"
  using assms(4,5) unfolding will_time_out_def assms(2) behind_append [OF assms(3)] by auto

lemma times_out_adds:
  assumes "times_out s" and "bt_workers bt' = bt_workers (sy_broker s)"
    and q: "\<And>i. i < bt_workers (sy_broker s) \<Longrightarrow> \<exists>cs. queue_of (bt_commander bt') i = queued s i @ cs
      \<and> started cs = []
      \<and> (\<forall>ev. armed (sy_broker s) i ev \<longrightarrow> armed bt' i ev \<or> Handle_Timeout_Cmd ev \<in> set cs)"
  shows "times_out (s\<lparr>sy_broker := bt', sy_wire := wire'\<rparr>)" (is "times_out ?s'")
proof (rule times_out_step [OF assms(1)])
  fix a rc i
  assume heap: "rc_heap (sy_process ?s') a = Some rc" and has: "has_rpc ?s' i a"
  then have i: "i < bt_workers (sy_broker s)" by (simp add: has_rpc_def assms(2))
  from q [OF this] obtain cs where cs: "queue_of (bt_commander bt') i = queued s i @ cs" "started cs = []"
    "\<forall>ev. armed (sy_broker s) i ev \<longrightarrow> armed bt' i ev \<or> Handle_Timeout_Cmd ev \<in> set cs" by blast
  show "rc_heap (sy_process s) a = Some rc \<and> has_rpc s i a"
    using heap has i by (simp add: has_rpc_def assms(2) cs)
  have "Start_Rpc_Cmd a \<notin> set cs" using cs(2) set_started [of a cs] by simp
  then show "will_time_out ?s' i a (get_event_id rc)" if "will_time_out s i a (get_event_id rc)"
    using will_time_out_adds [of ?s' s i cs a] cs(1,3) assms(2) that by simp
qed

lemma armed_same:
  "r_closure_run_map bt' = r_closure_run_map bt \<Longrightarrow> bt_workers bt' = bt_workers bt \<Longrightarrow> armed bt' = armed bt"
  by (simp add: armed_def fun_eq_iff)

lemma times_out_adds_work:
  assumes "times_out s" and "adds_work (sy_broker s) bt'"
  shows "times_out (s\<lparr>sy_broker := bt', sy_wire := wire'\<rparr>)"
proof (rule times_out_adds [OF assms(1)])
  show n: "bt_workers bt' = bt_workers (sy_broker s)" using assms(2) by (simp add: adds_work_def)
  have "armed bt' = armed (sy_broker s)"
    using assms(2) by (intro armed_same) (simp_all add: adds_work_def)
  then show "\<exists>cs. queue_of (bt_commander bt') i = queued s i @ cs \<and> started cs = []
      \<and> (\<forall>ev. armed (sy_broker s) i ev \<longrightarrow> armed bt' i ev \<or> Handle_Timeout_Cmd ev \<in> set cs)"
    if "i < bt_workers (sy_broker s)" for i
    using assms(2) that unfolding adds_work_def by fastforce
qed

text \<open>A timer that is due is in the queue of its worker after the time has passed.\<close>

lemma timer_passes:
  assumes "r_closure_run_map bt' = [e \<leftarrow> r_closure_run_map bt. now < fst e]"
    and "bt_workers bt' = bt_workers bt" and "armed bt i ev"
  shows "armed bt' i ev \<or> Handle_Timeout_Cmd ev \<in> set (map snd [d \<leftarrow> due_timeouts now bt. fst d = i])"
proof -
  obtain e cl where e: "e \<in> set (r_closure_run_map bt)" "cl \<in> set (snd e)"
    "timer_worker (bt_workers bt) cl = i" "timer_event cl = ev"
    using assms(3) unfolding armed_def by auto
  show ?thesis
  proof (cases "now < fst e")
    case True
    then have "armed bt' i ev"
      using e unfolding armed_def assms(1,2)
      by (intro bexI [of _ cl]) (simp, cases e, force simp del: timer_worker.simps timer_event.simps)
    then show ?thesis ..
  next
    case False
    then have "(i, Handle_Timeout_Cmd ev) \<in> set (due_timeouts now bt)"
      unfolding due_timeouts_def using e by (force simp del: timer_worker.simps timer_event.simps)
    then show ?thesis by force
  qed
qed

lemma times_out_timers:
  assumes "times_out s" and "broker_inv (sy_broker s)"
    and "process_closure_run_map (broker_closure_run env) now (sy_broker s) = Inr (ms, bt')"
  shows "times_out (s\<lparr>sy_broker := bt'\<rparr>)"
proof -
  note t = timers_add [OF assms(2,3)]
  have "times_out (s\<lparr>sy_broker := bt', sy_wire := sy_wire s\<rparr>)"
    using t(5,6) timer_passes [OF t(4,2)]
    by (intro times_out_adds [OF assms(1) t(2)]) blast
  then show ?thesis by simp
qed

text \<open>The broker arms the timer of a request when it starts it.\<close>

lemma armed_at:
  assumes "map_ok (r_closure_run_map bt)"
  shows "armed bt i ev \<longleftrightarrow> (\<exists>t. \<exists>cl \<in> set (closures_at bt t).
    timer_worker (bt_workers bt) cl = i \<and> timer_event cl = ev)"
proof -
  have "cl \<in> set (concat (map snd (r_closure_run_map bt))) \<longleftrightarrow> (\<exists>t. cl \<in> set (closures_at bt t))" for cl
  proof
    assume "cl \<in> set (concat (map snd (r_closure_run_map bt)))"
    then obtain t cls where "(t, cls) \<in> set (r_closure_run_map bt)" "cl \<in> set cls" by auto
    then have "cl \<in> set (closures_at bt t)" using map_ok_Some [OF assms] by (simp add: closures_at_def)
    then show "\<exists>t. cl \<in> set (closures_at bt t)" ..
  next
    assume "\<exists>t. cl \<in> set (closures_at bt t)"
    then obtain t where t: "cl \<in> set (closures_at bt t)" ..
    then obtain cls where "map_of (r_closure_run_map bt) t = Some cls" "cl \<in> set cls"
      by (cases "map_of (r_closure_run_map bt) t") (simp_all add: closures_at_def)
    then have "(t, cls) \<in> set (r_closure_run_map bt)" "cl \<in> set cls" by (auto dest: map_of_SomeD)
    then show "cl \<in> set (concat (map snd (r_closure_run_map bt)))" by force
  qed
  then show ?thesis unfolding armed_def by blast
qed

lemma armed_timer_set:
  assumes "map_ok (r_closure_run_map st)"
    and bt: "r_closure_run_map bt' = r_closure_run_map (timer_set env info c st)" "bt_workers bt' = bt_workers st"
  shows "armed st i ev \<Longrightarrow> armed bt' i ev"
    and "get_timeout_ms c \<noteq> - 1 \<Longrightarrow> armed bt' (worker_of (be_hash env) info st) (get_event_id c)"
proof -
  let ?cl = "new_callback (Handle_Timeout (get_event_id c) (hash_value (be_hash env) info mod scast (bt_workers st)))"
  let ?t = "be_now env + get_timeout_ms c"
  have ok: "map_ok (r_closure_run_map bt')"
    using assms(1) unfolding bt by (simp add: timer_set_def run_closure_at_ok)
  have at: "closures_at bt' t = (if get_timeout_ms c \<noteq> - 1 \<and> t = ?t then closures_at st t @ [?cl]
      else closures_at st t)" for t
    by (simp add: closures_at_def bt) (simp add: timer_set_def closures_at_run_closure_at flip: closures_at_def)
  show "armed st i ev \<Longrightarrow> armed bt' i ev"
    unfolding armed_at [OF assms(1)] armed_at [OF ok] at bt(2) by fastforce
  have "?cl \<in> set (closures_at bt' ?t)" if "get_timeout_ms c \<noteq> - 1" using that by (simp add: at)
  moreover have "timer_worker (bt_workers bt') ?cl = worker_of (be_hash env) info st"
    "timer_event ?cl = get_event_id c"
    by (simp_all add: worker_of_def bt(2) word_mod_mod)
  ultimately show "get_timeout_ms c \<noteq> - 1 \<Longrightarrow> armed bt' (worker_of (be_hash env) info st) (get_event_id c)"
    unfolding armed_at [OF ok] by blast
qed

lemma times_out_started:
  assumes inv: "system_inv s" and s: "times_out s" and w: "sy_wire s t = Cmd_Request info a h pl # cs"
    and c: "rc_heap (sy_process s) a = Some c"
    and bt: "bt_workers bt' = bt_workers (sy_broker s)"
      "bt_commander bt' = push (worker_of (be_hash env) info (sy_broker s)) (Start_Rpc_Cmd a)
        (bt_commander (sy_broker s))"
      "r_closure_run_map bt' = r_closure_run_map (timer_set env info c (sy_broker s))"
  shows "times_out (s\<lparr>sy_broker := bt', sy_wire := wire'\<rparr>)" (is "times_out ?s'")
proof -
  let ?i = "worker_of (be_hash env) info (sy_broker s)"
  note timers = armed_timer_set [OF broker_inv_parts(2) [OF system_invD(1) [OF inv]] bt(3,1)]
  have q: "queue_of (bt_commander bt') j = queued s j @ (if j = ?i then [Start_Rpc_Cmd a] else [])" for j
    using queue_of_push [OF system_workers(1) [OF inv] worker_of_less [OF system_invD(8) [OF inv]]]
    by (simp add: bt(2))
  have wire: "a \<in> held s (On_Wire t)" by (simp add: w)
  have nowhere: "\<not> has_rpc s j a" for j
    using owned_unique [OF system_invD(3) [OF inv] wire, of "In_Queue j"]
      owned_unique [OF system_invD(3) [OF inv] wire, of "At_Worker j"] unfolding has_rpc_def by blast
  have has: "has_rpc ?s' j b \<longleftrightarrow> has_rpc s j b \<or> b = a \<and> j = ?i \<and> j < bt_workers (sy_broker s)" for j b
    by (auto simp: has_rpc_def bt(1) q)
  show ?thesis
    unfolding times_out_def
  proof (intro allI impI)
    fix b rc j
    assume b: "rc_heap (sy_process ?s') b = Some rc" "get_timeout_ms rc \<noteq> - 1" "has_rpc ?s' j b"
    show "will_time_out ?s' j b (get_event_id rc)"
    proof (cases "b = a")
      case True
      then have "j = ?i" "rc = c" using b(1,3) c nowhere has by auto
      then show ?thesis using timers(2) b(2) by (simp add: will_time_out_def)
    next
      case False
      then have "will_time_out s j b (get_event_id rc)" using s b has by (simp add: times_out_def)
      then show ?thesis
        by (rule will_time_out_adds [rotated 4]) (use False bt(1) q timers(1) in auto)
    qed
  qed
qed

section \<open>Steps of the workers\<close>

text \<open>A worker frees controllers, and has those it had and the one it starts.\<close>

lemma worker_step_shrinks:
  assumes "rpcs_ok (p, w)" "fresh_starts (c # cs) (p, w)" "worker_step we t c (p, w) = Inr (b, (p', w'))"
  shows "rc_heap p' a = Some rc \<Longrightarrow> rc_heap p a = Some rc"
    and "a \<in> ran (remote_response_map w') \<Longrightarrow> a \<in> ran (remote_response_map w) \<or> c = Start_Rpc_Cmd a"
    and "c = Handle_Timeout_Cmd ev \<Longrightarrow> remote_response_map w ev = Some a \<Longrightarrow> rc_heap p' a = None"
proof -
  have "(rc_heap p' a = Some rc \<longrightarrow> rc_heap p a = Some rc)
    \<and> (a \<in> ran (remote_response_map w') \<longrightarrow> a \<in> ran (remote_response_map w) \<or> c = Start_Rpc_Cmd a)
    \<and> (c = Handle_Timeout_Cmd ev \<longrightarrow> remote_response_map w ev = Some a \<longrightarrow> rc_heap p' a = None)"
    using assms
  proof (cases rule: worker_step_kinds)
    case (start a' rc')
    then show ?thesis by (auto simp: ran_def split: if_splits)
  next
    case (finish ev' oc a' rc')
    then show ?thesis by (auto simp: ran_def completes_def split: if_splits)
  next
    case same
    then show ?thesis by (auto simp: same_rpcs_def worker_event_def completes_def)
  qed
  then show "rc_heap p' a = Some rc \<Longrightarrow> rc_heap p a = Some rc"
    "a \<in> ran (remote_response_map w') \<Longrightarrow> a \<in> ran (remote_response_map w) \<or> c = Start_Rpc_Cmd a"
    "c = Handle_Timeout_Cmd ev \<Longrightarrow> remote_response_map w ev = Some a \<Longrightarrow> rc_heap p' a = None"
    by blast+
qed

lemma times_out_worker:
  assumes inv: "system_inv s" and s: "times_out s" and i: "i < bt_workers (sy_broker s)"
    and pop: "pop i (bt_commander (sy_broker s)) = Some (c, wc)"
    and step: "worker_step we t c (sy_process s, sy_workers s i) = Inr (b, (p', w'))"
  shows "times_out (worker_moved p' wc i w' s\<lparr>sy_wire := wire'\<rparr>)" (is "times_out ?s'")
proof (rule times_out_step [OF s])
  note cm = system_workers [OF inv]
  have i': "i < wc_workers (bt_commander (sy_broker s))" using i cm(2) by simp
  note q = pop_queue [OF cm(1) i' pop]
  note ok = system_invD(7) [OF inv i]
  have fresh: "fresh_starts (c # queue_of wc i) (sy_process s, sy_workers s i)"
    using fresh_queue [OF inv i] by (simp add: q(1))
  note shrinks = worker_step_shrinks [OF ok fresh step]
  fix a rc j
  assume heap: "rc_heap (sy_process ?s') a = Some rc" and has: "has_rpc ?s' j a"
  have a: "rc_heap (sy_process s) a = Some rc" using heap shrinks(1) by simp
  have has': "has_rpc s j a"
  proof (cases "j = i")
    case True
    then show ?thesis using has shrinks(2) [of a] by (auto simp: has_rpc_def q(1) set_started)
  next
    case False
    then show ?thesis using has q(2) [OF False] by (simp add: has_rpc_iff)
  qed
  with a show "rc_heap (sy_process s) a = Some rc \<and> has_rpc s j a" ..
  assume will: "will_time_out s j a (get_event_id rc)"
  have armed: "armed (sy_broker ?s') = armed (sy_broker s)" by (rule armed_same) simp_all
  show "will_time_out ?s' j a (get_event_id rc)"
  proof (cases "j = i")
    case True
    have "Handle_Timeout_Cmd (get_event_id rc) \<in> set (behind a (queue_of wc i))"
      if h: "Handle_Timeout_Cmd (get_event_id rc) \<in> set (behind a (c # queue_of wc i))"
    proof (cases "c = Start_Rpc_Cmd a")
      case True
      moreover have "Start_Rpc_Cmd a \<notin> set (queue_of wc i)"
        using system_invD(6) [OF inv i] by (simp add: q(1) True set_started)
      ultimately show ?thesis using h by (simp add: behind_first)
    next
      case c: False
      have "c \<noteq> Handle_Timeout_Cmd (get_event_id rc)" if no: "Start_Rpc_Cmd a \<notin> set (queue_of wc i)"
      proof
        assume t: "c = Handle_Timeout_Cmd (get_event_id rc)"
        have "a \<in> ran (remote_response_map (sy_workers s i))"
          using has' no t by (simp add: has_rpc_def q(1) set_started \<open>j = i\<close> split: if_splits)
        then obtain ev where ev: "remote_response_map (sy_workers s i) ev = Some a" by (auto simp: ran_def)
        then have "ev = get_event_id rc" using rpcs_okD(2) [OF ok ev] a by (auto simp: get_event_id_def)
        then have "rc_heap p' a = None" using shrinks(3) [OF t] ev by simp
        with heap show False by simp
      qed
      with h c show ?thesis by (cases "Start_Rpc_Cmd a \<in> set (queue_of wc i)") (auto simp: behind_def)
    qed
    with will True armed show ?thesis by (auto simp: will_time_out_def q(1))
  next
    case False
    then show ?thesis using will q(2) [OF False] armed by (simp add: will_time_out_def)
  qed
qed

section \<open>Every step\<close>

lemma times_out_keeps:
  assumes "system_step ps e s s'" "system_inv s" "times_out s"
  shows "times_out s'"
  using assms(1)
proof cases
  case (sys_request t info service meth payload handler timeout_ms p' h)
  note p' = request_result [OF sys_request(3,4,7)]
  have "\<not> has_rpc s i (next_addr (sy_process s))" for i
    using owned_in [OF system_invD(3) [OF assms(2)]] sys_request(8) unfolding has_rpc_def by blast
  then show ?thesis
    by (intro times_out_step [OF assms(3)])
      (auto simp: sys_request(2) p' has_rpc_def with_controller_def will_time_out_def split: if_splits)
next
  case (sys_command c t)
  show ?thesis
    by (rule times_out_step [OF assms(3)]) (simp_all add: sys_command(2) has_rpc_iff will_time_out_def)
next
  case (sys_broker t c cs env bt')
  show ?thesis
  proof (cases "is_request_cmd c")
    case True
    then obtain info a hd pl where c: "c = Cmd_Request info a hd pl" by (cases c) auto
    from request_accepted [OF assms(2) sys_broker(3,6) [unfolded c]]
    show ?thesis unfolding sys_broker(2) c
      using times_out_started [OF assms(2,3) sys_broker(3) [unfolded c]] by auto
  next
    case False
    have "workers_inv ((sy_broker s)\<lparr>ctrl_heap := rc_heap (sy_process s)\<rparr>)"
      using system_invD(8) [OF assms(2)] by simp
    from frontend_adds_work [OF this False sys_broker(6)] have "adds_work (sy_broker s) bt'" by simp
    then show ?thesis unfolding sys_broker(2) by (rule times_out_adds_work [OF assms(3)])
  qed
next
  case (sys_dealer i ms bt')
  from times_out_adds_work [OF assms(3) socket_adds_work(1) [OF system_invD(8) [OF assms(2)] sys_dealer(4)],
      of "sy_wire s"]
  show ?thesis unfolding sys_dealer(2) by simp
next
  case (sys_router i r ms bt')
  from times_out_adds_work [OF assms(3) socket_adds_work(2) [OF system_invD(8) [OF assms(2)] sys_router(5)],
      of "sy_wire s"]
  show ?thesis unfolding sys_router(2) by simp
next
  case (sys_timers env now ms bt')
  show ?thesis unfolding sys_timers(2)
    by (rule times_out_timers [OF assms(3) system_invD(1) [OF assms(2)] sys_timers(3)])
next
  case (sys_rebuild env bt')
  from times_out_adds_work [OF assms(3) rebuild_adds_work [OF system_invD(1) [OF assms(2)] sys_rebuild(3)],
      of "sy_wire s"]
  show ?thesis unfolding sys_rebuild(2) by simp
next
  case (sys_worker i c wc b p' w' cs)
  show ?thesis unfolding sys_worker(2) by (rule times_out_worker [OF assms(2,3) sys_worker(3-5)])
qed

interpretation timed: keeps_invariant "system_step ps" "\<lambda>s. system_inv s \<and> times_out s" for ps
  by unfold_locales (auto intro: system_inv_step times_out_keeps)

lemma system_run_times_out: "system_run ps s es s' \<Longrightarrow> system_inv s \<Longrightarrow> times_out s \<Longrightarrow> times_out s'"
  using timed.run_inv by blast

text \<open>
  C7: A timeout is never lost. In every run, an rpc with a timeout that has left the thread that sent it
  has a timer in the broker for the worker that has the rpc, or the timeout is already in the queue of
  this worker, and the worker will execute it after the start of the rpc. So no interleaving of the
  broker and the workers makes a timeout come too early, when its event is not yet known and the
  timeout would be ignored, or go to another worker.
\<close>

theorem timeouts_never_lost:
  assumes "system_start s" and "system_run ps s es s'"
    and "rc_heap (sy_process s') a = Some rc" and "get_timeout_ms rc \<noteq> - 1" and "has_rpc s' i a"
  shows "armed (sy_broker s') i (get_event_id rc)
    \<or> Handle_Timeout_Cmd (get_event_id rc) \<in> set (behind a (queued s' i))"
proof -
  have "times_out s" using assms(1) by (simp add: system_start_def times_out_def)
  from times_outD [OF system_run_times_out [OF assms(2) system_start_inv [OF assms(1)] this] assms(3-5)]
  show ?thesis by (simp add: will_time_out_def)
qed

section \<open>Every rpc can be brought to an end\<close>

lemma rpc_step_quiet:
  assumes "rpcs_ok (p, w)" "fresh_starts (c # cs) (p, w)" "is_rpc_cmd we c"
    "worker_step we t c (p, w) = Inr (b, (p', w'))"
  shows "fe_socket u p' = fe_socket u p"
  using assms(3)
proof (cases rule: is_rpc_cmd_cases)
  case (1 a)
  then show ?thesis using started_step [OF assms(1) assms(2) [unfolded 1], of we t] assms(4) by auto
next
  case (2 ev oc)
  have "finish oc ev (p, w) = Inr (p', w')"
    using assms(4) unfolding worker_step_completes [OF 2] by (auto simp: result_simps)
  then show ?thesis
    by (auto simp: finish_eq [OF assms(1)] fe_socket_def delete_controller_def call_user_def split: option.splits)
qed

text \<open>What the steps below keep: an rpc that worker \<open>i\<close> has stays with it while it is alive.\<close>

definition stays :: "unsigned_int \<Rightarrow> ptr \<Rightarrow> rpc_system \<Rightarrow> bool" where
  "stays i a s \<longleftrightarrow> rc_heap (sy_process s) a = None \<or> has_rpc s i a"

definition only_ends :: "rpc_system \<Rightarrow> rpc_event list \<Rightarrow> rpc_system \<Rightarrow> bool" where
  "only_ends s es s' \<longleftrightarrow> (\<forall>ev k. Started ev k \<notin> set es)
     \<and> (\<forall>b rc. rc_heap (sy_process s') b = Some rc \<longrightarrow> rc_heap (sy_process s) b = Some rc)"

lemma only_ends_trans: "only_ends s es s' \<Longrightarrow> only_ends s' es' s'' \<Longrightarrow> only_ends s (es @ es') s''"
  by (auto simp: only_ends_def)

text \<open>A worker with a command of an rpc in front executes it.\<close>

lemma worker_executes:
  assumes inv: "system_inv s" and i: "i < bt_workers (sy_broker s)"
    and q: "queued s i = c # q" and c: "is_rpc_cmd (ps_worker_env ps) c" and a: "stays i a s"
  shows "\<exists>e s'. system_step ps e s s' \<and> queued s' i = q \<and> bt_workers (sy_broker s') = bt_workers (sy_broker s)
    \<and> r_closure_run_map (sy_broker s') = r_closure_run_map (sy_broker s) \<and> only_ends s [e] s' \<and> stays i a s'"
proof -
  let ?we = "ps_worker_env ps" and ?t = "ps_thread ps i"
  note cm = system_workers [OF inv]
  have i': "i < wc_workers (bt_commander (sy_broker s))" using i cm(2) by simp
  obtain wc where pop: "pop i (bt_commander (sy_broker s)) = Some (c, wc)" using q by (simp add: pop_def)
  note qs = pop_queue [OF cm(1) i' pop]
  note ok = system_invD(7) [OF inv i]
  have fresh: "fresh_starts (c # queue_of wc i) (sy_process s, sy_workers s i)"
    using fresh_queue [OF inv i] by (simp add: qs(1))
  obtain p' w' where step: "worker_step ?we ?t c (sy_process s, sy_workers s i) = Inr (True, (p', w'))"
    using rpc_step_succeeds [OF ok fresh c, of ?t] by blast
  have quiet: "new_frames (fe_socket ?t (sy_process s)) (fe_socket ?t p') = concat (map command_out [])"
    using rpc_step_quiet [OF ok fresh c step] by (simp add: new_frames_def)
  have "list_all is_reply_cmd []" by simp
  note st = sys_worker [OF i pop step this quiet]
  let ?s' = "worker_moved p' wc i w' s\<lparr>sy_wire := (sy_wire s)(?t := sy_wire s ?t @ [])\<rparr>"
  note shrinks = worker_step_shrinks [OF ok fresh step]
  have ends: "only_ends s [worker_event ?we c (sy_workers s i)] ?s'"
    using shrinks(1) by (auto simp: only_ends_def worker_event_def split: option.splits if_splits)
  have "stays i a ?s'"
  proof (cases "rc_heap p' a")
    case (Some rc)
    then have has: "has_rpc s i a" using a shrinks(1) [OF Some] by (simp add: stays_def)
    have inv': "system_inv ?s'" by (rule system_inv_step [OF st inv])
    from owned_somewhere [OF system_invD(3) [OF inv']] Some
    obtain x where x: "a \<in> held ?s' x" by auto
    have here: "x = In_Queue i \<or> x = At_Worker i" if "a \<in> held s x" for x
      using owned_unique [OF system_invD(3) [OF inv] that] has unfolding has_rpc_def by blast
    have "x = In_Queue i \<or> x = At_Worker i"
    proof (cases x)
      case (On_Wire u)
      with x have "a \<in> held s x" by (simp split: if_splits)
      then show ?thesis by (rule here)
    next
      case (In_Queue j)
      with x have "a \<in> held s x"
        using qs(2) [of j] by (cases "j = i") (auto simp: qs(1) split: if_splits)
      then show ?thesis by (rule here)
    next
      case (At_Worker j)
      then show ?thesis using x here [of x] by (cases "j = i") (simp_all split: if_splits)
    qed
    with x i show ?thesis by (auto simp: stays_def has_rpc_def)
  qed (simp add: stays_def)
  then show ?thesis using st ends qs(1) q by (intro exI conjI) (assumption | simp)+
qed

lemma worker_drains:
  assumes "system_inv s" and "i < bt_workers (sy_broker s)"
    and "\<forall>c \<in> set (queued s i). is_rpc_cmd (ps_worker_env ps) c" and "stays i a s"
  shows "\<exists>es s'. system_run ps s es s' \<and> queued s' i = [] \<and> bt_workers (sy_broker s') = bt_workers (sy_broker s)
    \<and> r_closure_run_map (sy_broker s') = r_closure_run_map (sy_broker s) \<and> only_ends s es s' \<and> stays i a s'"
  using assms
proof (induction "queued s i" arbitrary: s)
  case Nil
  then show ?case
    by (intro exI [of _ "[]"] exI [of _ s]) (simp add: run_none only_ends_def)
next
  case (Cons c q)
  note q = Cons.hyps(2) [symmetric]
  have "is_rpc_cmd (ps_worker_env ps) c" using Cons.prems(3) by (simp add: q)
  from worker_executes [OF Cons.prems(1,2) q this Cons.prems(4)] obtain e s1 where
    1: "system_step ps e s s1" "queued s1 i = q" "bt_workers (sy_broker s1) = bt_workers (sy_broker s)"
      "r_closure_run_map (sy_broker s1) = r_closure_run_map (sy_broker s)" "only_ends s [e] s1" "stays i a s1"
    by blast
  have "system_inv s1" by (rule system_inv_step [OF 1(1) Cons.prems(1)])
  then obtain es s' where
    2: "system_run ps s1 es s'" "queued s' i = []" "bt_workers (sy_broker s') = bt_workers (sy_broker s1)"
      "r_closure_run_map (sy_broker s') = r_closure_run_map (sy_broker s1)" "only_ends s1 es s'" "stays i a s'"
    using Cons.hyps(1) [of s1] Cons.prems(2,3) 1(2,3,6) q by auto
  from runs_Cons [OF 1(1) 2(1)] only_ends_trans [OF 1(5) 2(5)] 1 2
  show ?case by (intro exI [of _ "e # es"] exI [of _ s']) simp
qed

lemma rpc_ends:
  assumes inv: "system_inv s" and to: "times_out s"
    and a: "rc_heap (sy_process s) a = Some rc" "get_timeout_ms rc \<noteq> - 1" "has_rpc s i a"
    and q: "\<forall>c \<in> set (queued s i). is_rpc_cmd (ps_worker_env ps) c"
  shows "\<exists>es s'. system_run ps s es s' \<and> only_ends s es s' \<and> rc_heap (sy_process s') a = None"
proof -
  let ?now = "- 1 :: uint64"
  obtain ms bt' where t: "process_closure_run_map (broker_closure_run (undefined :: broker_env)) ?now (sy_broker s) = Inr (ms, bt')"
    using timers_pass(1) [OF system_invD(1) [OF inv]] by blast
  note bt = timers_add [OF system_invD(1) [OF inv] t]
  let ?s = "s\<lparr>sy_broker := bt'\<rparr>"
  have inv': "system_inv ?s" by (rule system_inv_step [OF sys_timers [OF t, of ps] inv])
  have to': "times_out ?s" by (rule times_out_keeps [OF sys_timers [OF t, of ps] inv to])
  have i: "i < bt_workers (sy_broker ?s)" using a(3) by (simp add: has_rpc_def bt(2))
  have "has_rpc ?s i a" using a(3) by (auto simp: has_rpc_iff bt(2,5))
  then have stays: "stays i a ?s" by (simp add: stays_def)
  have "is_rpc_cmd we c" if "c \<in> snd ` set (due_timeouts ?now (sy_broker s))" for we c
    using that by (auto simp: due_timeouts_def is_rpc_cmd_def completes_def)
  then have "\<forall>c \<in> set (queued ?s i). is_rpc_cmd (ps_worker_env ps) c" using q by (auto simp: bt(5))
  from worker_drains [OF inv' i this stays] obtain es s' where
    d: "system_run ps ?s es s'" "queued s' i = []" "bt_workers (sy_broker s') = bt_workers (sy_broker ?s)"
      "r_closure_run_map (sy_broker s') = r_closure_run_map (sy_broker ?s)" "only_ends ?s es s'" "stays i a s'"
    by blast
  have "only_ends s [Other] ?s" by (simp add: only_ends_def)
  note ends = only_ends_trans [OF this d(5)]
  have "rc_heap (sy_process s') a = None"
  proof (cases "rc_heap (sy_process s') a")
    case (Some rc')
    then have "rc' = rc" using ends a(1) by (force simp: only_ends_def)
    moreover have "has_rpc s' i a" using d(6) Some by (simp add: stays_def)
    ultimately have "will_time_out s' i a (get_event_id rc)"
      using times_outD [OF system_run_times_out [OF d(1) inv' to'] Some] a(2) by simp
    moreover have "r_closure_run_map (sy_broker s') = []" by (simp add: d(4) bt(4))
    ultimately show ?thesis using d(2) by (simp add: will_time_out_def armed_def behind_def)
  qed
  with runs_Cons [OF sys_timers [OF t] d(1)] ends show ?thesis
    by (intro exI [of _ "Other # es"] exI [of _ s']) simp
qed


lemma run_has_rpc:
  "\<exists>s. system_run run_setting run_start [Started 1 (Handler 5), Other] s
    \<and> rc_heap (sy_process s) 10 = Some run_controller \<and> get_timeout_ms run_controller \<noteq> - 1
    \<and> get_event_id run_controller = 1 \<and> rc_handler run_controller = Handler 5
    \<and> has_rpc s 1 10 \<and> queued s 1 = [Start_Rpc_Cmd 10]"
proof -
  obtain s where s: "system_run run_setting run_start [Started 1 (Handler 5), Other] s"
    "rc_heap (sy_process s) = [10 \<mapsto> run_controller]" "bt_workers (sy_broker s) = 2"
    "queued s 1 = [Start_Rpc_Cmd 10]"
    using run_taken by blast
  then show ?thesis
    by (intro exI [of _ s]) (simp add: has_rpc_iff run_controller_def new_rpc_controller_def
        get_timeout_ms_def get_event_id_def)
qed

theorem timeouts_never_lost_witness:
  "\<exists>s. system_run run_setting run_start [Started 1 (Handler 5), Other] s \<and> armed (sy_broker s) 1 1"
proof -
  obtain s where s: "system_run run_setting run_start [Started 1 (Handler 5), Other] s"
    "rc_heap (sy_process s) 10 = Some run_controller" "get_timeout_ms run_controller \<noteq> - 1"
    "has_rpc s 1 10" "get_event_id run_controller = 1" "queued s 1 = [Start_Rpc_Cmd 10]"
    using run_has_rpc by blast
  from timeouts_never_lost [OF run_start s(1-4)] s show ?thesis
    by (intro exI [of _ s]) (simp add: behind_def)
qed


end
