(* ===== verification/System_Sync.thy ===== *)
theory System_Sync
  imports System_Time
begin

text \<open>
  The blocking call in a running process: \<open>sync_requester::request\<close> puts a handler on its stack, sends the
  request with a reference to it, and waits until the handler has been called, by a worker thread.
\<close>

section \<open>What handlers are called with\<close>

text \<open>An error, or the data of a response, never both and never none.\<close>

definition proper :: "outcome \<Rightarrow> bool" where
  "proper oc \<longleftrightarrow> (fst oc = None) = (snd oc \<noteq> None)"

lemma completes_proper: "completes we c = Some (ev, oc) \<Longrightarrow> proper oc"
  by (auto simp: completes_def proper_def timeout_outcome_def response_outcome_def
      split: worker_cmd.splits option.splits if_splits)

lemma outcome_proper:
  assumes "system_step ps e s s'" and "e = Outcome ev oc"
  shows "proper oc"
  using assms
  by cases (auto simp: worker_event_def dest!: completes_proper split: option.splits if_splits)

text \<open>The arguments a handler has been called with, in order.\<close>

definition calls_to :: "nat \<Rightarrow> process \<Rightarrow> outcome list" where
  "calls_to h p = map (\<lambda>hc. (hc_error hc, hc_data hc)) [hc \<leftarrow> handler_calls p. hc_target hc = h]"

lemma length_calls_to: "length (calls_to h p) = told h p"
  by (simp add: calls_to_def told_def)

lemma calls_to_cong: "handler_calls p' = handler_calls p \<Longrightarrow> calls_to h p' = calls_to h p"
  by (simp add: calls_to_def)

lemma calls_to_over:
  "handler_calls p' = handler_calls p @ calls_of oc rc \<Longrightarrow> proper oc
     \<Longrightarrow> \<forall>oc \<in> set (calls_to h p). proper oc \<Longrightarrow> \<forall>oc \<in> set (calls_to h p'). proper oc"
  by (auto simp: calls_to_def calls_of_def proper_def split: response_message_handler.splits)

lemma proper_step:
  assumes "system_step ps e s s'" "system_inv s" "\<forall>oc \<in> set (calls_to h (sy_process s)). proper oc"
  shows "\<forall>oc \<in> set (calls_to h (sy_process s')). proper oc"
  using assms(1,2)
proof (cases rule: system_step_rpcs)
  case (begins k to)
  show ?thesis using assms(3) by (simp only: calls_to_cong [OF begins(4)])
next
  case (over ev oc a rc)
  show ?thesis by (rule calls_to_over [OF over(5) outcome_proper [OF assms(1) over(1)] assms(3)])
next
  case nothing
  then show ?thesis using assms(3) calls_to_cong [of "sy_process s'" "sy_process s"] by simp
qed

interpretation told: keeps_invariant "system_step ps"
  "\<lambda>s. system_inv s \<and> (\<forall>oc \<in> set (calls_to h (sy_process s)). proper oc)" for ps h
  by unfold_locales (use system_inv_step proper_step in blast)

lemma system_run_proper:
  "system_run ps s es s' \<Longrightarrow> system_inv s \<Longrightarrow> \<forall>oc \<in> set (calls_to h (sy_process s)). proper oc
     \<Longrightarrow> \<forall>oc \<in> set (calls_to h (sy_process s')). proper oc"
  using told.run_inv by blast

section \<open>The blocking call\<close>

text \<open>What the call returns or throws, when its handler has been told an outcome.\<close>

definition call_result :: "(bytes \<Rightarrow> 'm \<Rightarrow> bool \<times> 'm) \<Rightarrow> 'm option \<Rightarrow> outcome \<Rightarrow> 'm option result" where
  "call_result parse response oc = (case oc of
     (Some err, _) \<Rightarrow> Inl (Rpc_Error (err_code err) (err_str err))
   | (None, None) \<Rightarrow> Inl Boost_Assert
   | (None, Some d) \<Rightarrow> (case response of None \<Rightarrow> Inr None
       | Some m \<Rightarrow> if fst (parse d m) then Inr (Some (snd (parse d m)))
           else Inl (Rpc_Error INVALID_MESSAGE [])))"

lemma sync_request_blocks: "sync_requester_request lx parse response [] = None"
  by (simp add: sync_requester_request_def new_sync_call_handler_def new_sync_event_def sync_event_wait_def)

lemma sync_request_returns:
  assumes "proper oc"
  shows "sync_requester_request lx parse response [oc] = Some (call_result parse response oc)"
  using assms
  by (cases oc) (auto simp: proper_def sync_requester_request_def sync_call_handler_call_def call_result_def
      new_sync_call_handler_def sync_event_wait_def sync_signal_def sync_event_signal_def
      sync_handle_error_def sync_handle_invalid_message_def new_rpc_error_def Let_def
      split: option.splits prod.splits)

text \<open>
  C10: The blocking call is right. In every run in which one request has been sent with its handler, the
  call blocks exactly as long as the controller of the request is alive. When it returns, the handler has
  been called once, so never after the stack it is on has gone; and the call throws the error it has been
  called with, or \<open>INVALID_MESSAGE\<close> when the response does not parse, or returns the parsed response. No
  assertion of the handler fails.
\<close>

theorem blocking_call_returns:
  assumes "system_start s" and "system_run ps s es s'" and "requested h es = 1"
  shows "(sync_requester_request lx parse response (calls_to h (sy_process s')) = None
      \<longleftrightarrow> unanswered h s' \<noteq> {})
    \<and> (unanswered h s' = {} \<longrightarrow> (\<exists>oc. proper oc \<and> calls_to h (sy_process s') = [oc]
        \<and> sync_requester_request lx parse response (calls_to h (sy_process s'))
            = Some (call_result parse response oc)))"
proof -
  note inv = system_reach_inv [OF assms(1,2)]
  have "told h (sy_process s) = 0" "unanswered h s = {}" "calls_to h (sy_process s) = []"
    using assms(1) by (simp_all add: system_start_def told_def unanswered_def handler_calls_def
        List.map_filter_def calls_to_def)
  then have sum: "told h (sy_process s') + card (unanswered h s') = 1"
    and proper: "\<forall>oc \<in> set (calls_to h (sy_process s')). proper oc"
    using system_run_counts [OF assms(2) system_start_inv [OF assms(1)], of h] assms(3)
      system_run_proper [OF assms(2) system_start_inv [OF assms(1)], of h] by simp_all
  show ?thesis
  proof (cases "unanswered h s' = {}")
    case True
    then have "length (calls_to h (sy_process s')) = 1" using sum by (simp add: length_calls_to)
    then obtain oc where oc: "calls_to h (sy_process s') = [oc]" by (auto simp: length_Suc_conv)
    have p: "proper oc" using proper oc by simp
    note r = sync_request_returns [OF p, of lx parse response]
    have "\<exists>oc. proper oc \<and> calls_to h (sy_process s') = [oc] \<and> sync_requester_request lx parse response
        (calls_to h (sy_process s')) = Some (call_result parse response oc)"
      by (rule exI [of _ oc]) (simp add: p oc r)
    then show ?thesis using True by auto
  next
    case False
    then have "card (unanswered h s') \<noteq> 0" using finite_unanswered [OF inv] by simp
    then have "length (calls_to h (sy_process s')) = 0" using sum unfolding length_calls_to by linarith
    then show ?thesis using False by (simp add: sync_request_blocks)
  qed
qed

theorem blocking_call_returns_witness:
  "\<exists>s es s' oc. system_run run_setting run_start [Started 1 (Handler 5), Other] s
    \<and> system_run run_setting s es s'
    \<and> sync_requester_request (\<lambda>n. ''n'') (\<lambda>d m. (True, d)) (Some []) (calls_to 5 (sy_process s)) = None
    \<and> sync_requester_request (\<lambda>n. ''n'') (\<lambda>d m. (True, d)) (Some []) (calls_to 5 (sy_process s')) =
        Some (call_result (\<lambda>d m. (True, d)) (Some []) oc)"
proof -
  obtain s where s: "system_run run_setting run_start [Started 1 (Handler 5), Other] s"
    "rc_heap (sy_process s) = [10 \<mapsto> run_controller]" "bt_workers (sy_broker s) = 2"
    "queued s 1 = [Start_Rpc_Cmd 10]"
    using run_taken by blast
  have c: "get_timeout_ms run_controller \<noteq> - 1" "rc_handler run_controller = Handler 5" "has_rpc s 1 10"
    using s(3,4) by (simp_all add: run_controller_def has_rpc_iff)
  have heap: "rc_heap (sy_process s) 10 = Some run_controller" by (simp add: s(2))
  have q: "\<forall>c \<in> set (queued s 1). is_rpc_cmd (ps_worker_env run_setting) c"
    using s(4) demo_rpc_cmds(1) by simp
  have "times_out run_start" using run_start by (simp add: system_start_def times_out_def)
  note to = system_run_times_out [OF s(1) system_start_inv [OF run_start] this]
  from rpc_ends [OF system_reach_inv [OF run_start s(1)] to heap c(1,3) q] obtain es s' where
    r: "system_run run_setting s es s'" "only_ends s es s'" "rc_heap (sy_process s') 10 = None" by blast
  have "unanswered 5 s \<noteq> {}" using heap c(2) by (auto simp: unanswered_def)
  moreover have "requested 5 [Started 1 (Handler 5), Other] = 1" by (simp add: requested_def)
  ultimately have before: "sync_requester_request (\<lambda>n. ''n'') (\<lambda>d m. (True, d)) (Some [])
      (calls_to 5 (sy_process s)) = None"
    using blocking_call_returns [OF run_start s(1)] by blast
  have "rc_heap (sy_process s') b = None" for b
  proof (cases "rc_heap (sy_process s') b")
    case (Some rc)
    then have "rc_heap (sy_process s) b = Some rc" using r(2) by (simp add: only_ends_def)
    then show ?thesis using r(3) Some by (simp add: s(2) split: if_splits)
  qed
  then have "unanswered 5 s' = {}" by (simp add: unanswered_def)
  moreover have "requested 5 ([Started 1 (Handler 5), Other] @ es) = 1"
    using r(2) by (auto simp: requested_def only_ends_def filter_empty_conv split: rpc_event.split)
  ultimately obtain oc where "sync_requester_request (\<lambda>n. ''n'') (\<lambda>d m. (True, d)) (Some [])
      (calls_to 5 (sy_process s')) = Some (call_result (\<lambda>d m. (True, d)) (Some []) oc)"
    using blocking_call_returns [OF run_start runs_trans [OF r(1) s(1)]] by blast
  with s(1) r(1) before show ?thesis by blast
qed

end
