(* ===== verification/Zsendrpc.thy ===== *)
theory Zsendrpc
  imports System_Sync
begin

text \<open>
  The command line tool, \<open>zsendrpc.cc\<close>: what it prints, what it returns, and when it sends a request.
  Protobuf's importer, descriptors, dynamic messages and text format, and the parsing of
  \<open>boost::program_options\<close>, are parameters; the connection and the blocking call are those of the library.
\<close>

section \<open>State\<close>

text \<open>A line on one of the two streams; how the program ends.\<close>

datatype out_line = Cout string | Cerr string

datatype tool_end = Exits int | Fails error | Throws string | Blocks

text \<open>
  \<open>te_import\<close>: the errors that are reported for a file, and its descriptor if it can be loaded.
  \<open>te_new\<close>: a message of the input or the output type of a method. \<open>te_parse_text\<close>, \<open>te_parse\<close>: whether
  parsing succeeds, and the message afterwards.
\<close>

record ('f, 's, 'm, 'msg) tool_env =
  te_import :: "string list \<Rightarrow> string \<Rightarrow> (string \<times> int \<times> string) list \<times> 'f option"
  te_find_service :: "'f \<Rightarrow> string \<Rightarrow> 's option"
  te_find_method :: "'s \<Rightarrow> string \<Rightarrow> 'm option"
  te_names :: "'m \<Rightarrow> string \<times> string"
  te_new_input :: "'m \<Rightarrow> 'msg option"
  te_new_output :: "'m \<Rightarrow> 'msg option"
  te_parse_text :: "string \<Rightarrow> 'msg \<Rightarrow> bool \<times> 'msg"
  te_print_text :: "'msg \<Rightarrow> string"
  te_serialize :: "'msg \<Rightarrow> bytes option"
  te_parse :: "bytes \<Rightarrow> 'msg \<Rightarrow> bool \<times> 'msg"
  te_lexical_cast :: "int \<Rightarrow> string"

record tool_flags =
  flags_proto :: string
  flags_proto_path :: "string list"

section \<open>\<open>run_call\<close>\<close>

definition add_error :: "(int \<Rightarrow> string) \<Rightarrow> string \<times> int \<times> string \<Rightarrow> out_line" where
  "add_error lexical_cast e = (case e of (filename, line, message) \<Rightarrow>
     Cerr (filename @ '':'' @ lexical_cast line @ '':'' @ message))"

definition quoted :: "string \<Rightarrow> string" where
  "quoted s = [CHR 0x27] @ s @ [CHR 0x27]"

text \<open>\<open>find_last_of('.')\<close>, \<open>None\<close> for \<open>npos\<close>.\<close>

fun last_dot :: "string \<Rightarrow> nat option" where
  "last_dot [] = None"
| "last_dot (c # cs) = (case last_dot cs of Some i \<Rightarrow> Some (Suc i)
     | None \<Rightarrow> if c = CHR ''.'' then Some 0 else None)"

text \<open>
  The blocking call with no timeout, and what is printed. \<open>t\<close> is the main thread, \<open>h\<close> its handler, \<open>answer\<close>
  what the broker answers to the connecting, and \<open>calls\<close> the calls of the handler while it waits.
\<close>

definition send_and_print ::
  "('f, 's, 'm, 'msg) tool_env \<Rightarrow> header_codec \<Rightarrow> thread \<Rightarrow> nat \<Rightarrow> message list \<Rightarrow> outcome list \<Rightarrow>
     string \<Rightarrow> 'm \<Rightarrow> 'msg \<Rightarrow> out_line list \<Rightarrow> process \<Rightarrow> out_line list \<times> tool_end \<times> process" where
  "send_and_print te pb t h answer calls endpoint method_desc request out p =
     (case connection_to_endpoint t endpoint answer p of
        Inl e \<Rightarrow> (out, Fails e, p)
      | Inr (conn, p) \<Rightarrow>
          (case connection_request pb (te_serialize te) t conn (fst (te_names te method_desc))
              (snd (te_names te method_desc)) request (Handler h) (- 1) p of
             Inl (Rpc_Error code str) \<Rightarrow> (out @ [Cerr (to_string (te_lexical_cast te) code str)], Exits 0, p)
           | Inl e \<Rightarrow> (out, Fails e, p)
           | Inr p \<Rightarrow>
               (case sync_requester_request (te_lexical_cast te) (te_parse te)
                   (te_new_output te method_desc) calls of
                  None \<Rightarrow> (out, Blocks, p)
                | Some (Inl (Rpc_Error code str)) \<Rightarrow>
                    (out @ [Cerr (to_string (te_lexical_cast te) code str)], Exits 0, p)
                | Some (Inl e) \<Rightarrow> (out, Fails e, p)
                | Some (Inr None) \<Rightarrow> (out, Fails Use_After_Free, p)
                | Some (Inr (Some reply)) \<Rightarrow> (out @ [Cout (te_print_text te reply)], Exits 0, p))))"

definition run_call ::
  "('f, 's, 'm, 'msg) tool_env \<Rightarrow> header_codec \<Rightarrow> thread \<Rightarrow> nat \<Rightarrow> message list \<Rightarrow> outcome list \<Rightarrow>
     tool_flags \<Rightarrow> string \<Rightarrow> string \<Rightarrow> string \<Rightarrow> process \<Rightarrow> out_line list \<times> tool_end \<times> process" where
  "run_call te pb t h answer calls flags endpoint meth payload p =
     (let (errors, file_desc) = te_import te (flags_proto_path flags) (flags_proto flags);
          out = map (add_error (te_lexical_cast te)) errors;
          stop = (\<lambda>line. (out @ [Cerr line], Exits (- 1), p))
      in case file_desc of
           None \<Rightarrow> stop (''Could not load proto '' @ quoted (flags_proto flags))
         | Some file_desc \<Rightarrow>
             (case last_dot meth of
                None \<Rightarrow> stop (''<service.method> must contain a dot: '' @ quoted meth)
              | Some i \<Rightarrow>
                  (let service_name = take i meth; method_name = drop (Suc i) meth
                   in case te_find_service te file_desc service_name of
                        None \<Rightarrow> stop (''Could not find service '' @ quoted service_name
                          @ '' in proto definition.'')
                      | Some service_desc \<Rightarrow>
                          (case te_find_method te service_desc method_name of
                             None \<Rightarrow> stop (''Could not find method '' @ quoted method_name
                               @ '' in proto definition (but service was found).'')
                           | Some method_desc \<Rightarrow>
                               (case te_new_input te method_desc of
                                  None \<Rightarrow> stop ''Could not allocate request.''
                                | Some request \<Rightarrow>
                                    (let (ok, request) = te_parse_text te payload request
                                     in if \<not> ok then stop ''Could not parse the given ASCII message.''
                                        else send_and_print te pb t h answer calls endpoint method_desc
                                          request out p))))))"

section \<open>\<open>run\<close> and \<open>main\<close>\<close>

definition ARGV_ERROR :: int where
  "ARGV_ERROR = - 2"

definition run_tool ::
  "('f, 's, 'm, 'msg) tool_env \<Rightarrow> header_codec \<Rightarrow> thread \<Rightarrow> nat \<Rightarrow> message list \<Rightarrow> outcome list \<Rightarrow>
     tool_flags \<Rightarrow> string list \<Rightarrow> process \<Rightarrow> out_line list \<times> tool_end \<times> process" where
  "run_tool te pb t h answer calls flags args p =
     (if args = [] then ([Cerr ''Expecting a command.''], Exits ARGV_ERROR, p)
      else if args ! 0 \<noteq> ''call'' then ([Cerr ''Only the call command is supported''], Exits ARGV_ERROR, p)
      else if length args \<noteq> 4
      then ([Cerr ''call needs 3 arguments:call <endpoint> <service.method> <payload>'', Cerr []],
            Exits ARGV_ERROR, p)
      else run_call te pb t h answer calls flags (args ! 1) (args ! 2) (args ! 3) p)"

definition show_usage :: "string \<Rightarrow> out_line list" where
  "show_usage pname = [Cout (pname @ '' Usage Instructions''), Cout [],
     Cout (pname @ '' --proto=file.proto <command> [args]''), Cout [],
     Cout ''Where <command> is one of the following: '', Cout ''  call'', Cout []]"

text \<open>
  What \<open>program_options\<close> makes of the arguments: \<open>run()\<close> parses them or throws; \<open>store\<close> and \<open>notify\<close> may
  throw an error, \<open>notify\<close> for instance because \<open>--proto\<close> is missing.
\<close>

record 'o options_env =
  oe_run :: "string list \<Rightarrow> string + 'o"
  oe_store :: "'o \<Rightarrow> string option"
  oe_help :: "'o \<Rightarrow> bool"
  oe_notify :: "'o \<Rightarrow> string option"
  oe_flags :: "'o \<Rightarrow> tool_flags"
  oe_positional :: "'o \<Rightarrow> string list"

definition PNAME :: string where
  "PNAME = ''zsendrpc''"

definition main_tool ::
  "'o options_env \<Rightarrow> ('f, 's, 'm, 'msg) tool_env \<Rightarrow> header_codec \<Rightarrow> thread \<Rightarrow> nat \<Rightarrow> message list \<Rightarrow>
     outcome list \<Rightarrow> string list \<Rightarrow> process \<Rightarrow> out_line list \<times> tool_end \<times> process" where
  "main_tool oe te pb t h answer calls argv p =
     (case oe_run oe argv of
        Inl what \<Rightarrow> ([], Throws what, p)
      | Inr parsed \<Rightarrow>
          (let usage_error = (\<lambda>what. (Cerr (''Command line error: '' @ what) # show_usage PNAME, Exits 1, p))
           in case oe_store oe parsed of
                Some what \<Rightarrow> usage_error what
              | None \<Rightarrow>
                  if oe_help oe parsed then (show_usage PNAME, Exits 1, p)
                  else (case oe_notify oe parsed of
                     Some what \<Rightarrow> usage_error what
                   | None \<Rightarrow>
                       (case run_tool te pb t h answer calls (oe_flags oe parsed) (oe_positional oe parsed) p of
                          (out, Exits retval, p) \<Rightarrow>
                            if retval = ARGV_ERROR then (out @ show_usage PNAME, Exits 1, p)
                            else (out, Exits retval, p)
                        | (out, e, p) \<Rightarrow> (out, e, p)))))"

section \<open>What the tool does\<close>

text \<open>The last dot separates the service from the method.\<close>

lemma last_dot_None: "last_dot s = None \<longleftrightarrow> CHR ''.'' \<notin> set s"
  by (induction s) (auto split: option.splits)

lemma last_dot_Some:
  "last_dot s = Some i \<Longrightarrow> i < length s \<and> s ! i = CHR ''.'' \<and> CHR ''.'' \<notin> set (drop (Suc i) s)"
proof (induction s arbitrary: i)
  case (Cons c s)
  show ?case
  proof (cases "last_dot s")
    case None
    then have "i = 0" "c = CHR ''.''" using Cons.prems by (simp_all split: if_splits)
    then show ?thesis using None by (simp add: last_dot_None)
  next
    case (Some k)
    then have "i = Suc k" using Cons.prems by simp
    then show ?thesis using Cons.IH [OF Some] by simp
  qed
qed simp

text \<open>The method and the request that the arguments name; \<open>None\<close> when anything is missing or wrong.\<close>

definition resolves ::
  "('f, 's, 'm, 'msg) tool_env \<Rightarrow> tool_flags \<Rightarrow> string \<Rightarrow> string \<Rightarrow> ('m \<times> 'msg) option" where
  "resolves te flags meth payload =
     (case snd (te_import te (flags_proto_path flags) (flags_proto flags)) of None \<Rightarrow> None
      | Some f \<Rightarrow> (case last_dot meth of None \<Rightarrow> None
      | Some i \<Rightarrow> (case te_find_service te f (take i meth) of None \<Rightarrow> None
      | Some s \<Rightarrow> (case te_find_method te s (drop (Suc i) meth) of None \<Rightarrow> None
      | Some m \<Rightarrow> (case te_new_input te m of None \<Rightarrow> None
      | Some request \<Rightarrow> if fst (te_parse_text te payload request)
          then Some (m, snd (te_parse_text te payload request)) else None)))))"

definition reported :: "('f, 's, 'm, 'msg) tool_env \<Rightarrow> tool_flags \<Rightarrow> out_line list" where
  "reported te flags = map (add_error (te_lexical_cast te))
     (fst (te_import te (flags_proto_path flags) (flags_proto flags)))"

lemma resolvesE:
  assumes "resolves te flags meth payload = Some (m, request)"
  obtains f i s r where
    "te_import te (flags_proto_path flags) (flags_proto flags) =
       (fst (te_import te (flags_proto_path flags) (flags_proto flags)), Some f)"
    "last_dot meth = Some i" "te_find_service te f (take i meth) = Some s"
    "te_find_method te s (drop (Suc i) meth) = Some m" "te_new_input te m = Some r"
    "te_parse_text te payload r = (True, request)"
proof -
  obtain e fo where imp: "te_import te (flags_proto_path flags) (flags_proto flags) = (e, fo)"
    by (cases "te_import te (flags_proto_path flags) (flags_proto flags)")
  obtain f i s r where *: "fo = Some f" "last_dot meth = Some i" "te_find_service te f (take i meth) = Some s"
    "te_find_method te s (drop (Suc i) meth) = Some m" "te_new_input te m = Some r"
    "fst (te_parse_text te payload r)" "request = snd (te_parse_text te payload r)"
    using assms unfolding resolves_def imp by (auto split: option.splits if_splits)
  show thesis by (rule that [of f i s r]) (use * imp in \<open>simp_all add: prod_eq_iff\<close>)
qed

lemma run_call_resolved:
  assumes "resolves te flags meth payload = Some (m, request)"
  shows "run_call te pb t h answer calls flags endpoint meth payload p =
    send_and_print te pb t h answer calls endpoint m request (reported te flags) p"
  using assms
proof (rule resolvesE)
  fix f i s r assume a: "te_import te (flags_proto_path flags) (flags_proto flags) =
       (fst (te_import te (flags_proto_path flags) (flags_proto flags)), Some f)"
    and *: "last_dot meth = Some i" "te_find_service te f (take i meth) = Some s"
      "te_find_method te s (drop (Suc i) meth) = Some m" "te_new_input te m = Some r"
      "te_parse_text te payload r = (True, request)"
  obtain e where e: "te_import te (flags_proto_path flags) (flags_proto flags) = (e, Some f)" using a by blast
  show ?thesis by (simp add: run_call_def reported_def e *)
qed

lemma run_call_unresolved:
  assumes "resolves te flags meth payload = None"
  shows "\<exists>line. run_call te pb t h answer calls flags endpoint meth payload p =
    (reported te flags @ [Cerr line], Exits (- 1), p)"
proof -
  obtain e fo where imp: "te_import te (flags_proto_path flags) (flags_proto flags) = (e, fo)"
    by (cases "te_import te (flags_proto_path flags) (flags_proto flags)")
  show ?thesis
  proof (cases fo)
    case (Some f)
    show ?thesis
    proof (cases "last_dot meth")
      case (Some i)
      note dot = this
      show ?thesis
      proof (cases "te_find_service te f (take i meth)")
        case (Some s)
        note svc = this
        show ?thesis
        proof (cases "te_find_method te s (drop (Suc i) meth)")
          case (Some m)
          note found = imp \<open>fo = Some f\<close> dot svc this
          show ?thesis
          proof (cases "te_new_input te m")
            case (Some r)
            then show ?thesis
              using assms by (cases "te_parse_text te payload r")
                (simp add: found run_call_def reported_def resolves_def split: if_splits)
          qed (simp add: found run_call_def reported_def)
        qed (simp add: imp \<open>fo = Some f\<close> dot svc run_call_def reported_def)
      qed (simp add: imp \<open>fo = Some f\<close> dot run_call_def reported_def)
    qed (simp add: imp \<open>fo = Some f\<close> run_call_def reported_def)
  qed (simp add: imp run_call_def reported_def)
qed

lemma proper_result:
  assumes "proper oc"
  shows "(\<exists>r. call_result parse (Some m) oc = Inr (Some r))
    \<or> (\<exists>code str. call_result parse (Some m) oc = Inl (Rpc_Error code str))"
  using assms by (cases oc) (auto simp: call_result_def proper_def split: option.split)

text \<open>The line that is printed for the outcome of the call.\<close>

definition line_of ::
  "('f, 's, 'm, 'msg) tool_env \<Rightarrow> 'msg option result \<Rightarrow> out_line" where
  "line_of te r = (case r of
     Inr (Some reply) \<Rightarrow> Cout (te_print_text te reply)
   | Inl (Rpc_Error code str) \<Rightarrow> Cerr (to_string (te_lexical_cast te) code str)
   | _ \<Rightarrow> Cerr [])"

text \<open>
  C30: The tool sends nothing before everything is checked, and then exactly one request. When the file
  cannot be loaded, the name has no dot, the service or the method is not found, or the text does not
  parse, it prints one line, returns -1, and has not even connected. Otherwise it connects to the
  endpoint, sends one request without a timeout, and prints the reply, or the error; and returns 0 in
  both cases.
\<close>

theorem tool_sends_checked_request:
  assumes "mgr_alive p" and "next_addr p \<noteq> NULL" and "sock_in (fe_socket t p) = []" and "proper oc"
    and "\<And>m request. resolves te flags meth payload = Some (m, request) \<Longrightarrow>
      te_serialize te request = Some pl \<and> te_new_output te m = Some reply \<and> te_names te m = (service, name)
      \<and> serialize_hdr pb (request_header (next_event_id p) service name) = Some hdr"
  shows "case resolves te flags meth payload of
      None \<Rightarrow> \<exists>line. run_call te pb t h (index_answer n) [oc] flags endpoint meth payload p =
        (reported te flags @ [Cerr line], Exits (- 1), p)
    | Some (m, request) \<Rightarrow> run_call te pb t h (index_answer n) [oc] flags endpoint meth payload p =
        (reported te flags @ [line_of te (call_result (te_parse te) (Some reply) oc)], Exits 0,
         fe_sends t (request_frames (connection_info_dealer n) (next_addr p) hdr pl)
           (with_controller (Handler h) (- 1) (fe_sends t (connect_frames endpoint) p)))"
proof (cases "resolves te flags meth payload")
  case None
  then show ?thesis using run_call_unresolved [OF None] by simp
next
  case (Some mr)
  obtain m request where mr: "mr = (m, request)" by (cases mr)
  note r = Some [unfolded mr]
  note a = assms(5) [OF r]
  let ?p = "fe_sends t (connect_frames endpoint) p"
  have conn: "connection_to_endpoint t endpoint (index_answer n) p = Inr (connection_info_dealer n, ?p)"
    using connect_answered [OF assms(1,3)] assms(1)
    by (simp add: connection_to_endpoint_def manager_get_def init_dealer_def init_def connection_info_dealer_def
        connection_info_default_def)
  have req: "connection_request pb (te_serialize te) t (connection_info_dealer n) service name request
      (Handler h) (- 1) ?p = Inr (fe_sends t (request_frames (connection_info_dealer n) (next_addr p) hdr pl)
        (with_controller (Handler h) (- 1) ?p))"
    using connection_request_eq [of ?p "te_serialize te" request pl pb service name hdr t
        "connection_info_dealer n" "Handler h" "- 1"] a assms(2) by simp
  have "send_and_print te pb t h (index_answer n) [oc] endpoint m request (reported te flags) p =
      (reported te flags @ [line_of te (call_result (te_parse te) (Some reply) oc)], Exits 0,
       fe_sends t (request_frames (connection_info_dealer n) (next_addr p) hdr pl) (with_controller (Handler h) (- 1) ?p))"
    using proper_result [OF assms(4), of "te_parse te" reply]
  proof
    assume "\<exists>r. call_result (te_parse te) (Some reply) oc = Inr (Some r)"
    then show ?thesis
      using a sync_request_returns [OF assms(4), of "te_lexical_cast te" "te_parse te" "Some reply"]
      by (auto simp: send_and_print_def conn req line_of_def)
  next
    assume "\<exists>code str. call_result (te_parse te) (Some reply) oc = Inl (Rpc_Error code str)"
    then show ?thesis
      using a sync_request_returns [OF assms(4), of "te_lexical_cast te" "te_parse te" "Some reply"]
      by (auto simp: send_and_print_def conn req line_of_def)
  qed
  then show ?thesis by (simp add: Some mr run_call_resolved [OF r])
qed

definition demo_tool :: "(nat, nat, nat, string) tool_env" where
  "demo_tool = \<lparr>te_import = (\<lambda>path proto. ([], if proto = ''f'' then Some 1 else None)),
     te_find_service = (\<lambda>f n. if n = ''S'' then Some 2 else None),
     te_find_method = (\<lambda>s n. if n = ''m'' then Some 3 else None),
     te_names = (\<lambda>m. (''S'', ''m'')), te_new_input = (\<lambda>m. Some []), te_new_output = (\<lambda>m. Some []),
     te_parse_text = (\<lambda>text m. (True, text)), te_print_text = (\<lambda>m. m), te_serialize = (\<lambda>m. Some m),
     te_parse = (\<lambda>d m. (True, d)), te_lexical_cast = (\<lambda>n. ''n'')\<rparr>"

text \<open>The tool prints the error of a call that has timed out, and returns 0.\<close>

theorem tool_sends_checked_request_witness:
  "\<exists>p'. run_call demo_tool path_codec 0 5 (index_answer 1)
      [(Some (new_rpc_error (\<lambda>n. ''n'') TIMEOUT_EXPIRED []), None)] \<lparr>flags_proto = ''f'', flags_proto_path = []\<rparr>
      ''e'' ''S.m'' ''x'' demo_process = ([Cerr ''(n)''], Exits 0, p')"
proof -
  let ?flags = "\<lparr>flags_proto = ''f'', flags_proto_path = []\<rparr>"
  let ?oc = "(Some (new_rpc_error (\<lambda>n. ''n'') TIMEOUT_EXPIRED []), None) :: outcome"
  have r: "resolves demo_tool ?flags ''S.m'' ''x'' = Some (3, ''x'')"
    by (simp add: resolves_def demo_tool_def)
  have a: "mgr_alive demo_process" "next_addr demo_process \<noteq> NULL" "sock_in (fe_socket 0 demo_process) = []"
    "proper ?oc"
    by (simp_all add: demo_process_def fe_socket_def socket_connect_def socket_setsockopt_linger_def
        new_socket_t_def proper_def)
  have h: "te_serialize demo_tool request = Some ''x'' \<and> te_new_output demo_tool m = Some []
      \<and> te_names demo_tool m = (''S'', ''m'')
      \<and> serialize_hdr path_codec (request_header (next_event_id demo_process) ''S'' ''m'') = Some ''q''"
    if "resolves demo_tool ?flags ''S.m'' ''x'' = Some (m, request)" for m request
    using that unfolding r by (auto simp: demo_tool_def path_codec_def request_header_def)
  have "reported demo_tool ?flags = []" "line_of demo_tool (call_result (te_parse demo_tool) (Some []) ?oc) = Cerr ''(n)''"
    by (simp_all add: reported_def demo_tool_def line_of_def call_result_def new_rpc_error_def to_string_def)
  with tool_sends_checked_request [where te = demo_tool and flags = ?flags and meth = "''S.m''" and payload = "''x''",
      OF a h, of 5 1 "''e''"] r show ?thesis by simp
qed

end
