(* ===== verification/Server_Spec.thy ===== *)
theory Server_Spec
  imports Worker_Spec
begin

text \<open>
  What a server is for its clients: the services it registers are the services of every connection of
  the endpoints it binds; but for the client that is faster than \<open>manager::bind\<close>.
\<close>

section \<open>Registering\<close>

abbreviation registers ::
  "(string \<times> service_factory) list \<Rightarrow> server_impl \<Rightarrow> process \<Rightarrow> process result" where
  "registers regs si p \<equiv> foldE (\<lambda>(name, f) p. server_register_service_factory name (Some f) si p) regs p"

lemma length_map_insert: "length (map_insert k v m) \<le> Suc (length m)"
  by (induction m) auto

text \<open>The last registration of a name counts.\<close>

lemma register_all:
  assumes "fm_heap p (si_factories si) = Some m" "map_ok m"
  shows "\<exists>m'. registers regs si p = Inr (p\<lparr>fm_heap := (fm_heap p)(si_factories si \<mapsto> m')\<rparr>)
    \<and> map_ok m' \<and> map_of m' = map_of (rev regs @ m) \<and> length m' \<le> length m + length regs
    \<and> snd ` set m' \<subseteq> snd ` set m \<union> snd ` set regs"
  using assms
proof (induction regs arbitrary: p m)
  case Nil
  then show ?case by (intro exI [of _ m]) (simp add: fun_upd_idem)
next
  case (Cons r regs)
  obtain name f where r: "r = (name, f)" by (cases r)
  let ?m = "map_insert name f m" and ?a = "si_factories si"
  let ?p = "p\<lparr>fm_heap := (fm_heap p)(?a \<mapsto> ?m)\<rparr>"
  have step: "server_register_service_factory name (Some f) si p = Inr ?p"
    using Cons.prems(1)
    by (simp add: server_register_service_factory_def server_impl_register_service_factory_def
        service_factory_map_insert_def deref_fm_def)
  have "fm_heap ?p ?a = Some ?m" by simp
  from Cons.IH [OF this map_ok_map_insert [OF Cons.prems(2)]] obtain m' where m':
    "registers regs si ?p = Inr (?p\<lparr>fm_heap := (fm_heap ?p)(?a \<mapsto> m')\<rparr>)" "map_ok m'"
    "map_of m' = map_of (rev regs @ ?m)" "length m' \<le> length ?m + length regs"
    "snd ` set m' \<subseteq> snd ` set ?m \<union> snd ` set regs" by blast
  have "map_of m' = map_of (rev (r # regs) @ m)"
    unfolding m'(3) by (simp add: r map_add_def map_of_map_insert)
  moreover have "length m' \<le> length m + length (r # regs)"
    using m'(4) length_map_insert [of name f m] by simp
  moreover have "snd ` set ?m \<subseteq> insert f (snd ` set m)"
    using image_mono [OF set_map_insert [of name f m], of snd] by simp
  then have "snd ` set m' \<subseteq> snd ` set m \<union> snd ` set (r # regs)"
    using m'(5) unfolding r list.set image_insert snd_conv by blast
  ultimately show ?case using m'(1,2) step by (intro exI [of _ m']) (simp add: r, simp add: fun_upd_def)
qed

section \<open>Binding\<close>

lemma class_of_cong: "user_heap p' = user_heap p \<Longrightarrow> class_of p' s = class_of p s"
  by (simp add: class_of_def split: iservice.split)

text \<open>A server made, filled and bound: where its factories are, and that nothing else has changed.\<close>

lemma server_started:
  assumes "mgr_alive p" and "next_addr p \<noteq> NULL" and "sock_in (fe_socket t p) = []"
  shows "\<exists>si p1 p2 si' m. new_server p = Inr (si, p1) \<and> registers regs si p1 = Inr p2
    \<and> server_bind t endpoint (index_answer n) (si, p2) = Inr (si',
        (fe_sends t (bind_frames endpoint) p2)\<lparr>mgr_factories := map_insert n (next_addr p) (mgr_factories p)\<rparr>)
    \<and> endpoints si' = [(endpoint, ())]
    \<and> p2 = p\<lparr>next_addr := next_addr p + 1, fm_heap := (fm_heap p)(next_addr p \<mapsto> m)\<rparr>
    \<and> map_ok m \<and> map_of m = map_of (rev regs) \<and> length m \<le> length regs
    \<and> snd ` set m \<subseteq> snd ` set regs"
proof -
  let ?a = "next_addr p"
  let ?si = "\<lparr>endpoints = [], si_factories = ?a\<rparr>"
  let ?p1 = "p\<lparr>next_addr := ?a + 1, fm_heap := (fm_heap p)(?a \<mapsto> [])\<rparr>"
  have 1: "new_server p = Inr (?si, ?p1)"
    using assms(1) by (simp add: new_server_def new_server_impl_def manager_get_def)
  have "fm_heap ?p1 (si_factories ?si) = Some []" "map_ok ([] :: service_factory_map)" by simp_all
  from register_all [OF this, of regs] obtain m where m:
    "registers regs ?si ?p1 = Inr (?p1\<lparr>fm_heap := (fm_heap ?p1)(?a \<mapsto> m)\<rparr>)" "map_ok m"
    "map_of m = map_of (rev regs)" "length m \<le> length regs" "snd ` set m \<subseteq> snd ` set regs" by auto
  let ?p2 = "p\<lparr>next_addr := ?a + 1, fm_heap := (fm_heap p)(?a \<mapsto> m)\<rparr>"
  have 2: "registers regs ?si ?p1 = Inr ?p2" using m(1) by simp
  have "fe_socket t ?p2 = fe_socket t p" by (simp add: fe_socket_def cong: option.case_cong)
  then have "manager_bind t endpoint ?a (index_answer n) ?p2 =
      Inr ((fe_sends t (bind_frames endpoint) ?p2)\<lparr>mgr_factories := map_insert n ?a (mgr_factories p)\<rparr>)"
    using manager_bind_answered [OF assms(2), of t ?p2 endpoint n] assms(3) by simp
  then have "server_bind t endpoint (index_answer n) (?si, ?p2) = Inr (?si\<lparr>endpoints := [(endpoint, ())]\<rparr>,
      (fe_sends t (bind_frames endpoint) ?p2)\<lparr>mgr_factories := map_insert n ?a (mgr_factories p)\<rparr>)"
    by (simp add: server_bind_def server_impl_bind_def)
  with 1 2 m(2-5) show ?thesis by (intro exI conjI) (assumption | simp)+
qed

lemma factories_ok_insert:
  assumes "factories_ok p" "mgr_factories p' = map_insert n a (mgr_factories p)"
    "fm_heap p' = (fm_heap p)(a \<mapsto> m)" "fm_heap p a = None" "user_heap p' = user_heap p"
    "a \<noteq> NULL" "map_ok m" "\<forall>f \<in> snd ` set m. class_of p (service_of f) \<noteq> None"
  shows "factories_ok p'"
  unfolding factories_ok_def
proof (intro allI impI)
  fix i b assume "map_of (mgr_factories p') i = Some b"
  then consider "i = n" "b = a" | "i \<noteq> n" "map_of (mgr_factories p) i = Some b"
    by (auto simp: assms(2) map_of_map_insert split: if_splits)
  then show "b \<noteq> NULL \<and> (\<exists>m. fm_heap p' b = Some m \<and> map_ok m
      \<and> (\<forall>f \<in> snd ` set m. class_of p' (service_of f) \<noteq> None))"
  proof cases
    case 1
    then show ?thesis using assms(3,5-8) class_of_cong [of p' p] by simp
  next
    case 2
    then obtain k where k: "b \<noteq> NULL" "fm_heap p b = Some k" "map_ok k"
      "\<forall>f \<in> snd ` set k. class_of p (service_of f) \<noteq> None"
      using assms(1) unfolding factories_ok_def by blast
    then have "b \<noteq> a" using assms(4) by auto
    with k show ?thesis using assms(3,5) class_of_cong [of p' p] by simp
  qed
qed

text \<open>
  C11: What a server registers is what its clients get. Make a server, register any services with it, and
  bind it to an endpoint: then the first request of every client of this endpoint, for whatever peer, is
  dispatched among the names that have been registered, for each name to the factory registered last;
  a request for another name is refused. The endpoint is recorded, to be unbound with the server.
\<close>

theorem server_offers_services:
  assumes "mgr_alive p" and "factories_ok p" and "fresh_addrs p" and "fm_heap p (next_addr p) = None"
    and "unat (next_addr p) + 1 + length regs < 2 ^ 64" and "sock_in (fe_socket t p) = []"
    and "\<forall>f \<in> snd ` set regs. class_of p (service_of f) \<noteq> None" and "serializes (we_codec we)"
  shows "\<exists>si p1 p2 si' p3. new_server p = Inr (si, p1) \<and> registers regs si p1 = Inr p2
    \<and> server_bind t endpoint (index_answer n) (si, p2) = Inr (si', p3) \<and> endpoints si' = [(endpoint, ())]
    \<and> (\<forall>d rq peer w u. is_request we d (connection_info_router n peer) rq \<longrightarrow>
         request_handler_map w (connection_info_router n peer) = None \<longrightarrow>
         (\<exists>p4 w'. worker_step we u (Handle_Data_Cmd d) (p3, w) = Inr (True,
            (served_by we u (connection_info_router n peer) rq (hd_payload d)
              (case map_of (rev regs) (get_or [] (rq_service rq)) of None \<Rightarrow> None
               | Some f \<Rightarrow> class_of p (service_of f)) p4, w'))))"
proof -
  let ?a = "next_addr p"
  have a: "?a \<noteq> NULL" using assms(3) by (simp add: fresh_addrs_def)
  obtain si p1 p2 si' m where s: "new_server p = Inr (si, p1)" "registers regs si p1 = Inr p2"
    "server_bind t endpoint (index_answer n) (si, p2) = Inr (si',
      (fe_sends t (bind_frames endpoint) p2)\<lparr>mgr_factories := map_insert n ?a (mgr_factories p)\<rparr>)"
    "endpoints si' = [(endpoint, ())]"
    "p2 = p\<lparr>next_addr := ?a + 1, fm_heap := (fm_heap p)(?a \<mapsto> m)\<rparr>"
    and m: "map_ok m" "map_of m = map_of (rev regs)" "length m \<le> length regs" "snd ` set m \<subseteq> snd ` set regs"
    using server_started [OF assms(1) a assms(6), of regs endpoint n] by blast
  let ?p = "(fe_sends t (bind_frames endpoint) p2)\<lparr>mgr_factories := map_insert n ?a (mgr_factories p)\<rparr>"
  have f: "mgr_factories ?p = map_insert n ?a (mgr_factories p)" "fm_heap ?p = (fm_heap p)(?a \<mapsto> m)"
    "user_heap ?p = user_heap p" "mgr_alive ?p" "svc_heap ?p = svc_heap p" "next_addr ?p = ?a + 1"
    using assms(1) by (simp_all add: s(5))
  have live: "\<forall>f \<in> snd ` set m. class_of p (service_of f) \<noteq> None" using m(4) assms(7) by blast
  have ok: "factories_ok ?p"
    by (rule factories_ok_insert [OF assms(2) f(1,2) assms(4) f(3) a m(1) live])
  have succ: "unat (?a + 1) = Suc (unat ?a)"
    using assms(5) by (simp add: unat_word_ariths)
  have "fresh_addrs ?p"
    using assms(3) succ unfolding fresh_addrs_def f(5,6)
    by (auto simp: word_less_nat_alt)
  note fresh = this
  have served: "\<exists>p4 w'. worker_step we u (Handle_Data_Cmd d) (?p, w) = Inr (True,
      (served_by we u (connection_info_router n peer) rq (hd_payload d)
        (case map_of (rev regs) (get_or [] (rq_service rq)) of None \<Rightarrow> None
         | Some f \<Rightarrow> class_of p (service_of f)) p4, w'))"
    if d: "is_request we d (connection_info_router n peer) rq"
      "request_handler_map w (connection_info_router n peer) = None" for d rq peer w u
  proof -
    let ?info = "connection_info_router n peer"
    have fs: "factories_for ?info ?p = m"
      by (simp add: factories_for_def f connection_info_router_def map_of_map_insert)
    have "unat (next_addr ?p) + length (factories_for ?info ?p) < 2 ^ 64"
      unfolding fs f(6) succ using m(3) assms(5) by simp
    note new = worker_request_new [OF d assms(8) f(4) ok fresh this, of u]
    have cls: "class_of ?p = class_of p" using class_of_cong [OF f(3)] by (rule ext)
    from new [unfolded fs cls m(2)] show ?thesis
      unfolding request_step [OF d(1)] by (elim exE conjE) (simp, blast)
  qed
  show ?thesis
    by (rule exI [of _ si], rule exI [of _ p1], rule exI [of _ p2], rule exI [of _ si'], rule exI [of _ ?p],
        intro conjI allI impI, (rule s)+, rule served)
qed

section \<open>The early client\<close>

text \<open>
  C25: A client can be faster than \<open>bind\<close>. The broker binds the socket before it answers, and
  \<open>manager::bind\<close> stores the factories after the answer; a request that a worker handles in between is
  refused, and so is every later request on the same connection, whatever factories there are by then:
  the connection has got a handler without services.
\<close>

theorem early_client_stays_refused:
  assumes "is_request we d info rq" and "request_handler_map w info = None" and "ci_is_router info"
    and "map_of (mgr_factories p) (ci_index info) = None"
    and "serializes (we_codec we)" and "mgr_alive p"
  shows "\<exists>w1. worker_step we t (Handle_Data_Cmd d) (p, w) =
      Inr (True, (served_by we t info rq (hd_payload d) None p, w1))
    \<and> (\<forall>p' d' rq'. mgr_alive p' \<longrightarrow> is_request we d' info rq' \<longrightarrow>
         worker_step we t (Handle_Data_Cmd d') (p', w1) =
           Inr (True, (served_by we t info rq' (hd_payload d') None p', w1)))"
proof -
  let ?rh = "\<lparr>service_map = [], rh_conn_info = info\<rparr>"
  let ?w = "w\<lparr>request_handler_map := (request_handler_map w)(info \<mapsto> ?rh)\<rparr>"
  have known: "worker_step we t (Handle_Data_Cmd d') (p', ?w) =
      Inr (True, (served_by we t info rq' (hd_payload d') None p', ?w))"
    if "mgr_alive p'" "is_request we d' info rq'" for p' d' rq'
    using worker_request_known [OF that(2) _ assms(5) that(1), of ?w ?rh t] request_step [OF that(2)]
    by (simp add: refs_live_def named_class_def)
  have "new_request_handler info p = Inr (p, ?rh)"
    using assms(3,4,6) by (simp add: new_request_handler_def create_services_def manager_get_def
        router_service_factories_get_def)
  then have "get_handler info (p, request_handler_map w) = Inr (p, (request_handler_map w)(info \<mapsto> ?rh))"
    using assms(2) by (simp add: get_handler_def insert_new_handler_def)
  moreover have "hd_info d = Some info" using assms(1) by (simp add: is_request_def)
  moreover have "named_class p ?rh name = None" for name by (simp add: named_class_def)
  ultimately have "worker_step we t (Handle_Data_Cmd d) (p, w) =
      Inr (True, (served_by we t info rq (hd_payload d) None p, ?w))"
    using handle_request_answered [OF assms(5,6), of ?rh t rq "hd_payload d"]
    by (simp add: request_step [OF assms(1)] worker_handle_request_def refs_live_def served_by_def)
  with known show ?thesis by blast
qed

section \<open>Witnesses\<close>

definition bare_process :: process where
  "bare_process = demo_process\<lparr>mgr_factories := []\<rparr>"

lemma bare_process:
  "mgr_alive bare_process" "factories_ok bare_process" "fresh_addrs bare_process"
  "next_addr bare_process = 10" "fm_heap bare_process 10 = None" "sock_in (fe_socket 0 bare_process) = []"
  "mgr_factories bare_process = []" "class_of bare_process (User_Service 3) = Some 3"
  by (simp_all add: bare_process_def demo_defs factories_ok_def fresh_addrs_def fe_socket_def class_of_def
      socket_connect_def socket_setsockopt_linger_def new_socket_t_def)

lemma demo_conn_router: "connection_info_router 1 ''c'' = demo_conn"
  by (simp add: demo_conn_def connection_info_router_def)

theorem server_offers_services_witness:
  "\<exists>si p1 p2 si' p3 p4 w'. new_server bare_process = Inr (si, p1)
    \<and> registers [(''s'', Default_Service_Factory 3)] si p1 = Inr p2
    \<and> server_bind 0 ''e'' (index_answer 1) (si, p2) = Inr (si', p3)
    \<and> worker_step demo_we 0 (demo_data ''q'') (p3, new_worker 0) = Inr (True,
        (p4\<lparr>user_calls := user_calls p4 @ [Call_Method 3 0 ''p'' demo_conn 7]\<rparr>, w'))"
proof -
  let ?regs = "[(''s'', Default_Service_Factory 3)]"
  let ?d = "\<lparr>hd_info = Some demo_conn, hd_header = ''q'', hd_payload = ''p''\<rparr>"
  have a: "fm_heap bare_process (next_addr bare_process) = None"
    "unat (next_addr bare_process) + 1 + length ?regs < 2 ^ 64"
    "\<forall>f \<in> snd ` set ?regs. class_of bare_process (service_of f) \<noteq> None"
    by (simp_all add: bare_process service_of_def)
  have r: "is_request demo_we ?d (connection_info_router 1 ''c'') demo_request"
    "request_handler_map (new_worker 0) (connection_info_router 1 ''c'') = None"
    unfolding demo_conn_router by (rule demo_is_request) (simp add: new_worker_def)
  have name: "get_or [] (rq_service demo_request) = ''s''" by (simp add: demo_request_def)
  from server_offers_services [OF bare_process(1-3) a(1,2) bare_process(6) a(3) demo_serializes, of "''e''" 1]
  obtain si p1 p2 si' p3 where s: "new_server bare_process = Inr (si, p1)" "registers ?regs si p1 = Inr p2"
    "server_bind 0 ''e'' (index_answer 1) (si, p2) = Inr (si', p3)"
    and served: "\<exists>p4 w'. worker_step demo_we 0 (Handle_Data_Cmd ?d) (p3, new_worker 0) = Inr (True,
      (served_by demo_we 0 (connection_info_router 1 ''c'') demo_request (hd_payload ?d)
        (case map_of (rev ?regs) (get_or [] (rq_service demo_request)) of None \<Rightarrow> None
         | Some f \<Rightarrow> class_of bare_process (service_of f)) p4, w'))"
    using r by blast
  have "(case map_of (rev ?regs) (get_or [] (rq_service demo_request)) of None \<Rightarrow> None
      | Some f \<Rightarrow> class_of bare_process (service_of f)) = Some 3"
    by (simp add: name service_of_def bare_process)
  with served s show ?thesis
    by (simp add: demo_conn_router demo_served demo_data_def)
qed

theorem early_client_stays_refused_witness:
  "\<exists>w1. worker_step demo_we 0 (demo_data ''q'') (bare_process, new_worker 0) =
      Inr (True, (served_by demo_we 0 demo_conn demo_request ''p'' None bare_process, w1))
    \<and> worker_step demo_we 0 (demo_data ''q'') (demo_process, w1) =
      Inr (True, (served_by demo_we 0 demo_conn demo_request ''p'' None demo_process, w1))"
proof -
  have a: "request_handler_map (new_worker 0) demo_conn = None" "ci_is_router demo_conn"
    "map_of (mgr_factories bare_process) (ci_index demo_conn) = None" "mgr_alive demo_process"
    by (simp_all add: new_worker_def demo_process_fields bare_process)
  from early_client_stays_refused [OF demo_is_request a(1-3) demo_serializes bare_process(1), of 0]
    demo_is_request a(4) show ?thesis unfolding demo_data_def by (auto simp: demo_process_fields)
qed

section \<open>The late request\<close>

text \<open>The destructor of a server talks to the broker, and leaves services and handlers alone.\<close>

definition keeps_services :: "process \<Rightarrow> process \<Rightarrow> bool" where
  "keeps_services p p' \<longleftrightarrow> svc_heap p' = svc_heap p \<and> user_heap p' = user_heap p
     \<and> mgr_alive p' = mgr_alive p \<and> mgr_factories p' = mgr_factories p \<and> fm_heap p' = fm_heap p"

lemma keeps_unbind:
  assumes "keeps_services p q"
  shows "ensures (keeps_services p) (manager_unbind t endpoint answer q)"
proof -
  have arrives: "keeps_services p (frontend_arrives t ms q)" if "keeps_services p q" for ms q
    using that by (simp add: keeps_services_def frontend_arrives_def)
  have set_fe: "keeps_services p (set_fe_socket t s q)" if "keeps_services p q" for s q
    using that by (simp add: keeps_services_def)
  have recv: "ensures P (bindE (frontend_recv t q) k)"
    if "keeps_services p q" "\<And>m x. keeps_services p x \<Longrightarrow> ensures P (k (m, x))" for q k and P :: "process \<Rightarrow> bool"
    unfolding frontend_recv_eq using that set_fe by (auto intro!: ensures_Inl split: list.split)
  show ?thesis
    unfolding manager_unbind_def on_frontend_eq Let_def bindE_Inr
    by (intro recv arrives set_fe assms, simp only: prod.case, intro recv)
      (simp_all add: ensures_Inr)
qed

lemma keeps_destroy: "ensures (keeps_services p) (server_destroy t answers si p)"
  unfolding server_destroy_def server_impl_destroy_def
  by (rule ensures_foldE) (auto simp: keeps_unbind, simp add: keeps_services_def)

text \<open>
  C26: A server can go too early. A singleton service must be valid during the lifetime of the server, says
  \<open>server.hpp\<close>. But the destructor of the server waits for the broker only: when the service is deleted
  after it, as it may be, a request that is still in the queue of a worker uses the deleted service.
\<close>

theorem late_request_uses_deleted_service:
  assumes "server_destroy t answers si p = Inr p1" and "p2 = p1\<lparr>user_heap := (user_heap p1)(r := None)\<rparr>"
    and "is_request we d info rq" and "request_handler_map w info = Some rh" and "rh_conn_info rh = info"
    and "map_of (service_map rh) (get_or [] (rq_service rq)) = Some svc" and "svc \<noteq> NULL"
    and "svc_heap p svc = Some (Mono_State_Service r)" and "mgr_alive p"
  shows "worker_step we u (Handle_Data_Cmd d) (p2, w) = Inl Use_After_Free"
proof -
  have "keeps_services p p1" using ensuresD [OF keeps_destroy assms(1)] .
  then have p2: "svc_heap p2 svc = Some (Mono_State_Service r)" "user_heap p2 r = None" "mgr_alive p2"
    using assms(8,9) by (simp_all add: keeps_services_def assms(2))
  have "hd_info d = Some info" using assms(3) by (simp add: is_request_def)
  then show ?thesis
    using assms(4-7) p2
    by (simp add: request_step [OF assms(3)] worker_handle_request_def get_handler_known
        handler_handle_request_def connection_of_info_def manager_get_def Let_def dispatch_request_def
        mono_state_dispatch_request_def)
qed

theorem late_request_uses_deleted_service_witness:
  "\<exists>p1. server_destroy 0 (\<lambda>e. [frame [] ZMQ_SNDMORE, frame [] 0]) \<lparr>endpoints = [(''e'', ())], si_factories = 4\<rparr>
      (demo_process\<lparr>svc_heap := [5 \<mapsto> Mono_State_Service 20], user_heap := [20 \<mapsto> 3]\<rparr>) = Inr p1
    \<and> worker_step demo_we 1 (demo_data ''q'') (p1\<lparr>user_heap := (user_heap p1)(20 := None)\<rparr>,
        (new_worker 0)\<lparr>request_handler_map := [demo_conn \<mapsto> demo_handler]\<rparr>) = Inl Use_After_Free"
proof -
  let ?p = "demo_process\<lparr>svc_heap := [5 \<mapsto> Mono_State_Service 20], user_heap := [20 \<mapsto> 3]\<rparr>"
  let ?w = "(new_worker 0)\<lparr>request_handler_map := [demo_conn \<mapsto> demo_handler]\<rparr>"
  have "sock_in (fe_socket 0 ?p) = []"
    by (simp add: fe_socket_def demo_defs socket_connect_def socket_setsockopt_linger_def new_socket_t_def)
  note unbind = manager_unbind_answered(1) [OF this, of "''e''"]
  have s: "server_destroy 0 (\<lambda>e. [frame [] ZMQ_SNDMORE, frame [] 0])
      \<lparr>endpoints = [(''e'', ())], si_factories = 4\<rparr> ?p = Inr (fe_sends 0 (unbind_frames ''e'') ?p)"
    by (simp add: server_destroy_def server_impl_destroy_def unbind)
  have a: "request_handler_map ?w demo_conn = Some demo_handler" "rh_conn_info demo_handler = demo_conn"
    "map_of (service_map demo_handler) (get_or [] (rq_service demo_request)) = Some 5" "(5 :: ptr) \<noteq> NULL"
    "svc_heap ?p 5 = Some (Mono_State_Service 20)" "mgr_alive ?p"
    by (simp_all add: demo_process_fields) (simp add: demo_request_def)
  from late_request_uses_deleted_service [OF s refl demo_is_request a, of 1] s
  show ?thesis unfolding demo_data_def by blast
qed

end
