(* ===== verification/Manager_Life.thy ===== *)
theory Manager_Life
  imports Rpc_Path
begin

text \<open>
  The beginning and the end of a manager (the constructor and destructor in \<open>manager.cc\<close>), and the
  functions of \<open>application.cc\<close>. The constructor makes the frontend socket, the workers and the
  broker, and waits until the broker is ready; the destructor tells the broker to quit and then the
  workers. What they establish is what the theories of the broker and of the workers assume.
\<close>

section \<open>\<open>application\<close>\<close>

definition application_run :: "process \<Rightarrow> process result" where
  "application_run p = bindE (manager_get p) (\<lambda>p.
     case manager_run p of None \<Rightarrow> Inl Wait_Blocked | Some p \<Rightarrow> Inr p)"

definition application_terminate :: "process \<Rightarrow> process result" where
  "application_terminate p = bindE (manager_get p) (\<lambda>p. Inr (manager_terminate p))"

definition application_set_worker_threads :: "int32 \<Rightarrow> application_options \<Rightarrow> application_options" where
  "application_set_worker_threads n ao = set_worker_threads n ao"

section \<open>Construction\<close>

record manager_parts =
  mp_process :: process
  mp_workers :: "worker list"
  mp_broker :: broker_thread

text \<open>\<open>this_str\<close> is \<open>lexical_cast<std::string>(this)\<close>, \<open>broker_fe_socket\<close> the address of the new socket.\<close>

definition new_manager ::
  "bool \<Rightarrow> string \<Rightarrow> ptr \<Rightarrow> application_options \<Rightarrow> process \<Rightarrow> manager_parts result" where
  "new_manager uninitialised this_str broker_fe_socket ao p =
     (let p = p\<lparr>terminated := new_sync_event, mgr_factories := [], next_event_id := 1,
            tss_fe_socket := Map.empty,
            frontend_endpoint := ''inproc://'' @ this_str @ ''.rpcz.manager.frontend''\<rparr>;
          s = new_socket_t ZMQ_ROUTER;
          s = socket_setsockopt_sndhwm (10 * 1000 * 1000) s;
          s = socket_setsockopt_linger 0 s;
          s = socket_bind (frontend_endpoint p) s
      in bindE (get_worker_threads ao) (\<lambda>threads.
         boost_assert (0 < sint threads)
         (bindE (new_worker_thread_group threads) (\<lambda>(workers, commander).
          boost_assert (get_workers commander = threads)
          (bindE (new_broker_thread uninitialised broker_fe_socket s commander (rc_heap p) new_sync_event)
            (\<lambda>(broker, event).
            case sync_event_wait event of None \<Rightarrow> Inl Wait_Blocked
            | Some _ \<Rightarrow> Inr \<lparr>mp_process = p, mp_workers = workers, mp_broker = broker\<rparr>))))))"

text \<open>The options after calls of \<open>set_worker_threads\<close> with the arguments \<open>ns\<close>.\<close>

definition options_after :: "int32 list \<Rightarrow> application_options" where
  "options_after ns = foldl (\<lambda>ao n. application_set_worker_threads n ao) application_options_init ns"

lemma options_positive: "0 < sint (worker_threads (options_after ns))"
proof -
  have "0 < sint (worker_threads ao) \<Longrightarrow>
      0 < sint (worker_threads (foldl (\<lambda>ao n. application_set_worker_threads n ao) ao ns))" for ao
    by (induction ns arbitrary: ao)
      (simp_all add: application_set_worker_threads_def set_worker_threads_def)
  then show ?thesis by (simp add: options_after_def application_options_init_def)
qed

lemma new_broker_ready:
  assumes "0 < sint (wc_workers wc)"
  shows "\<exists>st. new_broker_thread u fe s wc ctrls ev = Inr (st, sync_event_signal ev)
    \<and> zsocks st fe = Some s \<and> frontend_socket st = fe \<and> bt_commander st = wc \<and> ctrl_heap st = ctrls
    \<and> r_closure_run_map st = []"
  using assms
  by (simp add: new_broker_thread_def Let_def reactor_add_socket_def reactor.defs broker_thread.defs
      new_reactor_def get_workers_def)



section \<open>Destruction\<close>

text \<open>
  The destructor: \<open>join_threads\<close>, called by the thread \<open>t\<close> that the broker knows as \<open>identity\<close>. The
  broker takes the command, and its thread ends; then every worker is told to quit.
\<close>

definition manager_destroy ::
  "broker_env \<Rightarrow> string \<Rightarrow> thread \<Rightarrow> process \<Rightarrow> broker_thread
    \<Rightarrow> (process \<times> broker_thread \<times> workers_commander) result" where
  "manager_destroy env identity t p bt =
     bindE (send_quit t p) (\<lambda>p'.
     bindE (handle_frontend_socket env (frontend_socket bt) (arrives (frontend_socket bt)
         (frame_enc identity True @ new_frames (fe_socket t p) (fe_socket t p')) bt)) (\<lambda>bt'.
     bindE (group_quit (bt_commander bt')) (\<lambda>wc. Inr (p', bt', wc))))"

definition quit_frames :: "message list" where
  "quit_frames = frame_enc [] True @ frame_enc [kQuit] False"

lemma send_quit_eq: "send_quit t p = Inr (fe_sends t quit_frames p)"
  by (simp add: send_quit_def on_frontend_eq send_frames Let_def fe_sends_def quit_frames_def)

lemma quit_handled:
  assumes "broker_inv bt" and "sock_in (the_socket (frontend_socket bt) bt) = []"
  shows "\<exists>bt'. handle_frontend_socket env (frontend_socket bt) (arrives (frontend_socket bt)
      (frame_enc identity True @ quit_frames) bt) = Inr bt' \<and> should_quit bt'
    \<and> bt_commander bt' = bt_commander bt \<and> sock_in (the_socket (frontend_socket bt) bt') = []"
proof -
  let ?fe = "frontend_socket bt"
  let ?st = "arrives ?fe (frame_enc identity True @ quit_frames) bt"
  obtain fs where fs: "zsocks bt ?fe = Some fs" using broker_inv_frontend [OF assms(1)] by blast
  let ?s = "fs\<lparr>sock_in := frame_enc identity True @ quit_frames\<rparr>"
  have s: "zsocks ?st ?fe = Some ?s" using assms(2) the_socket [OF fs] by simp
  have inp: "sock_in ?s = command_frames identity kQuit [] @ []"
    by (simp add: command_frames_def quit_frames_def)
  have "dispatch_command env kQuit identity \<lparr>it_socket = [] @ [], it_message = [kQuit],
      it_has_more = [] \<noteq> ([] :: message list)\<rparr> ?st =
    Inr (\<lparr>it_socket = [], it_message = [kQuit], it_has_more = False\<rparr>, set_should_quit ?st)"
    by (simp add: dispatch_command_def handle_quit_command_def)
  moreover have "zsocks (set_should_quit ?st) ?fe = Some ?s" using s by (simp add: set_should_quit_def)
  ultimately have "handle_frontend_socket env ?fe ?st =
      Inr ((set_should_quit ?st)\<lparr>zsocks := (zsocks (set_should_quit ?st))(?fe \<mapsto> ?s\<lparr>sock_in := []\<rparr>)\<rparr>)"
    using handle_frontend_socket_command [OF s inp]
    by (simp add: message_iterator_destroy_def)
  then show ?thesis by (simp add: set_should_quit_def the_socket_def)
qed



end
