(* ===== verification/Singleton.thy ===== *)
theory Singleton
  imports "HOL-Library.Multiset" Manager_Life
begin

text \<open>
  The manager as a singleton that comes and goes (\<open>manager_dyn_singleton_helper.cc\<close>): threads get
  shared pointers to it, the last one that drops its pointer destroys it, and the next one that asks
  makes another. The threads interleave: each function is a step relation, with one rule for each of
  its atomic actions, over the static members and the program counter of each thread. The theorems
  hold in every reachable state: there is one manager at most, no pointer dangles, and one
  notification is enough; and two ways in which the threads get stuck are shown to be for ever.
\<close>

section \<open>State\<close>

text \<open>
  Where a thread is: outside of these functions; in \<open>get_manager_ptr\<close>; in \<open>make_manager_ptr\<close>, before
  it has locked \<open>mgr_wptr_mtx\<close>, after, in \<open>start_construction\<close>, waiting there for \<open>cond\<close>, in the
  constructor of the manager, before the assignment to \<open>mgr_wptr\<close>, and returning; in the destructor of
  the manager, and in \<open>finish_destruction\<close>.
\<close>

datatype get_pc = Outside | In_Get | At_Mutex | Locked | In_Start | In_Wait | In_New
  | Assigning nat | Returning | In_Delete nat | In_Finish

text \<open>
  The managers are numbered in the order of their construction. \<open>owners\<close> has an element for each
  shared pointer, with the thread it is a variable of; \<open>objects\<close> are the managers that have been
  constructed, and not yet destroyed. The body of each function that locks \<open>mgr_exists_mtx\<close> is one
  critical section, so it is one step, but for the wait, which unlocks the mutex.
\<close>

record dyn_singleton =
  mgr_wptr :: "nat option"
  mgr_wptr_mtx :: "thread option"
  mgr_exists :: bool
  owners :: "(thread \<times> nat) multiset"
  objects :: "nat set"
  made :: nat
  pcs :: "thread \<Rightarrow> get_pc"

definition singleton_init :: dyn_singleton where
  "singleton_init = \<lparr>mgr_wptr = None, mgr_wptr_mtx = None, mgr_exists = False, owners = {#},
     objects = {}, made = 0, pcs = (\<lambda>_. Outside)\<rparr>"

definition goto :: "thread \<Rightarrow> get_pc \<Rightarrow> dyn_singleton \<Rightarrow> dyn_singleton" where
  "goto t c s = s\<lparr>pcs := (pcs s)(t := c)\<rparr>"

definition use_count :: "nat \<Rightarrow> dyn_singleton \<Rightarrow> nat" where
  "use_count m s = count (image_mset snd (owners s)) m"

text \<open>\<open>mgr_wptr.lock()\<close>: the manager that it would return a shared pointer to.\<close>

definition wptr_lock :: "dyn_singleton \<Rightarrow> nat option" where
  "wptr_lock s = (case mgr_wptr s of None \<Rightarrow> None
     | Some m \<Rightarrow> if use_count m s = 0 then None else Some m)"

definition acquire :: "thread \<Rightarrow> nat \<Rightarrow> dyn_singleton \<Rightarrow> dyn_singleton" where
  "acquire t m s = s\<lparr>owners := add_mset (t, m) (owners s)\<rparr>"

definition release :: "thread \<Rightarrow> nat \<Rightarrow> dyn_singleton \<Rightarrow> dyn_singleton" where
  "release t m s = s\<lparr>owners := owners s - {#(t, m)#}\<rparr>"

section \<open>Steps\<close>

inductive get_manager_ptr_step :: "thread \<Rightarrow> dyn_singleton \<Rightarrow> dyn_singleton \<Rightarrow> bool" where
  get_call: "pcs s t = Outside \<Longrightarrow> get_manager_ptr_step t s (goto t In_Get s)"
| get_hit: "pcs s t = In_Get \<Longrightarrow> wptr_lock s = Some m \<Longrightarrow>
    get_manager_ptr_step t s (goto t Outside (acquire t m s))"
| get_miss: "pcs s t = In_Get \<Longrightarrow> wptr_lock s = None \<Longrightarrow>
    get_manager_ptr_step t s (goto t At_Mutex s)"

text \<open>
  A constructor that throws leaves \<open>make_manager_ptr\<close> by the exception, which unlocks the mutex and
  does nothing else.
\<close>

inductive make_manager_ptr_step :: "thread \<Rightarrow> dyn_singleton \<Rightarrow> dyn_singleton \<Rightarrow> bool" where
  make_lock: "pcs s t = At_Mutex \<Longrightarrow> mgr_wptr_mtx s = None \<Longrightarrow>
    make_manager_ptr_step t s (goto t Locked (s\<lparr>mgr_wptr_mtx := Some t\<rparr>))"
| make_hit: "pcs s t = Locked \<Longrightarrow> wptr_lock s = Some m \<Longrightarrow>
    make_manager_ptr_step t s (goto t Returning (acquire t m s))"
| make_miss: "pcs s t = Locked \<Longrightarrow> wptr_lock s = None \<Longrightarrow>
    make_manager_ptr_step t s (goto t In_Start s)"
| make_new: "pcs s t = In_New \<Longrightarrow> m = made s \<Longrightarrow>
    make_manager_ptr_step t s
      (goto t (Assigning m) (acquire t m (s\<lparr>objects := insert m (objects s), made := made s + 1\<rparr>)))"
| make_throw: "pcs s t = In_New \<Longrightarrow>
    make_manager_ptr_step t s (goto t Outside (s\<lparr>mgr_wptr_mtx := None\<rparr>))"
| make_assign: "pcs s t = Assigning m \<Longrightarrow>
    make_manager_ptr_step t s (goto t Returning (s\<lparr>mgr_wptr := Some m\<rparr>))"
| make_return: "pcs s t = Returning \<Longrightarrow>
    make_manager_ptr_step t s (goto t Outside (s\<lparr>mgr_wptr_mtx := None\<rparr>))"

inductive start_construction_step :: "thread \<Rightarrow> dyn_singleton \<Rightarrow> dyn_singleton \<Rightarrow> bool" where
  start_wait: "pcs s t = In_Start \<Longrightarrow> mgr_exists s \<Longrightarrow> start_construction_step t s (goto t In_Wait s)"
| start_spurious: "pcs s t = In_Wait \<Longrightarrow> start_construction_step t s (goto t In_Start s)"
| start_set: "pcs s t = In_Start \<Longrightarrow> \<not> mgr_exists s \<Longrightarrow>
    start_construction_step t s (goto t In_New (s\<lparr>mgr_exists := True\<rparr>))"

text \<open>\<open>notify_one\<close> wakes one of the waiting threads, if there is one.\<close>

inductive finish_destruction_step :: "thread \<Rightarrow> dyn_singleton \<Rightarrow> dyn_singleton \<Rightarrow> bool" where
  finish_notify: "pcs s t = In_Finish \<Longrightarrow> pcs s u = In_Wait \<Longrightarrow>
    finish_destruction_step t s (goto u In_Start (goto t Outside (s\<lparr>mgr_exists := False\<rparr>)))"
| finish_alone: "pcs s t = In_Finish \<Longrightarrow> (\<forall>u. pcs s u \<noteq> In_Wait) \<Longrightarrow>
    finish_destruction_step t s (goto t Outside (s\<lparr>mgr_exists := False\<rparr>))"

text \<open>
  \<open>dyn_singleton_deleter\<close>: the destructor joins the workers, which takes until none of them is in one
  of these functions; \<open>wk m\<close> are the threads of the workers of the manager \<open>m\<close>.
\<close>

inductive deleter_step ::
  "(nat \<Rightarrow> thread set) \<Rightarrow> thread \<Rightarrow> dyn_singleton \<Rightarrow> dyn_singleton \<Rightarrow> bool" for wk where
  delete_manager: "pcs s t = In_Delete m \<Longrightarrow> (\<forall>u \<in> wk m. pcs s u = Outside) \<Longrightarrow>
    deleter_step wk t s (goto t In_Finish (s\<lparr>objects := objects s - {m}\<rparr>))"

text \<open>What a thread does with its shared pointers: it copies them for any thread, and drops them.\<close>

inductive manager_ptr_step :: "thread \<Rightarrow> dyn_singleton \<Rightarrow> dyn_singleton \<Rightarrow> bool" where
  ptr_copy: "pcs s t = Outside \<Longrightarrow> (t, m) \<in># owners s \<Longrightarrow> manager_ptr_step t s (acquire u m s)"
| ptr_drop: "pcs s t = Outside \<Longrightarrow> (t, m) \<in># owners s \<Longrightarrow> use_count m s \<noteq> 1 \<Longrightarrow>
    manager_ptr_step t s (release t m s)"
| ptr_drop_last: "pcs s t = Outside \<Longrightarrow> (t, m) \<in># owners s \<Longrightarrow> use_count m s = 1 \<Longrightarrow>
    manager_ptr_step t s (goto t (In_Delete m) (release t m s))"

definition singleton_step ::
  "(nat \<Rightarrow> thread set) \<Rightarrow> thread \<Rightarrow> dyn_singleton \<Rightarrow> dyn_singleton \<Rightarrow> bool" where
  "singleton_step wk t s s' \<longleftrightarrow> get_manager_ptr_step t s s' \<or> make_manager_ptr_step t s s'
     \<or> start_construction_step t s s' \<or> finish_destruction_step t s s' \<or> deleter_step wk t s s'
     \<or> manager_ptr_step t s s'"

inductive singleton_reach ::
  "(nat \<Rightarrow> thread set) \<Rightarrow> dyn_singleton \<Rightarrow> dyn_singleton \<Rightarrow> bool" for wk where
  reach_refl: "singleton_reach wk s s"
| reach_step: "singleton_reach wk s s' \<Longrightarrow> singleton_step wk t s' s'' \<Longrightarrow> singleton_reach wk s s''"

section \<open>Shared pointers\<close>

lemma use_count_pos: "0 < use_count m s \<longleftrightarrow> (\<exists>t. (t, m) \<in># owners s)"
proof -
  have "0 < use_count m s \<longleftrightarrow> m \<in> snd ` set_mset (owners s)"
    unfolding use_count_def by (metis count_greater_zero_iff set_image_mset)
  then show ?thesis by force
qed

lemma wptr_lock_Some: "wptr_lock s = Some m \<longleftrightarrow> mgr_wptr s = Some m \<and> (\<exists>t. (t, m) \<in># owners s)"
  by (auto simp: wptr_lock_def use_count_pos [symmetric] split: option.splits)

lemma wptr_lock_None: "wptr_lock s = None \<longleftrightarrow> (\<forall>m t. mgr_wptr s = Some m \<longrightarrow> (t, m) \<notin># owners s)"
  by (metis wptr_lock_Some option.exhaust option.distinct(1))

text \<open>The last pointer to the only manager is the last pointer.\<close>

lemma use_count_last:
  assumes "use_count m s = 1" "(t, m) \<in># owners s" "\<forall>u k. (u, k) \<in># owners s \<longrightarrow> k = m"
  shows "owners s = {#(t, m)#}"
proof -
  have "image_mset snd (owners s) = image_mset (\<lambda>_. m) (owners s)"
    using assms(3) by (intro image_mset_cong) auto
  then have "size (owners s) = 1"
    using assms(1) by (simp add: use_count_def image_mset_const_eq)
  then obtain x where "owners s = {#x#}" using size_1_singleton_mset [of "owners s"] by blast
  with assms(2) show ?thesis by auto
qed

lemma use_count_other:
  assumes "use_count m s \<noteq> 1" "(t, m) \<in># owners s" "\<forall>u k. (u, k) \<in># owners s \<longrightarrow> k = m"
  shows "owners s - {#(t, m)#} \<noteq> {#}"
proof
  assume "owners s - {#(t, m)#} = {#}"
  then have "owners s = {#(t, m)#}" using assms(2) by (metis insert_DiffM)
  then show False using assms(1) by (simp add: use_count_def)
qed

section \<open>The invariant\<close>

fun holds_wptr_mtx :: "get_pc \<Rightarrow> bool" where
  "holds_wptr_mtx Outside = False"
| "holds_wptr_mtx In_Get = False"
| "holds_wptr_mtx At_Mutex = False"
| "holds_wptr_mtx (In_Delete m) = False"
| "holds_wptr_mtx In_Finish = False"
| "holds_wptr_mtx c = True"

text \<open>
  Who holds \<open>mgr_wptr_mtx\<close>; that \<open>mgr_exists\<close> is set from before the construction of a manager until
  after its destruction; that the shared pointers point to the manager that exists; that it is being
  destroyed exactly when there is none; and that \<open>mgr_wptr\<close> points to it, when it can be reached from
  more than the variable of \<open>make_manager_ptr\<close>.
\<close>

definition mutex_inv :: "dyn_singleton \<Rightarrow> bool" where
  "mutex_inv s \<longleftrightarrow> (\<forall>t. holds_wptr_mtx (pcs s t) \<longleftrightarrow> mgr_wptr_mtx s = Some t)"

definition exists_inv :: "dyn_singleton \<Rightarrow> bool" where
  "exists_inv s \<longleftrightarrow> (\<forall>t. pcs s t = In_Wait \<longrightarrow> mgr_exists s)
     \<and> (\<forall>t. pcs s t = In_New \<longrightarrow> mgr_exists s \<and> objects s = {} \<and> (\<forall>u. pcs s u \<noteq> In_Finish))
     \<and> (\<forall>m \<in> objects s. mgr_exists s \<and> objects s = {m} \<and> m < made s)
     \<and> (\<forall>t. pcs s t = In_Finish \<longrightarrow> mgr_exists s \<and> objects s = {} \<and> (\<forall>u. pcs s u = In_Finish \<longrightarrow> u = t))"

definition owners_inv :: "dyn_singleton \<Rightarrow> bool" where
  "owners_inv s \<longleftrightarrow> (\<forall>t m. (t, m) \<in># owners s \<longrightarrow> m \<in> objects s)
     \<and> (\<forall>t m. pcs s t = In_Delete m \<longrightarrow> m \<in> objects s \<and> owners s = {#}
          \<and> (\<forall>u k. pcs s u = In_Delete k \<longrightarrow> u = t))
     \<and> (\<forall>m \<in> objects s. owners s = {#} \<longrightarrow> (\<exists>t. pcs s t = In_Delete m))
     \<and> (\<forall>t m. pcs s t = Assigning m \<longrightarrow> (t, m) \<in># owners s)
     \<and> (\<forall>m \<in> objects s. mgr_wptr s = Some m
          \<or> (\<exists>t. pcs s t = Assigning m \<and> (\<forall>x \<in># owners s. x = (t, m))))"

definition singleton_inv :: "dyn_singleton \<Rightarrow> bool" where
  "singleton_inv s \<longleftrightarrow> mutex_inv s \<and> exists_inv s \<and> owners_inv s"

lemma singleton_inv_init: "singleton_inv singleton_init"
  by (simp add: singleton_inv_def mutex_inv_def exists_inv_def owners_inv_def singleton_init_def)

lemma mutex_unique:
  "mutex_inv s \<Longrightarrow> holds_wptr_mtx (pcs s t) \<Longrightarrow> holds_wptr_mtx (pcs s u) \<Longrightarrow> t = u"
  unfolding mutex_inv_def by (metis option.inject)

lemmas singleton_updates = goto_def acquire_def release_def

text \<open>
  Most steps move a thread between places that the rest of the invariant does not name.
\<close>

fun calm :: "get_pc \<Rightarrow> bool" where
  "calm In_Wait = False"
| "calm In_New = False"
| "calm (Assigning m) = False"
| "calm (In_Delete m) = False"
| "calm In_Finish = False"
| "calm c = True"

lemma mutex_keep:
  assumes "mutex_inv s" "holds_wptr_mtx c = holds_wptr_mtx (pcs s t)"
    "pcs s' = (pcs s)(t := c)" "mgr_wptr_mtx s' = mgr_wptr_mtx s"
  shows "mutex_inv s'"
  using assms by (auto simp: mutex_inv_def)

lemma goto_mutex:
  assumes "mutex_inv s" "holds_wptr_mtx c = holds_wptr_mtx (pcs s t)"
  shows "mutex_inv (goto t c s)"
  using assms by (rule mutex_keep) (simp_all add: goto_def)

text \<open>The invariant depends on the program counters only by the places that it names.\<close>

lemma exists_inv_cong:
  assumes "\<And>u. (pcs s' u = In_Wait) = (pcs s u = In_Wait)" "\<And>u. (pcs s' u = In_New) = (pcs s u = In_New)"
    "\<And>u. (pcs s' u = In_Finish) = (pcs s u = In_Finish)"
    "mgr_exists s' = mgr_exists s" "objects s' = objects s" "dyn_singleton.made s' = dyn_singleton.made s"
  shows "exists_inv s' = exists_inv s"
  unfolding exists_inv_def assms ..

lemma owners_inv_cong:
  assumes "\<And>u m. (pcs s' u = In_Delete m) = (pcs s u = In_Delete m)"
    "\<And>u m. (pcs s' u = Assigning m) = (pcs s u = Assigning m)"
    "owners s' = owners s" "objects s' = objects s" "mgr_wptr s' = mgr_wptr s"
  shows "owners_inv s' = owners_inv s"
  unfolding owners_inv_def assms ..

lemma calm_goto_iff:
  assumes "calm c" "calm (pcs s t)" "\<not> calm d"
  shows "(pcs (goto t c s) u = d) = (pcs s u = d)"
  using assms by (auto simp: goto_def)

lemma goto_exists: "calm c \<Longrightarrow> calm (pcs s t) \<Longrightarrow> exists_inv (goto t c s) = exists_inv s"
  by (rule exists_inv_cong) (simp_all add: calm_goto_iff, simp_all add: goto_def)

lemma goto_owners: "calm c \<Longrightarrow> calm (pcs s t) \<Longrightarrow> owners_inv (goto t c s) = owners_inv s"
  by (rule owners_inv_cong) (simp_all add: calm_goto_iff, simp_all add: goto_def)

lemma goto_inv:
  assumes "singleton_inv s" "calm c" "calm (pcs s t)" "holds_wptr_mtx c = holds_wptr_mtx (pcs s t)"
  shows "singleton_inv (goto t c s)"
  using assms by (simp add: singleton_inv_def goto_mutex goto_exists goto_owners)

text \<open>A new pointer to the manager that \<open>mgr_wptr\<close> points to.\<close>

lemma acquire_inv:
  assumes "singleton_inv s" "(u, m) \<in># owners s" "mgr_wptr s = Some m"
  shows "singleton_inv (acquire t m s)"
proof -
  have o: "owners_inv s" using assms(1) by (simp add: singleton_inv_def)
  then have m: "m \<in> objects s" using assms(2) by (auto simp: owners_inv_def)
  have single: "objects s = {m}" using m assms(1) by (auto simp: singleton_inv_def exists_inv_def)
  have "owners_inv (acquire t m s)"
  proof -
    have "\<not> owners s = {#}" using assms(2) by auto
    then have "pcs s u \<noteq> In_Delete k" for u k using o by (simp add: owners_inv_def)
    then show ?thesis using o m single assms(3) by (auto simp: owners_inv_def acquire_def)
  qed
  moreover have "exists_inv (acquire t m s) = exists_inv s"
    by (rule exists_inv_cong) (simp_all add: acquire_def)
  moreover have "mutex_inv (acquire t m s) = mutex_inv s" by (simp add: mutex_inv_def acquire_def)
  ultimately show ?thesis using assms(1) by (simp add: singleton_inv_def)
qed

lemma get_step_inv:
  assumes "get_manager_ptr_step t s s'" and "singleton_inv s"
  shows "singleton_inv s'"
  using assms
proof (induction rule: get_manager_ptr_step.induct)
  case (get_call s t)
  then show ?case by (simp add: goto_inv)
next
  case (get_hit s t m)
  then have "singleton_inv (acquire t m s)" by (auto simp: wptr_lock_Some acquire_inv)
  then show ?case using get_hit(1) by (intro goto_inv) (simp_all add: acquire_def)
next
  case (get_miss s t)
  then show ?case by (simp add: goto_inv)
qed

text \<open>The lock and the unlocking of \<open>mgr_wptr_mtx\<close>.\<close>

lemma mutex_only:
  "exists_inv (s\<lparr>mgr_wptr_mtx := x\<rparr>) = exists_inv s" "owners_inv (s\<lparr>mgr_wptr_mtx := x\<rparr>) = owners_inv s"
  by (simp_all add: exists_inv_def owners_inv_def)

lemma lock_mutex:
  assumes "mutex_inv s" "mgr_wptr_mtx s = None" "holds_wptr_mtx c"
  shows "mutex_inv (goto t c (s\<lparr>mgr_wptr_mtx := Some t\<rparr>))"
  using assms by (auto simp: mutex_inv_def goto_def)

lemma unlock_mutex:
  assumes "mutex_inv s" "holds_wptr_mtx (pcs s t)" "\<not> holds_wptr_mtx c"
  shows "mutex_inv (goto t c (s\<lparr>mgr_wptr_mtx := None\<rparr>))"
  using assms by (auto simp: mutex_inv_def goto_def)

lemma owners_empty:
  assumes "owners_inv s" "objects s = {}"
  shows "owners s = {#}"
proof (rule ccontr)
  assume "owners s \<noteq> {#}"
  then obtain t m where "(t, m) \<in># owners s" by fastforce
  with assms show False by (auto simp: owners_inv_def)
qed

text \<open>The construction: \<open>objects\<close> is empty before it, and there is no pointer.\<close>

lemma make_new_inv:
  assumes "singleton_inv s" "pcs s t = In_New" "m = dyn_singleton.made s"
  shows "singleton_inv (goto t (Assigning m)
    (acquire t m (s\<lparr>objects := insert m (objects s), made := dyn_singleton.made s + 1\<rparr>)))" (is "singleton_inv ?s'")
proof -
  have inv: "mutex_inv s" "exists_inv s" "owners_inv s" using assms(1) by (simp_all add: singleton_inv_def)
  have e: "mgr_exists s" "objects s = {}" "\<forall>u. pcs s u \<noteq> In_Finish"
    using inv(2) assms(2) by (auto simp: exists_inv_def)
  have o: "owners s = {#}" using inv(3) e(2) by (rule owners_empty)
  have other: "u \<noteq> t \<Longrightarrow> pcs s u \<noteq> In_Wait \<and> pcs s u \<noteq> In_New \<and> pcs s u \<noteq> Assigning k \<and> pcs s u \<noteq> In_Delete k" for u k
    using mutex_unique [OF inv(1), of t u] assms(2) inv(3) e(2) by (auto simp: owners_inv_def)
  have "mutex_inv ?s'"
    using inv(1) by (rule mutex_keep [where t = t]) (simp_all add: assms(2) goto_def acquire_def)
  moreover have "exists_inv ?s'"
    using e other assms(3) by (simp add: exists_inv_def goto_def acquire_def)
  moreover have "owners_inv ?s'"
    using e(2) o other by (auto simp: owners_inv_def goto_def acquire_def)
  ultimately show ?thesis by (simp add: singleton_inv_def)
qed

lemma make_throw_inv:
  assumes "singleton_inv s" "pcs s t = In_New"
  shows "singleton_inv (goto t Outside (s\<lparr>mgr_wptr_mtx := None\<rparr>))" (is "singleton_inv ?s'")
proof -
  have inv: "mutex_inv s" "exists_inv s" "owners_inv s" using assms(1) by (simp_all add: singleton_inv_def)
  have "mutex_inv ?s'" using inv(1) assms(2) by (simp add: unlock_mutex)
  moreover have "exists_inv ?s'"
    using inv(2) assms(2) by (auto simp: exists_inv_def goto_def split: if_splits)
  moreover have "owners_inv ?s' = owners_inv s"
    by (rule owners_inv_cong) (use assms(2) in \<open>auto simp: goto_def\<close>)
  ultimately show ?thesis using inv(3) by (simp add: singleton_inv_def)
qed

lemma make_assign_inv:
  assumes "singleton_inv s" "pcs s t = Assigning m"
  shows "singleton_inv (goto t Returning (s\<lparr>mgr_wptr := Some m\<rparr>))" (is "singleton_inv ?s'")
proof -
  have inv: "mutex_inv s" "exists_inv s" "owners_inv s" using assms(1) by (simp_all add: singleton_inv_def)
  have own: "(t, m) \<in># owners s" using inv(3) assms(2) by (simp add: owners_inv_def)
  then have "m \<in> objects s" using inv(3) unfolding owners_inv_def by blast
  with inv(2) have obj: "objects s = {m}" by (auto simp: exists_inv_def)
  have "owners s \<noteq> {#}" using own by auto
  then have nodel: "pcs s u \<noteq> In_Delete k" for u k using inv(3) by (simp add: owners_inv_def)
  have other: "u \<noteq> t \<Longrightarrow> pcs s u \<noteq> Assigning k" for u k
    using mutex_unique [OF inv(1), of t u] assms(2) by auto
  have "mutex_inv ?s'"
    using inv(1) by (rule mutex_keep [where t = t]) (simp_all add: assms(2) goto_def)
  moreover have "exists_inv ?s' = exists_inv s"
    by (rule exists_inv_cong) (use assms(2) in \<open>auto simp: goto_def\<close>)
  moreover have "owners_inv ?s'"
  proof -
    have "owners ?s' = owners s" "objects ?s' = {m}" "mgr_wptr ?s' = Some m" using obj by (simp_all add: goto_def)
    moreover have "pcs ?s' u \<noteq> In_Delete k" "pcs ?s' u \<noteq> Assigning k" for u k
      using nodel other by (simp_all add: goto_def)
    moreover have "(u, k) \<in># owners s \<Longrightarrow> k = m" for u k
      using inv(3) obj by (auto simp: owners_inv_def)
    ultimately show ?thesis using \<open>owners s \<noteq> {#}\<close> by (simp add: owners_inv_def) blast
  qed
  ultimately show ?thesis using inv(2) by (simp add: singleton_inv_def)
qed

lemma calm_unlock_inv:
  assumes "singleton_inv s" "pcs s t = Returning"
  shows "singleton_inv (goto t Outside (s\<lparr>mgr_wptr_mtx := None\<rparr>))"
  using assms by (simp add: singleton_inv_def unlock_mutex goto_exists goto_owners mutex_only)

lemma make_step_inv:
  assumes "make_manager_ptr_step t s s'" and "singleton_inv s"
  shows "singleton_inv s'"
  using assms
proof (induction rule: make_manager_ptr_step.induct)
  case (make_lock s t)
  then show ?case by (simp add: singleton_inv_def lock_mutex goto_exists goto_owners mutex_only)
next
  case (make_hit s t m)
  then have "singleton_inv (acquire t m s)" by (auto simp: wptr_lock_Some acquire_inv)
  then show ?case using make_hit(1) by (intro goto_inv) (simp_all add: acquire_def)
next
  case (make_miss s t)
  then show ?case by (simp add: goto_inv)
next
  case (make_new s t m)
  then show ?case using make_new_inv [of s t m] by simp
next
  case (make_throw s t)
  then show ?case by (simp add: make_throw_inv)
next
  case (make_assign s t m)
  then show ?case by (simp add: make_assign_inv)
next
  case (make_return s t)
  then show ?case by (simp add: calm_unlock_inv)
qed

lemma start_step_inv:
  assumes "start_construction_step t s s'" and "singleton_inv s"
  shows "singleton_inv s'"
  using assms
proof (induction rule: start_construction_step.induct)
  case (start_wait s t)
  have "owners_inv (goto t In_Wait s) = owners_inv s"
    by (rule owners_inv_cong) (use start_wait(1) in \<open>auto simp: goto_def\<close>)
  moreover have "exists_inv (goto t In_Wait s)"
    using start_wait by (auto simp: singleton_inv_def exists_inv_def goto_def split: if_splits)
  ultimately show ?case using start_wait by (simp add: singleton_inv_def goto_mutex)
next
  case (start_spurious s t)
  have "owners_inv (goto t In_Start s) = owners_inv s"
    by (rule owners_inv_cong) (use start_spurious(1) in \<open>auto simp: goto_def\<close>)
  moreover have "exists_inv (goto t In_Start s)"
    using start_spurious by (auto simp: singleton_inv_def exists_inv_def goto_def split: if_splits)
  ultimately show ?case using start_spurious by (simp add: singleton_inv_def goto_mutex)
next
  case (start_set s t)
  let ?s' = "goto t In_New (s\<lparr>mgr_exists := True\<rparr>)"
  have "owners_inv ?s' = owners_inv s"
    by (rule owners_inv_cong) (use start_set(1) in \<open>auto simp: goto_def\<close>)
  moreover have "exists_inv ?s'"
    using start_set by (auto simp: singleton_inv_def exists_inv_def goto_def split: if_splits)
  moreover have "mutex_inv ?s'"
    by (rule mutex_keep [where s = s and t = t]) (use start_set in \<open>simp_all add: singleton_inv_def goto_def\<close>)
  ultimately show ?case using start_set by (simp add: singleton_inv_def)
qed

text \<open>The destruction: there is no pointer, and \<open>objects\<close> has the manager that is destroyed.\<close>

lemma delete_step_inv:
  assumes "deleter_step wk t s s'" and "singleton_inv s"
  shows "singleton_inv s'"
  using assms
proof (induction rule: deleter_step.induct)
  case (delete_manager s t m)
  let ?s' = "goto t In_Finish (s\<lparr>objects := objects s - {m}\<rparr>)"
  have inv: "mutex_inv s" "exists_inv s" "owners_inv s"
    using delete_manager(3) by (simp_all add: singleton_inv_def)
  have m: "m \<in> objects s" "owners s = {#}" "\<forall>u k. pcs s u = In_Delete k \<longrightarrow> u = t"
    using inv(3) delete_manager(1) unfolding owners_inv_def by blast+
  then have e: "objects s = {m}" "mgr_exists s" using inv(2) by (auto simp: exists_inv_def)
  then have f: "pcs s u \<noteq> In_New" "pcs s u \<noteq> In_Finish" for u using inv(2) by (auto simp: exists_inv_def)
  have "pcs s u \<noteq> Assigning k" for u k
    using inv(3) m(2) by (simp add: owners_inv_def)
  then have "owners_inv ?s'" using m e by (auto simp: owners_inv_def goto_def)
  moreover have "exists_inv ?s'" using e f by (simp add: exists_inv_def goto_def)
  moreover have "mutex_inv ?s'"
    using inv(1) by (rule mutex_keep [where t = t]) (simp_all add: delete_manager(1) goto_def)
  ultimately show ?case by (simp add: singleton_inv_def)
qed

text \<open>
  Only the thread that holds \<open>mgr_wptr_mtx\<close> can wait, so the notification of one thread is as good as
  one of all.
\<close>

lemma finish_inv:
  assumes "singleton_inv s" "pcs s t = In_Finish"
    and "\<forall>w. pcs s' w = (if w = t then Outside else if pcs s w = In_Wait then In_Start else pcs s w)"
    and "mgr_wptr_mtx s' = mgr_wptr_mtx s" "mgr_exists s' = False" "owners s' = owners s"
      "objects s' = objects s" "mgr_wptr s' = mgr_wptr s" "made s' = made s"
  shows "singleton_inv s'"
proof -
  have inv: "mutex_inv s" "exists_inv s" "owners_inv s" using assms(1) by (simp_all add: singleton_inv_def)
  have e: "objects s = {}" "\<And>u. pcs s u = In_Finish \<Longrightarrow> u = t" "pcs s u \<noteq> In_New" for u
    using inv(2) assms(2) unfolding exists_inv_def by blast+
  have "holds_wptr_mtx (pcs s' w) = holds_wptr_mtx (pcs s w)" for w using assms(2,3) by simp
  then have "mutex_inv s'" using inv(1) assms(4) by (simp add: mutex_inv_def)
  moreover have "exists_inv s'"
  proof -
    have "pcs s' w \<noteq> In_Wait" "pcs s' w \<noteq> In_New" "pcs s' w \<noteq> In_Finish" for w
      using e(2) [of w] e(3) [of w] assms(3) by auto
    then show ?thesis using e(1) assms(7) by (simp add: exists_inv_def)
  qed
  moreover have "owners_inv s' = owners_inv s"
    by (rule owners_inv_cong) (use assms in auto)
  ultimately show ?thesis using inv(3) by (simp add: singleton_inv_def)
qed

lemma finish_step_inv:
  assumes "finish_destruction_step t s s'" and "singleton_inv s"
  shows "singleton_inv s'"
  using assms
proof (induction rule: finish_destruction_step.induct)
  case (finish_notify s t u)
  have "pcs s w = In_Wait \<longleftrightarrow> w = u" for w
    using mutex_unique [of s w u] finish_notify by (auto simp: singleton_inv_def)
  moreover have "u \<noteq> t" using finish_notify(1,2) by auto
  ultimately have "\<forall>w. pcs (goto u In_Start (goto t Outside (s\<lparr>mgr_exists := False\<rparr>))) w =
      (if w = t then Outside else if pcs s w = In_Wait then In_Start else pcs s w)"
    by (simp add: goto_def)
  then show ?case by (rule finish_inv [OF finish_notify(3,1)]) (simp_all add: goto_def)
next
  case (finish_alone s t)
  then have "\<forall>w. pcs (goto t Outside (s\<lparr>mgr_exists := False\<rparr>)) w =
      (if w = t then Outside else if pcs s w = In_Wait then In_Start else pcs s w)"
    by (simp add: goto_def)
  then show ?case by (rule finish_inv [OF finish_alone(3,1)]) (simp_all add: goto_def)
qed

text \<open>
  Copies and drops of pointers: only the thread of \<open>make_manager_ptr\<close> has one before the assignment.
\<close>

lemma owner_known:
  assumes "singleton_inv s" "pcs s t = Outside" "(t, m) \<in># owners s"
  shows "objects s = {m}" "mgr_wptr s = Some m" "(u, k) \<in># owners s \<Longrightarrow> k = m" "pcs s u \<noteq> In_Delete k"
proof -
  have inv: "exists_inv s" "owners_inv s" using assms(1) by (simp_all add: singleton_inv_def)
  have m: "m \<in> objects s" using inv(2) assms(3) unfolding owners_inv_def by blast
  then show obj: "objects s = {m}" using inv(1) unfolding exists_inv_def by blast
  have "\<not> (\<exists>a. pcs s a = Assigning m \<and> (\<forall>x \<in># owners s. x = (a, m)))"
    using assms(2,3) by force
  then show "mgr_wptr s = Some m" using inv(2) m unfolding owners_inv_def by blast
  show "(u, k) \<in># owners s \<Longrightarrow> k = m" using inv(2) obj unfolding owners_inv_def by blast
  have "owners s \<noteq> {#}" using assms(3) by auto
  then show "pcs s u \<noteq> In_Delete k" using inv(2) unfolding owners_inv_def by blast
qed

lemma owners_inv_intro:
  assumes "objects s = {m}" "mgr_wptr s = Some m" "(owners s = {#}) = d"
    "\<And>u k. pcs s u = In_Delete k \<longleftrightarrow> u = t \<and> d \<and> k = m" "\<And>u k. (u, k) \<in># owners s \<Longrightarrow> k = m"
    "\<And>u k. pcs s u = Assigning k \<Longrightarrow> (u, k) \<in># owners s"
  shows "owners_inv s"
  using assms by (auto simp: owners_inv_def)

lemma release_inv:
  assumes "singleton_inv s" "pcs s t = Outside" "(t, m) \<in># owners s"
    and "c = Outside \<and> use_count m s \<noteq> 1 \<or> c = In_Delete m \<and> use_count m s = 1"
  shows "singleton_inv (goto t c (release t m s))" (is "singleton_inv ?s'")
proof -
  note known = owner_known [OF assms(1-3)]
  have inv: "mutex_inv s" "exists_inv s" "owners_inv s" using assms(1) by (simp_all add: singleton_inv_def)
  have all: "\<forall>u k. (u, k) \<in># owners s \<longrightarrow> k = m" using known(3) by blast
  have "mutex_inv ?s'"
    using inv(1) by (rule mutex_keep [where t = t]) (use assms(2,4) in \<open>auto simp: goto_def release_def\<close>)
  moreover have "exists_inv ?s' = exists_inv s"
    by (rule exists_inv_cong) (use assms(2,4) in \<open>auto simp: goto_def release_def\<close>)
  moreover have "owners_inv ?s'"
  proof -
    have own: "owners ?s' = owners s - {#(t, m)#}" "objects ?s' = {m}" "mgr_wptr ?s' = Some m"
      using known(1,2) by (simp_all add: goto_def release_def)
    have "(owners s - {#(t, m)#} = {#}) = (c = In_Delete m)"
      using assms(4) use_count_last [OF _ assms(3) all] use_count_other [OF _ assms(3) all] by auto
    moreover have "pcs ?s' u = In_Delete k \<longleftrightarrow> u = t \<and> c = In_Delete m \<and> k = m" for u k
      using known(4) assms(4) by (auto simp: goto_def release_def)
    moreover have "(u, k) \<in># owners s - {#(t, m)#} \<Longrightarrow> k = m" for u k
      using all by (meson in_diffD)
    moreover have "pcs ?s' u = Assigning k \<Longrightarrow> (u, k) \<in># owners s - {#(t, m)#}" for u k
    proof -
      assume "pcs ?s' u = Assigning k"
      then have u: "u \<noteq> t" "pcs s u = Assigning k" using assms(4) by (auto simp: goto_def release_def split: if_splits)
      then have "(u, k) \<in># owners s" using inv(3) by (simp add: owners_inv_def)
      with u(1) show ?thesis by (simp add: in_diff_count)
    qed
    ultimately show ?thesis using own by (intro owners_inv_intro [of _ m "c = In_Delete m" t]) simp_all
  qed
  ultimately show ?thesis using inv(2) by (simp add: singleton_inv_def)
qed

lemma ptr_step_inv:
  assumes "manager_ptr_step t s s'" and "singleton_inv s"
  shows "singleton_inv s'"
  using assms
proof (induction rule: manager_ptr_step.induct)
  case (ptr_copy s t m u)
  then show ?case by (auto intro: acquire_inv owner_known(2))
next
  case (ptr_drop s t m)
  have "goto t Outside (release t m s) = release t m s"
    using ptr_drop(1) by (simp add: goto_def release_def fun_upd_idem)
  then show ?case using release_inv [of s t m Outside] ptr_drop by simp
next
  case (ptr_drop_last s t m)
  then show ?case using release_inv [of s t m "In_Delete m"] by simp
qed

lemma singleton_step_inv: "singleton_step wk t s s' \<Longrightarrow> singleton_inv s \<Longrightarrow> singleton_inv s'"
  unfolding singleton_step_def
  by (elim disjE) (blast intro: get_step_inv make_step_inv start_step_inv finish_step_inv
      delete_step_inv ptr_step_inv)+

lemma singleton_reach_inv: "singleton_reach wk s s' \<Longrightarrow> singleton_inv s \<Longrightarrow> singleton_inv s'"
  by (induction rule: singleton_reach.induct) (auto intro: singleton_step_inv)

section \<open>Safety\<close>

abbreviation singleton_reachable :: "(nat \<Rightarrow> thread set) \<Rightarrow> dyn_singleton \<Rightarrow> bool" where
  "singleton_reachable wk s \<equiv> singleton_reach wk singleton_init s"

lemma reachable_singleton: "singleton_reachable wk s \<Longrightarrow> singleton_inv s"
  by (auto intro: singleton_reach_inv singleton_inv_init)

lemma reach_trans: "singleton_reach wk s' s'' \<Longrightarrow> singleton_reach wk s s' \<Longrightarrow> singleton_reach wk s s''"
  by (induction rule: singleton_reach.induct) (auto intro: reach_step)

text \<open>
  C15: However the threads interleave, there is never more than one manager, from the beginning of its
  construction to the end of its destruction; every shared pointer points to it, and while there is
  one no thread is in its destructor; when there is none, the thread that dropped the last is.
\<close>

theorem one_manager:
  assumes "singleton_reachable wk s"
  shows "card (objects s) \<le> 1
    \<and> (\<forall>t m. (t, m) \<in># owners s \<longrightarrow> objects s = {m} \<and> (\<forall>u k. pcs s u \<noteq> In_Delete k))
    \<and> (\<forall>m \<in> objects s. owners s = {#} \<longrightarrow> (\<exists>t. pcs s t = In_Delete m))
    \<and> (\<forall>t. pcs s t = In_New \<longrightarrow> objects s = {} \<and> (\<forall>u. pcs s u = In_New \<longrightarrow> u = t))"
proof -
  have inv: "mutex_inv s" "exists_inv s" "owners_inv s"
    using reachable_singleton [OF assms] by (simp_all add: singleton_inv_def)
  have obj: "m \<in> objects s \<Longrightarrow> objects s = {m}" for m using inv(2) unfolding exists_inv_def by blast
  then have "objects s = {} \<or> (\<exists>m. objects s = {m})" by blast
  then have "card (objects s) \<le> 1" by auto
  moreover have "(t, m) \<in># owners s \<Longrightarrow> objects s = {m} \<and> (\<forall>u k. pcs s u \<noteq> In_Delete k)" for t m
  proof -
    assume own: "(t, m) \<in># owners s"
    then have "owners s \<noteq> {#}" by auto
    with own show ?thesis using inv(3) obj unfolding owners_inv_def by blast
  qed
  moreover have "pcs s t = In_New \<Longrightarrow> objects s = {} \<and> (\<forall>u. pcs s u = In_New \<longrightarrow> u = t)" for t
    using inv(2) mutex_unique [OF inv(1), of _ t] unfolding exists_inv_def by auto
  ultimately show ?thesis using inv(3) unfolding owners_inv_def by blast
qed

text \<open>
  One notification is enough: at most one thread waits for the end of a destruction, and it never
  waits when there is nothing left to wait for.
\<close>

theorem notify_one_is_enough:
  assumes "singleton_reachable wk s" and "pcs s t = In_Wait"
  shows "mgr_exists s \<and> (\<forall>u. pcs s u = In_Wait \<longrightarrow> u = t)"
proof -
  have inv: "mutex_inv s" "exists_inv s"
    using reachable_singleton [OF assms(1)] by (simp_all add: singleton_inv_def)
  from assms(2) inv(2) have "mgr_exists s" unfolding exists_inv_def by blast
  with mutex_unique [OF inv(1), of _ t] assms(2) show ?thesis by simp
qed

text \<open>
  While some thread has the manager, \<open>get_manager_ptr\<close> returns a pointer to the same, at once and
  without a lock.
\<close>

theorem get_returns_current:
  assumes "singleton_reachable wk s" and "pcs s u = Outside" and "(u, m) \<in># owners s"
    and "pcs s t = In_Get" and "get_manager_ptr_step t s s'"
  shows "s' = goto t Outside (acquire t m s)"
proof -
  have "mgr_wptr s = Some m"
    using owner_known(2) [OF reachable_singleton [OF assms(1)] assms(2,3)] .
  then have "wptr_lock s = Some m" using assms(3) by (auto simp: wptr_lock_Some)
  with assms(5,4) show ?thesis by (cases rule: get_manager_ptr_step.cases) auto
qed

section \<open>Two ways to get stuck\<close>

lemmas singleton_step_rules = get_manager_ptr_step.cases make_manager_ptr_step.cases
  start_construction_step.cases finish_destruction_step.cases deleter_step.cases manager_ptr_step.cases

lemma no_owner_no_lock: "owners s = {#} \<Longrightarrow> wptr_lock s = None"
  by (simp add: wptr_lock_None)

text \<open>The flag is set, and there is nobody left who would reset it.\<close>

definition wedged :: "dyn_singleton \<Rightarrow> bool" where
  "wedged s \<longleftrightarrow> mgr_exists s \<and> objects s = {} \<and> owners s = {#}
     \<and> (\<forall>t m. pcs s t \<noteq> In_New \<and> pcs s t \<noteq> Assigning m \<and> pcs s t \<noteq> In_Delete m \<and> pcs s t \<noteq> In_Finish)"

lemma wedged_step:
  assumes "singleton_step wk t s s'" "wedged s"
  shows "wedged s'"
proof -
  have "wptr_lock s = None" using assms(2) by (simp add: wedged_def no_owner_no_lock)
  then show ?thesis
    using assms unfolding singleton_step_def
    by (elim disjE singleton_step_rules) (auto simp: wedged_def goto_def acquire_def)
qed

text \<open>
  If the constructor of the manager throws once, then no thread will ever have a manager again:
  \<open>mgr_exists\<close> stays set, and every later call waits for a destruction that cannot happen.
\<close>

theorem throwing_constructor_wedges:
  assumes "singleton_reachable wk s" and "pcs s t = In_New"
    and "singleton_reach wk (goto t Outside (s\<lparr>mgr_wptr_mtx := None\<rparr>)) s'"
  shows "mgr_exists s' \<and> objects s' = {} \<and> owners s' = {#}"
proof -
  let ?s1 = "goto t Outside (s\<lparr>mgr_wptr_mtx := None\<rparr>)"
  have inv: "mutex_inv s" "exists_inv s" "owners_inv s"
    using reachable_singleton [OF assms(1)] by (simp_all add: singleton_inv_def)
  have e: "mgr_exists s" "objects s = {}" "\<forall>u. pcs s u \<noteq> In_Finish"
    using inv(2) assms(2) unfolding exists_inv_def by blast+
  have "pcs s u \<noteq> In_Delete k" "pcs s u \<noteq> Assigning k" for u k
    using inv(3) e(2) owners_empty [OF inv(3) e(2)] by (auto simp: owners_inv_def)
  then have "wedged ?s1"
    using e owners_empty [OF inv(3) e(2)] mutex_unique [OF inv(1), of _ t] assms(2)
    by (auto simp: wedged_def goto_def)
  with assms(3) have "wedged s'" by (induction rule: singleton_reach.induct) (auto intro: wedged_step)
  then show ?thesis by (simp add: wedged_def)
qed

text \<open>Where a thread is stuck, when the manager is being destroyed: anywhere in these functions.\<close>

fun in_call :: "get_pc \<Rightarrow> bool" where
  "in_call In_Get = True"
| "in_call At_Mutex = True"
| "in_call Locked = True"
| "in_call In_Start = True"
| "in_call In_Wait = True"
| "in_call c = False"

definition joins_blocked :: "thread \<Rightarrow> nat \<Rightarrow> thread \<Rightarrow> dyn_singleton \<Rightarrow> bool" where
  "joins_blocked t m u s \<longleftrightarrow> pcs s t = In_Delete m \<and> (u = t \<or> in_call (pcs s u)) \<and> singleton_inv s"

lemma joins_blocked_state:
  assumes "joins_blocked t m u s"
  shows "owners s = {#}" "wptr_lock s = None" "mgr_exists s" "pcs s w \<noteq> In_Finish"
    "pcs s w = In_Delete k \<Longrightarrow> w = t" "pcs s w \<noteq> In_New" "pcs s w \<noteq> Assigning k" "pcs s t = In_Delete m"
    "pcs s u \<noteq> Outside"
proof -
  have inv: "exists_inv s" "owners_inv s" and t: "pcs s t = In_Delete m"
    using assms by (simp_all add: joins_blocked_def singleton_inv_def)
  show o: "owners s = {#}" using inv(2) t unfolding owners_inv_def by blast
  then show "wptr_lock s = None" by (rule no_owner_no_lock)
  have m: "m \<in> objects s" using inv(2) t unfolding owners_inv_def by blast
  then show "mgr_exists s" "pcs s w \<noteq> In_Finish" "pcs s w \<noteq> In_New"
    using inv(1) unfolding exists_inv_def by blast+
  show "pcs s w = In_Delete k \<Longrightarrow> w = t" using inv(2) t unfolding owners_inv_def by blast
  show "pcs s w \<noteq> Assigning k" using inv(2) o unfolding owners_inv_def by auto
  show "pcs s t = In_Delete m" by (rule t)
  show "pcs s u \<noteq> Outside" using assms t by (auto simp: joins_blocked_def)
qed

lemma joins_blocked_step:
  assumes "singleton_step wk w s s'" "joins_blocked t m u s" "u \<in> wk m"
  shows "joins_blocked t m u s'"
proof -
  note st = joins_blocked_state [OF assms(2)]
  have u: "u = t \<or> in_call (pcs s u)" using assms(2) by (simp add: joins_blocked_def)
  have "pcs s' t = In_Delete m \<and> (u = t \<or> in_call (pcs s' u))"
    using assms(1) unfolding singleton_step_def
  proof (elim disjE)
    assume "get_manager_ptr_step w s s'"
    then show ?thesis using st(2,8) u by cases (auto simp: goto_def)
  next
    assume "make_manager_ptr_step w s s'"
    then show ?thesis using st(2,6,7,8) u by cases (auto simp: goto_def acquire_def)
  next
    assume "start_construction_step w s s'"
    then show ?thesis using st(3,8) u by cases (auto simp: goto_def)
  next
    assume "finish_destruction_step w s s'"
    then show ?thesis using st(4) by cases auto
  next
    assume "deleter_step wk w s s'"
    then show ?thesis
    proof cases
      case (delete_manager k)
      then have "k = m" using st(5,8) by fastforce
      then show ?thesis using delete_manager assms(3) st(9) by blast
    qed
  next
    assume "manager_ptr_step w s s'"
    then show ?thesis using st(1) by cases auto
  qed
  moreover have "singleton_inv s'"
    using assms(1,2) singleton_step_inv by (auto simp: joins_blocked_def)
  ultimately show ?thesis by (simp add: joins_blocked_def)
qed


section \<open>Progress\<close>

text \<open>
  The steps that a thread inside these functions takes to its return: every step of a thread that is
  neither outside nor waiting, but for the exception of the constructor.
\<close>

definition inner_step :: "(nat \<Rightarrow> thread set) \<Rightarrow> thread \<Rightarrow> dyn_singleton \<Rightarrow> dyn_singleton \<Rightarrow> bool" where
  "inner_step wk t s s' \<longleftrightarrow> singleton_step wk t s s' \<and> pcs s t \<noteq> Outside \<and> pcs s t \<noteq> In_Wait
     \<and> \<not> (pcs s t = In_New \<and> pcs s' t = Outside)"

definition workers_outside :: "(nat \<Rightarrow> thread set) \<Rightarrow> dyn_singleton \<Rightarrow> bool" where
  "workers_outside wk s \<longleftrightarrow> (\<forall>m. \<forall>u \<in> wk m. pcs s u = Outside)"

text \<open>How many more steps a thread takes, at most; each return can wake one thread.\<close>

fun get_weight :: "get_pc \<Rightarrow> nat" where
  "get_weight Outside = 0"
| "get_weight In_Get = 9"
| "get_weight At_Mutex = 8"
| "get_weight Locked = 7"
| "get_weight In_Start = 6"
| "get_weight In_Wait = 5"
| "get_weight In_New = 4"
| "get_weight (Assigning m) = 3"
| "get_weight Returning = 1"
| "get_weight (In_Delete m) = 3"
| "get_weight In_Finish = 2"

definition busy :: "dyn_singleton \<Rightarrow> thread set" where
  "busy s = {t. pcs s t \<noteq> Outside}"

definition total_weight :: "thread set \<Rightarrow> dyn_singleton \<Rightarrow> nat" where
  "total_weight A s = (\<Sum>t\<in>A. get_weight (pcs s t))"

lemma busy_goto: "busy (goto t c s) \<subseteq> insert t (busy s)"
  by (auto simp: busy_def goto_def)

lemma busy_step: "singleton_step wk t s s' \<Longrightarrow> \<exists>u. busy s' \<subseteq> {t, u} \<union> busy s"
  unfolding singleton_step_def
  by (elim disjE singleton_step_rules) (auto simp: busy_def goto_def acquire_def release_def split: if_splits)

lemma reach_finite_busy: "singleton_reach wk s s' \<Longrightarrow> finite (busy s) \<Longrightarrow> finite (busy s')"
proof (induction rule: singleton_reach.induct)
  case (reach_step s s' t s'')
  then obtain u where "busy s'' \<subseteq> {t, u} \<union> busy s'" using busy_step by blast
  then show ?case using reach_step.IH [OF reach_step.prems] by (simp add: finite_subset)
qed

lemma finite_busy: "singleton_reachable wk s \<Longrightarrow> finite (busy s)"
  by (erule reach_finite_busy) (simp add: busy_def singleton_init_def)

lemma total_weight_goto:
  assumes "finite A" "t \<in> A"
  shows "total_weight A (goto t c s) + get_weight (pcs s t) = total_weight A s + get_weight c"
  using assms by (simp add: total_weight_def goto_def sum.remove [of A t])

lemma total_weight_cong: "pcs s' = pcs s \<Longrightarrow> total_weight A s' = total_weight A s"
  by (simp add: total_weight_def)


text \<open>A thread waits, or is about to find out whether it has to, only when there is no pointer left.\<close>

definition waiting_inv :: "dyn_singleton \<Rightarrow> bool" where
  "waiting_inv s \<longleftrightarrow> (\<forall>t. pcs s t = In_Start \<or> pcs s t = In_Wait \<longrightarrow> owners s = {#})"

lemma locked_no_owner:
  assumes "singleton_inv s" "pcs s t = Locked" "wptr_lock s = None"
  shows "owners s = {#}"
proof (rule ccontr)
  assume "owners s \<noteq> {#}"
  then obtain u m where um: "(u, m) \<in># owners s" by fastforce
  have inv: "mutex_inv s" "owners_inv s" using assms(1) by (simp_all add: singleton_inv_def)
  have "mgr_wptr s \<noteq> Some m" using assms(3) um by (auto simp: wptr_lock_None)
  moreover have "m \<in> objects s" using inv(2) um unfolding owners_inv_def by blast
  ultimately obtain a where "pcs s a = Assigning m" using inv(2) unfolding owners_inv_def by blast
  with mutex_unique [OF inv(1), of a t] assms(2) show False by auto
qed

lemma waiting_step:
  assumes "singleton_step wk t s s'" "singleton_inv s" "waiting_inv s"
  shows "waiting_inv s'"
  using assms(1) unfolding singleton_step_def
proof (elim disjE)
  assume "get_manager_ptr_step t s s'"
  then show ?thesis
    using assms(3) by cases (auto simp: waiting_inv_def goto_def acquire_def wptr_lock_Some split: if_splits)
next
  assume m: "make_manager_ptr_step t s s'"
  have "pcs s t = In_New \<Longrightarrow> pcs s u \<noteq> In_Start \<and> pcs s u \<noteq> In_Wait" for u
    using mutex_unique [of s u t] assms(2) by (cases "u = t") (auto simp: singleton_inv_def)
  with m show ?thesis
    using assms(3) locked_no_owner [OF assms(2), of t]
    by cases (auto simp: waiting_inv_def goto_def acquire_def wptr_lock_Some split: if_splits)
next
  assume "start_construction_step t s s'"
  then show ?thesis using assms(3) by cases (auto simp: waiting_inv_def goto_def split: if_splits)
next
  assume "finish_destruction_step t s s'"
  then show ?thesis using assms(3) by cases (auto simp: waiting_inv_def goto_def split: if_splits)
next
  assume "deleter_step wk t s s'"
  then show ?thesis using assms(3) by cases (auto simp: waiting_inv_def goto_def split: if_splits)
next
  assume "manager_ptr_step t s s'"
  then show ?thesis
    using assms(3) by cases (auto simp: waiting_inv_def goto_def acquire_def release_def split: if_splits)
qed

lemma reach_waiting:
  "singleton_reach wk s s' \<Longrightarrow> singleton_inv s \<Longrightarrow> waiting_inv s \<Longrightarrow> waiting_inv s'"
  by (induction rule: singleton_reach.induct) (auto intro: waiting_step singleton_reach_inv)

text \<open>The threads that can take a step: all but those outside, at the mutex and waiting.\<close>

fun movable :: "get_pc \<Rightarrow> bool" where
  "movable Outside = False"
| "movable At_Mutex = False"
| "movable In_Wait = False"
| "movable c = True"

lemmas singleton_step_intros = get_manager_ptr_step.intros make_manager_ptr_step.intros
  start_construction_step.intros finish_destruction_step.intros deleter_step.intros

lemma movable_step:
  assumes "movable (pcs s t)" "workers_outside wk s"
  shows "\<exists>s'. inner_step wk t s s'"
proof (cases "pcs s t")
  case In_Get
  then show ?thesis unfolding inner_step_def singleton_step_def
    by (cases "wptr_lock s") (auto intro: get_manager_ptr_step.intros)
next
  case Locked
  then show ?thesis unfolding inner_step_def singleton_step_def
    by (cases "wptr_lock s") (auto intro: make_manager_ptr_step.intros)
next
  case In_Start
  then show ?thesis unfolding inner_step_def singleton_step_def
    by (cases "mgr_exists s") (auto intro: start_construction_step.intros)
next
  case In_New
  then have "make_manager_ptr_step t s (goto t (Assigning (made s)) (acquire t (made s)
      (s\<lparr>objects := insert (made s) (objects s), made := made s + 1\<rparr>)))" by (rule make_new) simp
  then show ?thesis using In_New unfolding inner_step_def singleton_step_def
    by (intro exI conjI) (auto simp: goto_def)
next
  case (Assigning m)
  then show ?thesis unfolding inner_step_def singleton_step_def
    by (auto intro: make_manager_ptr_step.intros)
next
  case Returning
  then show ?thesis unfolding inner_step_def singleton_step_def
    by (auto intro: make_manager_ptr_step.intros)
next
  case (In_Delete m)
  then show ?thesis using assms(2) unfolding inner_step_def singleton_step_def workers_outside_def
    by (auto intro: deleter_step.intros)
next
  case In_Finish
  then show ?thesis unfolding inner_step_def singleton_step_def
    by (cases "\<exists>u. pcs s u = In_Wait") (auto intro: finish_destruction_step.intros)
qed (use assms(1) in simp_all)

lemma holder_progress:
  assumes "singleton_inv s" "waiting_inv s" "\<not> wedged s" "workers_outside wk s" "holds_wptr_mtx (pcs s h)"
  shows "\<exists>u s'. inner_step wk u s s'"
proof (cases "pcs s h = In_Wait")
  case False
  then have "movable (pcs s h)" using assms(5) by (cases "pcs s h") auto
  then show ?thesis using movable_step assms(4) by blast
next
  case True
  then have o: "owners s = {#}" "mgr_exists s"
    using assms(1,2) by (auto simp: waiting_inv_def singleton_inv_def exists_inv_def)
  have "\<exists>u. movable (pcs s u)"
  proof (cases "objects s = {}")
    case True
    then obtain u where "pcs s u = In_New \<or> (\<exists>m. pcs s u = Assigning m) \<or> (\<exists>m. pcs s u = In_Delete m)
        \<or> pcs s u = In_Finish"
      using assms(3) o unfolding wedged_def by blast
    then have "movable (pcs s u)" by auto
    then show ?thesis ..
  next
    case False
    then obtain u m where "pcs s u = In_Delete m"
      using assms(1) o(1) unfolding singleton_inv_def owners_inv_def by blast
    then have "movable (pcs s u)" by simp
    then show ?thesis ..
  qed
  then show ?thesis using movable_step assms(4) by blast
qed

lemma some_progress:
  assumes "singleton_inv s" "waiting_inv s" "\<not> wedged s" "workers_outside wk s" "pcs s t \<noteq> Outside"
  shows "\<exists>u s'. inner_step wk u s s'"
proof (cases "movable (pcs s t)")
  case True
  then show ?thesis using movable_step assms(4) by blast
next
  case False
  show ?thesis
  proof (cases "mgr_wptr_mtx s")
    case None
    then have "\<not> holds_wptr_mtx (pcs s t)" using assms(1) by (simp add: singleton_inv_def mutex_inv_def)
    then have "pcs s t = At_Mutex" using False assms(5) by (cases "pcs s t") auto
    then have "inner_step wk t s (goto t Locked (s\<lparr>mgr_wptr_mtx := Some t\<rparr>))"
      using make_lock [of s t] None by (simp add: inner_step_def singleton_step_def)
    then show ?thesis by blast
  next
    case (Some h)
    then have "holds_wptr_mtx (pcs s h)" using assms(1) by (simp add: singleton_inv_def mutex_inv_def)
    then show ?thesis using holder_progress [OF assms(1-4)] by blast
  qed
qed

text \<open>What a thread that has asked for the manager is promised: a pointer, if it is no longer asking.\<close>

definition promised :: "thread \<Rightarrow> dyn_singleton \<Rightarrow> bool" where
  "promised t s \<longleftrightarrow> in_call (pcs s t) \<or> pcs s t = In_New \<or> (\<exists>m. (t, m) \<in># owners s)"

lemma inner_step_promised:
  assumes "inner_step wk u s s'" "promised t s"
  shows "promised t s'"
proof -
  have step: "singleton_step wk u s s'" "pcs s u \<noteq> Outside" "pcs s u \<noteq> In_Wait"
    "\<not> (pcs s u = In_New \<and> pcs s' u = Outside)" using assms(1) by (simp_all add: inner_step_def)
  from step(1) show ?thesis unfolding singleton_step_def
  proof (elim disjE)
    assume "get_manager_ptr_step u s s'"
    then show ?thesis using assms(2) step(2) by cases (auto simp: promised_def goto_def acquire_def)
  next
    assume "make_manager_ptr_step u s s'"
    then show ?thesis using assms(2) step(4) by cases (auto simp: promised_def goto_def acquire_def)
  next
    assume "start_construction_step u s s'"
    then show ?thesis using assms(2) by cases (auto simp: promised_def goto_def)
  next
    assume "finish_destruction_step u s s'"
    then show ?thesis using assms(2) by cases (auto simp: promised_def goto_def)
  next
    assume "deleter_step wk u s s'"
    then show ?thesis using assms(2) by cases (auto simp: promised_def goto_def)
  next
    assume "manager_ptr_step u s s'"
    then show ?thesis using step(2) by cases auto
  qed
qed

lemma inner_step_not_wedged:
  assumes "inner_step wk u s s'" "singleton_inv s" "\<not> wedged s"
  shows "\<not> wedged s'"
proof -
  have step: "singleton_step wk u s s'" "pcs s u \<noteq> Outside" "pcs s u \<noteq> In_Wait"
    "\<not> (pcs s u = In_New \<and> pcs s' u = Outside)" using assms(1) by (simp_all add: inner_step_def)
  have plain: "wedged (goto u c s1) = wedged s"
    if "mgr_exists s1 = mgr_exists s" "objects s1 = objects s" "owners s1 = owners s" "pcs s1 = pcs s"
      "calm (pcs s u)" "calm c \<or> c = In_Wait" for c s1
    using that by (auto simp: wedged_def goto_def)
  from step(1) show ?thesis unfolding singleton_step_def
  proof (elim disjE)
    assume "get_manager_ptr_step u s s'"
    then show ?thesis
      using assms(3) by cases (auto simp: plain, auto simp: wedged_def goto_def acquire_def)
  next
    assume "make_manager_ptr_step u s s'"
    then show ?thesis
    proof cases
      case (make_assign m)
      then have "(u, m) \<in># owners s" using assms(2) by (simp add: singleton_inv_def owners_inv_def)
      then show ?thesis using make_assign by (auto simp: wedged_def goto_def)
    qed (use assms(3) step(4) in \<open>auto simp: plain, auto simp: wedged_def goto_def acquire_def\<close>)
  next
    assume "start_construction_step u s s'"
    then show ?thesis
    proof cases
      case start_set
      then have "pcs s' u = In_New" by (simp add: goto_def)
      then show ?thesis unfolding wedged_def by blast
    qed (use assms(3) step(3) in \<open>auto simp: plain\<close>)
  next
    assume "finish_destruction_step u s s'"
    then show ?thesis by cases (auto simp: wedged_def goto_def)
  next
    assume "deleter_step wk u s s'"
    then show ?thesis by cases (auto simp: wedged_def goto_def)
  next
    assume "manager_ptr_step u s s'"
    then show ?thesis using step(2) by cases auto
  qed
qed

lemma workers_stay_outside:
  "workers_outside wk s \<Longrightarrow> busy s' \<subseteq> busy s \<Longrightarrow> workers_outside wk s'"
  unfolding workers_outside_def busy_def by blast


section \<open>A run\<close>

text \<open>
  The first thread makes a manager; a second thread asks for it while the first drops it, and waits.
\<close>

lemma singleton_step_parts:
  "get_manager_ptr_step t s s' \<Longrightarrow> singleton_step wk t s s'"
  "make_manager_ptr_step t s s' \<Longrightarrow> singleton_step wk t s s'"
  "start_construction_step t s s' \<Longrightarrow> singleton_step wk t s s'"
  "manager_ptr_step t s s' \<Longrightarrow> singleton_step wk t s s'"
  by (simp_all add: singleton_step_def)

lemmas reach_get = reach_step [OF _ singleton_step_parts(1)]
lemmas reach_make = reach_step [OF _ singleton_step_parts(2)]
lemmas reach_start = reach_step [OF _ singleton_step_parts(3)]
lemmas reach_ptr = reach_step [OF _ singleton_step_parts(4)]

lemmas run_simps = goto_def acquire_def release_def singleton_init_def wptr_lock_def use_count_def

definition demo_new :: dyn_singleton where
  "demo_new = \<lparr>mgr_wptr = None, mgr_wptr_mtx = Some 0, mgr_exists = True, owners = {#},
     objects = {}, made = 0, pcs = (\<lambda>_. Outside)(0 := In_New)\<rparr>"

definition demo_got :: dyn_singleton where
  "demo_got = \<lparr>mgr_wptr = Some 0, mgr_wptr_mtx = None, mgr_exists = True, owners = {#(0, 0)#},
     objects = {0}, made = 1, pcs = (\<lambda>_. Outside)\<rparr>"

definition demo_asking :: dyn_singleton where
  "demo_asking = demo_got\<lparr>pcs := (\<lambda>_. Outside)(1 := In_Get)\<rparr>"

definition demo_dying :: dyn_singleton where
  "demo_dying = demo_got\<lparr>owners := {#}, pcs := (\<lambda>_. Outside)(0 := In_Delete 0, 1 := In_Get)\<rparr>"

definition demo_waiting :: dyn_singleton where
  "demo_waiting = demo_dying\<lparr>mgr_wptr_mtx := Some 1, pcs := (\<lambda>_. Outside)(0 := In_Delete 0, 1 := In_Wait)\<rparr>"

lemma demo_new_reachable: "singleton_reachable wk demo_new"
proof -
  let ?a = "goto 0 In_Get singleton_init"
  let ?b = "goto 0 At_Mutex ?a"
  let ?c = "goto 0 Locked (?b\<lparr>mgr_wptr_mtx := Some 0\<rparr>)"
  let ?d = "goto 0 In_Start ?c"
  let ?e = "goto 0 In_New (?d\<lparr>mgr_exists := True\<rparr>)"
  have "singleton_reachable wk ?a" by (rule reach_get [OF reach_refl get_call]) (simp add: run_simps)
  then have "singleton_reachable wk ?b" by (rule reach_get [OF _ get_miss]) (simp_all add: run_simps)
  then have "singleton_reachable wk ?c" by (rule reach_make [OF _ make_lock]) (simp_all add: run_simps)
  then have "singleton_reachable wk ?d" by (rule reach_make [OF _ make_miss]) (simp_all add: run_simps)
  then have "singleton_reachable wk ?e" by (rule reach_start [OF _ start_set]) (simp_all add: run_simps)
  moreover have "?e = demo_new" by (simp add: demo_new_def run_simps)
  ultimately show ?thesis by simp
qed

lemma demo_got_reachable: "singleton_reachable wk demo_got"
proof -
  let ?a = "goto 0 (Assigning 0) (acquire 0 0 (demo_new\<lparr>objects := insert 0 (objects demo_new),
    made := made demo_new + 1\<rparr>))"
  let ?b = "goto 0 Returning (?a\<lparr>mgr_wptr := Some 0\<rparr>)"
  let ?c = "goto 0 Outside (?b\<lparr>mgr_wptr_mtx := None\<rparr>)"
  have "singleton_reachable wk ?a"
    by (rule reach_make [OF demo_new_reachable make_new]) (simp_all add: demo_new_def)
  then have "singleton_reachable wk ?b" by (rule reach_make [OF _ make_assign]) (simp add: run_simps)
  then have "singleton_reachable wk ?c" by (rule reach_make [OF _ make_return]) (simp add: run_simps)
  moreover have "?c = demo_got" by (simp add: demo_got_def demo_new_def run_simps fun_eq_iff)
  ultimately show ?thesis by simp
qed

lemma demo_asking_reachable: "singleton_reachable wk demo_asking"
proof -
  have "singleton_reachable wk (goto 1 In_Get demo_got)"
    by (rule reach_get [OF demo_got_reachable get_call]) (simp add: demo_got_def)
  then show ?thesis by (simp add: demo_asking_def demo_got_def goto_def)
qed

lemma demo_dying_reachable: "singleton_reachable wk demo_dying"
proof -
  have "singleton_reachable wk (goto 0 (In_Delete 0) (release 0 0 demo_asking))"
    by (rule reach_ptr [OF demo_asking_reachable ptr_drop_last])
      (simp_all add: demo_asking_def demo_got_def use_count_def)
  moreover have "goto 0 (In_Delete 0) (release 0 0 demo_asking) = demo_dying"
    by (simp add: demo_dying_def demo_asking_def demo_got_def run_simps fun_eq_iff)
  ultimately show ?thesis by simp
qed

lemma demo_dying_waiting: "singleton_reach wk demo_dying demo_waiting"
proof -
  let ?b = "goto 1 At_Mutex demo_dying"
  let ?c = "goto 1 Locked (?b\<lparr>mgr_wptr_mtx := Some 1\<rparr>)"
  let ?d = "goto 1 In_Start ?c"
  let ?e = "goto 1 In_Wait ?d"
  note demo = demo_dying_def demo_got_def run_simps
  have "singleton_reach wk demo_dying ?b"
    by (rule reach_get [OF reach_refl get_miss]) (simp_all add: demo)
  then have "singleton_reach wk demo_dying ?c" by (rule reach_make [OF _ make_lock]) (simp_all add: demo)
  then have "singleton_reach wk demo_dying ?d" by (rule reach_make [OF _ make_miss]) (simp_all add: demo)
  then have "singleton_reach wk demo_dying ?e" by (rule reach_start [OF _ start_wait]) (simp_all add: demo)
  moreover have "?e = demo_waiting" by (simp add: demo_waiting_def demo fun_eq_iff)
  ultimately show ?thesis by simp
qed

lemma demo_waiting_reachable: "singleton_reachable wk demo_waiting"
  using reach_trans [OF demo_dying_waiting demo_dying_reachable] .

section \<open>The theorems on this run\<close>

theorem one_manager_witness:
  "card (objects demo_got) \<le> 1 \<and> (0, 0) \<in># owners demo_got \<and> (\<forall>u k. pcs demo_got u \<noteq> In_Delete k)"
proof -
  have own: "(0, 0) \<in># owners demo_got" by (simp add: demo_got_def)
  note one = one_manager [OF demo_got_reachable [of "\<lambda>_. {1}"]]
  from one have "card (objects demo_got) \<le> 1" by (rule conjunct1)
  moreover from one own have "\<forall>u k. pcs demo_got u \<noteq> In_Delete k" by blast
  ultimately show ?thesis using own by blast
qed

theorem notify_one_is_enough_witness:
  "mgr_exists demo_waiting \<and> (\<forall>u. pcs demo_waiting u = In_Wait \<longrightarrow> u = 1)"
  by (rule notify_one_is_enough [OF demo_waiting_reachable [of "\<lambda>_. {1}"]]) (simp add: demo_waiting_def)

theorem get_returns_current_witness:
  "\<exists>s'. get_manager_ptr_step 1 demo_asking s' \<and> s' = goto 1 Outside (acquire 1 0 demo_asking)"
proof -
  have "get_manager_ptr_step 1 demo_asking (goto 1 Outside (acquire 1 0 demo_asking))"
    by (rule get_hit) (simp_all add: demo_asking_def demo_got_def wptr_lock_def use_count_def)
  moreover from this have "goto 1 Outside (acquire 1 0 demo_asking) = goto 1 Outside (acquire 1 0 demo_asking)"
    by (intro get_returns_current [OF demo_asking_reachable [of "\<lambda>_. {1}"], of 0])
      (simp_all add: demo_asking_def demo_got_def)
  ultimately show ?thesis by blast
qed

theorem throwing_constructor_wedges_witness:
  "mgr_exists (goto 0 Outside (demo_new\<lparr>mgr_wptr_mtx := None\<rparr>))
    \<and> owners (goto 0 Outside (demo_new\<lparr>mgr_wptr_mtx := None\<rparr>)) = {#}"
  using throwing_constructor_wedges [OF demo_new_reachable [of "\<lambda>_. {1}"] _ reach_refl, of 0]
  by (simp add: demo_new_def)




end
