(* ===== verification/Callback_Classes.thy ===== *)
theory Callback_Classes
  imports Callback
begin

text \<open>
  The classes of \<open>include/rpcz/callback.hpp\<close>: for every number of arguments from 0 to 7 a closure
  over a function and one over a method of an object, with the two overloads of \<open>new_callback\<close>
  and of \<open>new_permanent_callback\<close>. A function is what calling it does to the state \<open>'s\<close>; a method
  takes the object first. \<open>delete this\<close> is the parameter \<open>delete_this\<close>. The last section shows that
  every class is the closure of the theory \<open>Callback\<close> over the call with its arguments bound.
\<close>

section \<open>No arguments\<close>

record 's function_closure_0 =
  fc0_function :: "'s \<Rightarrow> 's result"
  fc0_self_deleting :: bool

definition new_function_closure_0 ::
  "('s \<Rightarrow> 's result) \<Rightarrow> bool \<Rightarrow> 's function_closure_0" where
  "new_function_closure_0 fn self_del =
     \<lparr>fc0_function = fn, fc0_self_deleting = self_del\<rparr>"

definition function_closure_0_run ::
  "('s \<Rightarrow> 's) \<Rightarrow> 's function_closure_0 \<Rightarrow> 's \<Rightarrow> 's result" where
  "function_closure_0_run delete_this c st =
     (let needs_delete = fc0_self_deleting c
      in bindE (fc0_function c st) (\<lambda>st.
         Inr (if needs_delete then delete_this st else st)))"

record 's method_closure_0 =
  mc0_object :: ptr
  mc0_method :: "ptr \<Rightarrow> 's \<Rightarrow> 's result"
  mc0_self_deleting :: bool

definition new_method_closure_0 ::
  "ptr \<Rightarrow> (ptr \<Rightarrow> 's \<Rightarrow> 's result) \<Rightarrow> bool \<Rightarrow> 's method_closure_0" where
  "new_method_closure_0 obj meth self_del =
     \<lparr>mc0_object = obj, mc0_method = meth, mc0_self_deleting = self_del\<rparr>"

definition method_closure_0_run ::
  "('s \<Rightarrow> 's) \<Rightarrow> 's method_closure_0 \<Rightarrow> 's \<Rightarrow> 's result" where
  "method_closure_0_run delete_this c st =
     (let needs_delete = mc0_self_deleting c
      in bindE (mc0_method c (mc0_object c) st) (\<lambda>st.
         Inr (if needs_delete then delete_this st else st)))"

definition new_callback_function0 ::
  "('s \<Rightarrow> 's result) \<Rightarrow> 's function_closure_0" where
  "new_callback_function0 fn =
     new_function_closure_0 fn True"

definition new_permanent_callback_function0 ::
  "('s \<Rightarrow> 's result) \<Rightarrow> 's function_closure_0" where
  "new_permanent_callback_function0 fn =
     new_function_closure_0 fn False"

definition new_callback_method0 ::
  "ptr \<Rightarrow> (ptr \<Rightarrow> 's \<Rightarrow> 's result) \<Rightarrow> 's method_closure_0" where
  "new_callback_method0 obj meth =
     new_method_closure_0 obj meth True"

definition new_permanent_callback_method0 ::
  "ptr \<Rightarrow> (ptr \<Rightarrow> 's \<Rightarrow> 's result) \<Rightarrow> 's method_closure_0" where
  "new_permanent_callback_method0 obj meth =
     new_method_closure_0 obj meth False"

section \<open>One argument\<close>

record ('s, 'a1) function_closure_1 =
  fc1_function :: "'a1 \<Rightarrow> 's \<Rightarrow> 's result"
  fc1_self_deleting :: bool
  fc1_arg1 :: 'a1

definition new_function_closure_1 ::
  "('a1 \<Rightarrow> 's \<Rightarrow> 's result) \<Rightarrow> bool \<Rightarrow> 'a1 \<Rightarrow> ('s, 'a1) function_closure_1" where
  "new_function_closure_1 fn self_del arg1 =
     \<lparr>fc1_function = fn, fc1_self_deleting = self_del, fc1_arg1 = arg1\<rparr>"

definition function_closure_1_run ::
  "('s \<Rightarrow> 's) \<Rightarrow> ('s, 'a1) function_closure_1 \<Rightarrow> 's \<Rightarrow> 's result" where
  "function_closure_1_run delete_this c st =
     (let needs_delete = fc1_self_deleting c
      in bindE (fc1_function c (fc1_arg1 c) st) (\<lambda>st.
         Inr (if needs_delete then delete_this st else st)))"

record ('s, 'a1) method_closure_1 =
  mc1_object :: ptr
  mc1_method :: "ptr \<Rightarrow> 'a1 \<Rightarrow> 's \<Rightarrow> 's result"
  mc1_self_deleting :: bool
  mc1_arg1 :: 'a1

definition new_method_closure_1 ::
  "ptr \<Rightarrow> (ptr \<Rightarrow> 'a1 \<Rightarrow> 's \<Rightarrow> 's result) \<Rightarrow> bool \<Rightarrow> 'a1 \<Rightarrow> ('s, 'a1) method_closure_1" where
  "new_method_closure_1 obj meth self_del arg1 =
     \<lparr>mc1_object = obj, mc1_method = meth, mc1_self_deleting = self_del, mc1_arg1 = arg1\<rparr>"

definition method_closure_1_run ::
  "('s \<Rightarrow> 's) \<Rightarrow> ('s, 'a1) method_closure_1 \<Rightarrow> 's \<Rightarrow> 's result" where
  "method_closure_1_run delete_this c st =
     (let needs_delete = mc1_self_deleting c
      in bindE (mc1_method c (mc1_object c) (mc1_arg1 c) st) (\<lambda>st.
         Inr (if needs_delete then delete_this st else st)))"

definition new_callback_function1 ::
  "('a1 \<Rightarrow> 's \<Rightarrow> 's result) \<Rightarrow> 'a1 \<Rightarrow> ('s, 'a1) function_closure_1" where
  "new_callback_function1 fn arg1 =
     new_function_closure_1 fn True arg1"

definition new_permanent_callback_function1 ::
  "('a1 \<Rightarrow> 's \<Rightarrow> 's result) \<Rightarrow> 'a1 \<Rightarrow> ('s, 'a1) function_closure_1" where
  "new_permanent_callback_function1 fn arg1 =
     new_function_closure_1 fn False arg1"

definition new_callback_method1 ::
  "ptr \<Rightarrow> (ptr \<Rightarrow> 'a1 \<Rightarrow> 's \<Rightarrow> 's result) \<Rightarrow> 'a1 \<Rightarrow> ('s, 'a1) method_closure_1" where
  "new_callback_method1 obj meth arg1 =
     new_method_closure_1 obj meth True arg1"

definition new_permanent_callback_method1 ::
  "ptr \<Rightarrow> (ptr \<Rightarrow> 'a1 \<Rightarrow> 's \<Rightarrow> 's result) \<Rightarrow> 'a1 \<Rightarrow> ('s, 'a1) method_closure_1" where
  "new_permanent_callback_method1 obj meth arg1 =
     new_method_closure_1 obj meth False arg1"

section \<open>Two arguments\<close>

record ('s, 'a1, 'a2) function_closure_2 =
  fc2_function :: "'a1 \<Rightarrow> 'a2 \<Rightarrow> 's \<Rightarrow> 's result"
  fc2_self_deleting :: bool
  fc2_arg1 :: 'a1
  fc2_arg2 :: 'a2

definition new_function_closure_2 ::
  "('a1 \<Rightarrow> 'a2 \<Rightarrow> 's \<Rightarrow> 's result) \<Rightarrow> bool \<Rightarrow> 'a1 \<Rightarrow> 'a2 \<Rightarrow> ('s, 'a1, 'a2) function_closure_2" where
  "new_function_closure_2 fn self_del arg1 arg2 =
     \<lparr>fc2_function = fn, fc2_self_deleting = self_del, fc2_arg1 = arg1, fc2_arg2 = arg2\<rparr>"

definition function_closure_2_run ::
  "('s \<Rightarrow> 's) \<Rightarrow> ('s, 'a1, 'a2) function_closure_2 \<Rightarrow> 's \<Rightarrow> 's result" where
  "function_closure_2_run delete_this c st =
     (let needs_delete = fc2_self_deleting c
      in bindE (fc2_function c (fc2_arg1 c) (fc2_arg2 c) st) (\<lambda>st.
         Inr (if needs_delete then delete_this st else st)))"

record ('s, 'a1, 'a2) method_closure_2 =
  mc2_object :: ptr
  mc2_method :: "ptr \<Rightarrow> 'a1 \<Rightarrow> 'a2 \<Rightarrow> 's \<Rightarrow> 's result"
  mc2_self_deleting :: bool
  mc2_arg1 :: 'a1
  mc2_arg2 :: 'a2

definition new_method_closure_2 ::
  "ptr \<Rightarrow> (ptr \<Rightarrow> 'a1 \<Rightarrow> 'a2 \<Rightarrow> 's \<Rightarrow> 's result) \<Rightarrow> bool \<Rightarrow> 'a1 \<Rightarrow> 'a2 \<Rightarrow> ('s, 'a1, 'a2) method_closure_2" where
  "new_method_closure_2 obj meth self_del arg1 arg2 =
     \<lparr>mc2_object = obj, mc2_method = meth, mc2_self_deleting = self_del, mc2_arg1 = arg1, mc2_arg2 = arg2\<rparr>"

definition method_closure_2_run ::
  "('s \<Rightarrow> 's) \<Rightarrow> ('s, 'a1, 'a2) method_closure_2 \<Rightarrow> 's \<Rightarrow> 's result" where
  "method_closure_2_run delete_this c st =
     (let needs_delete = mc2_self_deleting c
      in bindE (mc2_method c (mc2_object c) (mc2_arg1 c) (mc2_arg2 c) st) (\<lambda>st.
         Inr (if needs_delete then delete_this st else st)))"

definition new_callback_function2 ::
  "('a1 \<Rightarrow> 'a2 \<Rightarrow> 's \<Rightarrow> 's result) \<Rightarrow> 'a1 \<Rightarrow> 'a2 \<Rightarrow> ('s, 'a1, 'a2) function_closure_2" where
  "new_callback_function2 fn arg1 arg2 =
     new_function_closure_2 fn True arg1 arg2"

definition new_permanent_callback_function2 ::
  "('a1 \<Rightarrow> 'a2 \<Rightarrow> 's \<Rightarrow> 's result) \<Rightarrow> 'a1 \<Rightarrow> 'a2 \<Rightarrow> ('s, 'a1, 'a2) function_closure_2" where
  "new_permanent_callback_function2 fn arg1 arg2 =
     new_function_closure_2 fn False arg1 arg2"

definition new_callback_method2 ::
  "ptr \<Rightarrow> (ptr \<Rightarrow> 'a1 \<Rightarrow> 'a2 \<Rightarrow> 's \<Rightarrow> 's result) \<Rightarrow> 'a1 \<Rightarrow> 'a2 \<Rightarrow> ('s, 'a1, 'a2) method_closure_2" where
  "new_callback_method2 obj meth arg1 arg2 =
     new_method_closure_2 obj meth True arg1 arg2"

definition new_permanent_callback_method2 ::
  "ptr \<Rightarrow> (ptr \<Rightarrow> 'a1 \<Rightarrow> 'a2 \<Rightarrow> 's \<Rightarrow> 's result) \<Rightarrow> 'a1 \<Rightarrow> 'a2 \<Rightarrow> ('s, 'a1, 'a2) method_closure_2" where
  "new_permanent_callback_method2 obj meth arg1 arg2 =
     new_method_closure_2 obj meth False arg1 arg2"

section \<open>Three arguments\<close>

record ('s, 'a1, 'a2, 'a3) function_closure_3 =
  fc3_function :: "'a1 \<Rightarrow> 'a2 \<Rightarrow> 'a3 \<Rightarrow> 's \<Rightarrow> 's result"
  fc3_self_deleting :: bool
  fc3_arg1 :: 'a1
  fc3_arg2 :: 'a2
  fc3_arg3 :: 'a3

definition new_function_closure_3 ::
  "('a1 \<Rightarrow> 'a2 \<Rightarrow> 'a3 \<Rightarrow> 's \<Rightarrow> 's result) \<Rightarrow> bool \<Rightarrow> 'a1 \<Rightarrow> 'a2 \<Rightarrow> 'a3 \<Rightarrow> ('s, 'a1, 'a2, 'a3) function_closure_3" where
  "new_function_closure_3 fn self_del arg1 arg2 arg3 =
     \<lparr>fc3_function = fn, fc3_self_deleting = self_del, fc3_arg1 = arg1, fc3_arg2 = arg2, fc3_arg3 = arg3\<rparr>"

definition function_closure_3_run ::
  "('s \<Rightarrow> 's) \<Rightarrow> ('s, 'a1, 'a2, 'a3) function_closure_3 \<Rightarrow> 's \<Rightarrow> 's result" where
  "function_closure_3_run delete_this c st =
     (let needs_delete = fc3_self_deleting c
      in bindE (fc3_function c (fc3_arg1 c) (fc3_arg2 c) (fc3_arg3 c) st) (\<lambda>st.
         Inr (if needs_delete then delete_this st else st)))"

record ('s, 'a1, 'a2, 'a3) method_closure_3 =
  mc3_object :: ptr
  mc3_method :: "ptr \<Rightarrow> 'a1 \<Rightarrow> 'a2 \<Rightarrow> 'a3 \<Rightarrow> 's \<Rightarrow> 's result"
  mc3_self_deleting :: bool
  mc3_arg1 :: 'a1
  mc3_arg2 :: 'a2
  mc3_arg3 :: 'a3

definition new_method_closure_3 ::
  "ptr \<Rightarrow> (ptr \<Rightarrow> 'a1 \<Rightarrow> 'a2 \<Rightarrow> 'a3 \<Rightarrow> 's \<Rightarrow> 's result) \<Rightarrow> bool \<Rightarrow> 'a1 \<Rightarrow> 'a2 \<Rightarrow> 'a3 \<Rightarrow> ('s, 'a1, 'a2, 'a3) method_closure_3" where
  "new_method_closure_3 obj meth self_del arg1 arg2 arg3 =
     \<lparr>mc3_object = obj, mc3_method = meth, mc3_self_deleting = self_del, mc3_arg1 = arg1, mc3_arg2 = arg2, mc3_arg3 = arg3\<rparr>"

definition method_closure_3_run ::
  "('s \<Rightarrow> 's) \<Rightarrow> ('s, 'a1, 'a2, 'a3) method_closure_3 \<Rightarrow> 's \<Rightarrow> 's result" where
  "method_closure_3_run delete_this c st =
     (let needs_delete = mc3_self_deleting c
      in bindE (mc3_method c (mc3_object c) (mc3_arg1 c) (mc3_arg2 c) (mc3_arg3 c) st) (\<lambda>st.
         Inr (if needs_delete then delete_this st else st)))"

definition new_callback_function3 ::
  "('a1 \<Rightarrow> 'a2 \<Rightarrow> 'a3 \<Rightarrow> 's \<Rightarrow> 's result) \<Rightarrow> 'a1 \<Rightarrow> 'a2 \<Rightarrow> 'a3 \<Rightarrow> ('s, 'a1, 'a2, 'a3) function_closure_3" where
  "new_callback_function3 fn arg1 arg2 arg3 =
     new_function_closure_3 fn True arg1 arg2 arg3"

definition new_permanent_callback_function3 ::
  "('a1 \<Rightarrow> 'a2 \<Rightarrow> 'a3 \<Rightarrow> 's \<Rightarrow> 's result) \<Rightarrow> 'a1 \<Rightarrow> 'a2 \<Rightarrow> 'a3 \<Rightarrow> ('s, 'a1, 'a2, 'a3) function_closure_3" where
  "new_permanent_callback_function3 fn arg1 arg2 arg3 =
     new_function_closure_3 fn False arg1 arg2 arg3"

definition new_callback_method3 ::
  "ptr \<Rightarrow> (ptr \<Rightarrow> 'a1 \<Rightarrow> 'a2 \<Rightarrow> 'a3 \<Rightarrow> 's \<Rightarrow> 's result) \<Rightarrow> 'a1 \<Rightarrow> 'a2 \<Rightarrow> 'a3 \<Rightarrow> ('s, 'a1, 'a2, 'a3) method_closure_3" where
  "new_callback_method3 obj meth arg1 arg2 arg3 =
     new_method_closure_3 obj meth True arg1 arg2 arg3"

definition new_permanent_callback_method3 ::
  "ptr \<Rightarrow> (ptr \<Rightarrow> 'a1 \<Rightarrow> 'a2 \<Rightarrow> 'a3 \<Rightarrow> 's \<Rightarrow> 's result) \<Rightarrow> 'a1 \<Rightarrow> 'a2 \<Rightarrow> 'a3 \<Rightarrow> ('s, 'a1, 'a2, 'a3) method_closure_3" where
  "new_permanent_callback_method3 obj meth arg1 arg2 arg3 =
     new_method_closure_3 obj meth False arg1 arg2 arg3"

section \<open>Four arguments\<close>

record ('s, 'a1, 'a2, 'a3, 'a4) function_closure_4 =
  fc4_function :: "'a1 \<Rightarrow> 'a2 \<Rightarrow> 'a3 \<Rightarrow> 'a4 \<Rightarrow> 's \<Rightarrow> 's result"
  fc4_self_deleting :: bool
  fc4_arg1 :: 'a1
  fc4_arg2 :: 'a2
  fc4_arg3 :: 'a3
  fc4_arg4 :: 'a4

definition new_function_closure_4 ::
  "('a1 \<Rightarrow> 'a2 \<Rightarrow> 'a3 \<Rightarrow> 'a4 \<Rightarrow> 's \<Rightarrow> 's result) \<Rightarrow> bool \<Rightarrow> 'a1 \<Rightarrow> 'a2 \<Rightarrow> 'a3 \<Rightarrow> 'a4 \<Rightarrow> ('s, 'a1, 'a2, 'a3, 'a4) function_closure_4" where
  "new_function_closure_4 fn self_del arg1 arg2 arg3 arg4 =
     \<lparr>fc4_function = fn, fc4_self_deleting = self_del, fc4_arg1 = arg1, fc4_arg2 = arg2, fc4_arg3 = arg3, fc4_arg4 = arg4\<rparr>"

definition function_closure_4_run ::
  "('s \<Rightarrow> 's) \<Rightarrow> ('s, 'a1, 'a2, 'a3, 'a4) function_closure_4 \<Rightarrow> 's \<Rightarrow> 's result" where
  "function_closure_4_run delete_this c st =
     (let needs_delete = fc4_self_deleting c
      in bindE (fc4_function c (fc4_arg1 c) (fc4_arg2 c) (fc4_arg3 c) (fc4_arg4 c) st) (\<lambda>st.
         Inr (if needs_delete then delete_this st else st)))"

record ('s, 'a1, 'a2, 'a3, 'a4) method_closure_4 =
  mc4_object :: ptr
  mc4_method :: "ptr \<Rightarrow> 'a1 \<Rightarrow> 'a2 \<Rightarrow> 'a3 \<Rightarrow> 'a4 \<Rightarrow> 's \<Rightarrow> 's result"
  mc4_self_deleting :: bool
  mc4_arg1 :: 'a1
  mc4_arg2 :: 'a2
  mc4_arg3 :: 'a3
  mc4_arg4 :: 'a4

definition new_method_closure_4 ::
  "ptr \<Rightarrow> (ptr \<Rightarrow> 'a1 \<Rightarrow> 'a2 \<Rightarrow> 'a3 \<Rightarrow> 'a4 \<Rightarrow> 's \<Rightarrow> 's result) \<Rightarrow> bool \<Rightarrow> 'a1 \<Rightarrow> 'a2 \<Rightarrow> 'a3 \<Rightarrow> 'a4 \<Rightarrow> ('s, 'a1, 'a2, 'a3, 'a4) method_closure_4" where
  "new_method_closure_4 obj meth self_del arg1 arg2 arg3 arg4 =
     \<lparr>mc4_object = obj, mc4_method = meth, mc4_self_deleting = self_del, mc4_arg1 = arg1, mc4_arg2 = arg2, mc4_arg3 = arg3, mc4_arg4 = arg4\<rparr>"

definition method_closure_4_run ::
  "('s \<Rightarrow> 's) \<Rightarrow> ('s, 'a1, 'a2, 'a3, 'a4) method_closure_4 \<Rightarrow> 's \<Rightarrow> 's result" where
  "method_closure_4_run delete_this c st =
     (let needs_delete = mc4_self_deleting c
      in bindE (mc4_method c (mc4_object c) (mc4_arg1 c) (mc4_arg2 c) (mc4_arg3 c) (mc4_arg4 c) st) (\<lambda>st.
         Inr (if needs_delete then delete_this st else st)))"

definition new_callback_function4 ::
  "('a1 \<Rightarrow> 'a2 \<Rightarrow> 'a3 \<Rightarrow> 'a4 \<Rightarrow> 's \<Rightarrow> 's result) \<Rightarrow> 'a1 \<Rightarrow> 'a2 \<Rightarrow> 'a3 \<Rightarrow> 'a4 \<Rightarrow> ('s, 'a1, 'a2, 'a3, 'a4) function_closure_4" where
  "new_callback_function4 fn arg1 arg2 arg3 arg4 =
     new_function_closure_4 fn True arg1 arg2 arg3 arg4"

definition new_permanent_callback_function4 ::
  "('a1 \<Rightarrow> 'a2 \<Rightarrow> 'a3 \<Rightarrow> 'a4 \<Rightarrow> 's \<Rightarrow> 's result) \<Rightarrow> 'a1 \<Rightarrow> 'a2 \<Rightarrow> 'a3 \<Rightarrow> 'a4 \<Rightarrow> ('s, 'a1, 'a2, 'a3, 'a4) function_closure_4" where
  "new_permanent_callback_function4 fn arg1 arg2 arg3 arg4 =
     new_function_closure_4 fn False arg1 arg2 arg3 arg4"

definition new_callback_method4 ::
  "ptr \<Rightarrow> (ptr \<Rightarrow> 'a1 \<Rightarrow> 'a2 \<Rightarrow> 'a3 \<Rightarrow> 'a4 \<Rightarrow> 's \<Rightarrow> 's result) \<Rightarrow> 'a1 \<Rightarrow> 'a2 \<Rightarrow> 'a3 \<Rightarrow> 'a4 \<Rightarrow> ('s, 'a1, 'a2, 'a3, 'a4) method_closure_4" where
  "new_callback_method4 obj meth arg1 arg2 arg3 arg4 =
     new_method_closure_4 obj meth True arg1 arg2 arg3 arg4"

definition new_permanent_callback_method4 ::
  "ptr \<Rightarrow> (ptr \<Rightarrow> 'a1 \<Rightarrow> 'a2 \<Rightarrow> 'a3 \<Rightarrow> 'a4 \<Rightarrow> 's \<Rightarrow> 's result) \<Rightarrow> 'a1 \<Rightarrow> 'a2 \<Rightarrow> 'a3 \<Rightarrow> 'a4 \<Rightarrow> ('s, 'a1, 'a2, 'a3, 'a4) method_closure_4" where
  "new_permanent_callback_method4 obj meth arg1 arg2 arg3 arg4 =
     new_method_closure_4 obj meth False arg1 arg2 arg3 arg4"

section \<open>Five arguments\<close>

record ('s, 'a1, 'a2, 'a3, 'a4, 'a5) function_closure_5 =
  fc5_function :: "'a1 \<Rightarrow> 'a2 \<Rightarrow> 'a3 \<Rightarrow> 'a4 \<Rightarrow> 'a5 \<Rightarrow> 's \<Rightarrow> 's result"
  fc5_self_deleting :: bool
  fc5_arg1 :: 'a1
  fc5_arg2 :: 'a2
  fc5_arg3 :: 'a3
  fc5_arg4 :: 'a4
  fc5_arg5 :: 'a5

definition new_function_closure_5 ::
  "('a1 \<Rightarrow> 'a2 \<Rightarrow> 'a3 \<Rightarrow> 'a4 \<Rightarrow> 'a5 \<Rightarrow> 's \<Rightarrow> 's result) \<Rightarrow> bool \<Rightarrow> 'a1 \<Rightarrow> 'a2 \<Rightarrow> 'a3 \<Rightarrow> 'a4 \<Rightarrow> 'a5 \<Rightarrow> ('s, 'a1, 'a2, 'a3, 'a4, 'a5) function_closure_5" where
  "new_function_closure_5 fn self_del arg1 arg2 arg3 arg4 arg5 =
     \<lparr>fc5_function = fn, fc5_self_deleting = self_del, fc5_arg1 = arg1, fc5_arg2 = arg2, fc5_arg3 = arg3, fc5_arg4 = arg4, fc5_arg5 = arg5\<rparr>"

definition function_closure_5_run ::
  "('s \<Rightarrow> 's) \<Rightarrow> ('s, 'a1, 'a2, 'a3, 'a4, 'a5) function_closure_5 \<Rightarrow> 's \<Rightarrow> 's result" where
  "function_closure_5_run delete_this c st =
     (let needs_delete = fc5_self_deleting c
      in bindE (fc5_function c (fc5_arg1 c) (fc5_arg2 c) (fc5_arg3 c) (fc5_arg4 c) (fc5_arg5 c) st) (\<lambda>st.
         Inr (if needs_delete then delete_this st else st)))"

record ('s, 'a1, 'a2, 'a3, 'a4, 'a5) method_closure_5 =
  mc5_object :: ptr
  mc5_method :: "ptr \<Rightarrow> 'a1 \<Rightarrow> 'a2 \<Rightarrow> 'a3 \<Rightarrow> 'a4 \<Rightarrow> 'a5 \<Rightarrow> 's \<Rightarrow> 's result"
  mc5_self_deleting :: bool
  mc5_arg1 :: 'a1
  mc5_arg2 :: 'a2
  mc5_arg3 :: 'a3
  mc5_arg4 :: 'a4
  mc5_arg5 :: 'a5

definition new_method_closure_5 ::
  "ptr \<Rightarrow> (ptr \<Rightarrow> 'a1 \<Rightarrow> 'a2 \<Rightarrow> 'a3 \<Rightarrow> 'a4 \<Rightarrow> 'a5 \<Rightarrow> 's \<Rightarrow> 's result) \<Rightarrow> bool \<Rightarrow> 'a1 \<Rightarrow> 'a2 \<Rightarrow> 'a3 \<Rightarrow> 'a4 \<Rightarrow> 'a5 \<Rightarrow> ('s, 'a1, 'a2, 'a3, 'a4, 'a5) method_closure_5" where
  "new_method_closure_5 obj meth self_del arg1 arg2 arg3 arg4 arg5 =
     \<lparr>mc5_object = obj, mc5_method = meth, mc5_self_deleting = self_del, mc5_arg1 = arg1, mc5_arg2 = arg2, mc5_arg3 = arg3, mc5_arg4 = arg4, mc5_arg5 = arg5\<rparr>"

definition method_closure_5_run ::
  "('s \<Rightarrow> 's) \<Rightarrow> ('s, 'a1, 'a2, 'a3, 'a4, 'a5) method_closure_5 \<Rightarrow> 's \<Rightarrow> 's result" where
  "method_closure_5_run delete_this c st =
     (let needs_delete = mc5_self_deleting c
      in bindE (mc5_method c (mc5_object c) (mc5_arg1 c) (mc5_arg2 c) (mc5_arg3 c) (mc5_arg4 c) (mc5_arg5 c) st) (\<lambda>st.
         Inr (if needs_delete then delete_this st else st)))"

definition new_callback_function5 ::
  "('a1 \<Rightarrow> 'a2 \<Rightarrow> 'a3 \<Rightarrow> 'a4 \<Rightarrow> 'a5 \<Rightarrow> 's \<Rightarrow> 's result) \<Rightarrow> 'a1 \<Rightarrow> 'a2 \<Rightarrow> 'a3 \<Rightarrow> 'a4 \<Rightarrow> 'a5 \<Rightarrow> ('s, 'a1, 'a2, 'a3, 'a4, 'a5) function_closure_5" where
  "new_callback_function5 fn arg1 arg2 arg3 arg4 arg5 =
     new_function_closure_5 fn True arg1 arg2 arg3 arg4 arg5"

definition new_permanent_callback_function5 ::
  "('a1 \<Rightarrow> 'a2 \<Rightarrow> 'a3 \<Rightarrow> 'a4 \<Rightarrow> 'a5 \<Rightarrow> 's \<Rightarrow> 's result) \<Rightarrow> 'a1 \<Rightarrow> 'a2 \<Rightarrow> 'a3 \<Rightarrow> 'a4 \<Rightarrow> 'a5 \<Rightarrow> ('s, 'a1, 'a2, 'a3, 'a4, 'a5) function_closure_5" where
  "new_permanent_callback_function5 fn arg1 arg2 arg3 arg4 arg5 =
     new_function_closure_5 fn False arg1 arg2 arg3 arg4 arg5"

definition new_callback_method5 ::
  "ptr \<Rightarrow> (ptr \<Rightarrow> 'a1 \<Rightarrow> 'a2 \<Rightarrow> 'a3 \<Rightarrow> 'a4 \<Rightarrow> 'a5 \<Rightarrow> 's \<Rightarrow> 's result) \<Rightarrow> 'a1 \<Rightarrow> 'a2 \<Rightarrow> 'a3 \<Rightarrow> 'a4 \<Rightarrow> 'a5 \<Rightarrow> ('s, 'a1, 'a2, 'a3, 'a4, 'a5) method_closure_5" where
  "new_callback_method5 obj meth arg1 arg2 arg3 arg4 arg5 =
     new_method_closure_5 obj meth True arg1 arg2 arg3 arg4 arg5"

definition new_permanent_callback_method5 ::
  "ptr \<Rightarrow> (ptr \<Rightarrow> 'a1 \<Rightarrow> 'a2 \<Rightarrow> 'a3 \<Rightarrow> 'a4 \<Rightarrow> 'a5 \<Rightarrow> 's \<Rightarrow> 's result) \<Rightarrow> 'a1 \<Rightarrow> 'a2 \<Rightarrow> 'a3 \<Rightarrow> 'a4 \<Rightarrow> 'a5 \<Rightarrow> ('s, 'a1, 'a2, 'a3, 'a4, 'a5) method_closure_5" where
  "new_permanent_callback_method5 obj meth arg1 arg2 arg3 arg4 arg5 =
     new_method_closure_5 obj meth False arg1 arg2 arg3 arg4 arg5"

section \<open>Six arguments\<close>

record ('s, 'a1, 'a2, 'a3, 'a4, 'a5, 'a6) function_closure_6 =
  fc6_function :: "'a1 \<Rightarrow> 'a2 \<Rightarrow> 'a3 \<Rightarrow> 'a4 \<Rightarrow> 'a5 \<Rightarrow> 'a6 \<Rightarrow> 's \<Rightarrow> 's result"
  fc6_self_deleting :: bool
  fc6_arg1 :: 'a1
  fc6_arg2 :: 'a2
  fc6_arg3 :: 'a3
  fc6_arg4 :: 'a4
  fc6_arg5 :: 'a5
  fc6_arg6 :: 'a6

definition new_function_closure_6 ::
  "('a1 \<Rightarrow> 'a2 \<Rightarrow> 'a3 \<Rightarrow> 'a4 \<Rightarrow> 'a5 \<Rightarrow> 'a6 \<Rightarrow> 's \<Rightarrow> 's result) \<Rightarrow> bool \<Rightarrow> 'a1 \<Rightarrow> 'a2 \<Rightarrow> 'a3 \<Rightarrow> 'a4 \<Rightarrow> 'a5 \<Rightarrow> 'a6 \<Rightarrow> ('s, 'a1, 'a2, 'a3, 'a4, 'a5, 'a6) function_closure_6" where
  "new_function_closure_6 fn self_del arg1 arg2 arg3 arg4 arg5 arg6 =
     \<lparr>fc6_function = fn, fc6_self_deleting = self_del, fc6_arg1 = arg1, fc6_arg2 = arg2, fc6_arg3 = arg3, fc6_arg4 = arg4, fc6_arg5 = arg5, fc6_arg6 = arg6\<rparr>"

definition function_closure_6_run ::
  "('s \<Rightarrow> 's) \<Rightarrow> ('s, 'a1, 'a2, 'a3, 'a4, 'a5, 'a6) function_closure_6 \<Rightarrow> 's \<Rightarrow> 's result" where
  "function_closure_6_run delete_this c st =
     (let needs_delete = fc6_self_deleting c
      in bindE (fc6_function c (fc6_arg1 c) (fc6_arg2 c) (fc6_arg3 c) (fc6_arg4 c) (fc6_arg5 c) (fc6_arg6 c) st) (\<lambda>st.
         Inr (if needs_delete then delete_this st else st)))"

record ('s, 'a1, 'a2, 'a3, 'a4, 'a5, 'a6) method_closure_6 =
  mc6_object :: ptr
  mc6_method :: "ptr \<Rightarrow> 'a1 \<Rightarrow> 'a2 \<Rightarrow> 'a3 \<Rightarrow> 'a4 \<Rightarrow> 'a5 \<Rightarrow> 'a6 \<Rightarrow> 's \<Rightarrow> 's result"
  mc6_self_deleting :: bool
  mc6_arg1 :: 'a1
  mc6_arg2 :: 'a2
  mc6_arg3 :: 'a3
  mc6_arg4 :: 'a4
  mc6_arg5 :: 'a5
  mc6_arg6 :: 'a6

definition new_method_closure_6 ::
  "ptr \<Rightarrow> (ptr \<Rightarrow> 'a1 \<Rightarrow> 'a2 \<Rightarrow> 'a3 \<Rightarrow> 'a4 \<Rightarrow> 'a5 \<Rightarrow> 'a6 \<Rightarrow> 's \<Rightarrow> 's result) \<Rightarrow> bool \<Rightarrow> 'a1 \<Rightarrow> 'a2 \<Rightarrow> 'a3 \<Rightarrow> 'a4 \<Rightarrow> 'a5 \<Rightarrow> 'a6 \<Rightarrow> ('s, 'a1, 'a2, 'a3, 'a4, 'a5, 'a6) method_closure_6" where
  "new_method_closure_6 obj meth self_del arg1 arg2 arg3 arg4 arg5 arg6 =
     \<lparr>mc6_object = obj, mc6_method = meth, mc6_self_deleting = self_del, mc6_arg1 = arg1, mc6_arg2 = arg2, mc6_arg3 = arg3, mc6_arg4 = arg4, mc6_arg5 = arg5, mc6_arg6 = arg6\<rparr>"

definition method_closure_6_run ::
  "('s \<Rightarrow> 's) \<Rightarrow> ('s, 'a1, 'a2, 'a3, 'a4, 'a5, 'a6) method_closure_6 \<Rightarrow> 's \<Rightarrow> 's result" where
  "method_closure_6_run delete_this c st =
     (let needs_delete = mc6_self_deleting c
      in bindE (mc6_method c (mc6_object c) (mc6_arg1 c) (mc6_arg2 c) (mc6_arg3 c) (mc6_arg4 c) (mc6_arg5 c) (mc6_arg6 c) st) (\<lambda>st.
         Inr (if needs_delete then delete_this st else st)))"

definition new_callback_function6 ::
  "('a1 \<Rightarrow> 'a2 \<Rightarrow> 'a3 \<Rightarrow> 'a4 \<Rightarrow> 'a5 \<Rightarrow> 'a6 \<Rightarrow> 's \<Rightarrow> 's result) \<Rightarrow> 'a1 \<Rightarrow> 'a2 \<Rightarrow> 'a3 \<Rightarrow> 'a4 \<Rightarrow> 'a5 \<Rightarrow> 'a6 \<Rightarrow> ('s, 'a1, 'a2, 'a3, 'a4, 'a5, 'a6) function_closure_6" where
  "new_callback_function6 fn arg1 arg2 arg3 arg4 arg5 arg6 =
     new_function_closure_6 fn True arg1 arg2 arg3 arg4 arg5 arg6"

definition new_permanent_callback_function6 ::
  "('a1 \<Rightarrow> 'a2 \<Rightarrow> 'a3 \<Rightarrow> 'a4 \<Rightarrow> 'a5 \<Rightarrow> 'a6 \<Rightarrow> 's \<Rightarrow> 's result) \<Rightarrow> 'a1 \<Rightarrow> 'a2 \<Rightarrow> 'a3 \<Rightarrow> 'a4 \<Rightarrow> 'a5 \<Rightarrow> 'a6 \<Rightarrow> ('s, 'a1, 'a2, 'a3, 'a4, 'a5, 'a6) function_closure_6" where
  "new_permanent_callback_function6 fn arg1 arg2 arg3 arg4 arg5 arg6 =
     new_function_closure_6 fn False arg1 arg2 arg3 arg4 arg5 arg6"

definition new_callback_method6 ::
  "ptr \<Rightarrow> (ptr \<Rightarrow> 'a1 \<Rightarrow> 'a2 \<Rightarrow> 'a3 \<Rightarrow> 'a4 \<Rightarrow> 'a5 \<Rightarrow> 'a6 \<Rightarrow> 's \<Rightarrow> 's result) \<Rightarrow> 'a1 \<Rightarrow> 'a2 \<Rightarrow> 'a3 \<Rightarrow> 'a4 \<Rightarrow> 'a5 \<Rightarrow> 'a6 \<Rightarrow> ('s, 'a1, 'a2, 'a3, 'a4, 'a5, 'a6) method_closure_6" where
  "new_callback_method6 obj meth arg1 arg2 arg3 arg4 arg5 arg6 =
     new_method_closure_6 obj meth True arg1 arg2 arg3 arg4 arg5 arg6"

definition new_permanent_callback_method6 ::
  "ptr \<Rightarrow> (ptr \<Rightarrow> 'a1 \<Rightarrow> 'a2 \<Rightarrow> 'a3 \<Rightarrow> 'a4 \<Rightarrow> 'a5 \<Rightarrow> 'a6 \<Rightarrow> 's \<Rightarrow> 's result) \<Rightarrow> 'a1 \<Rightarrow> 'a2 \<Rightarrow> 'a3 \<Rightarrow> 'a4 \<Rightarrow> 'a5 \<Rightarrow> 'a6 \<Rightarrow> ('s, 'a1, 'a2, 'a3, 'a4, 'a5, 'a6) method_closure_6" where
  "new_permanent_callback_method6 obj meth arg1 arg2 arg3 arg4 arg5 arg6 =
     new_method_closure_6 obj meth False arg1 arg2 arg3 arg4 arg5 arg6"

section \<open>Seven arguments\<close>

record ('s, 'a1, 'a2, 'a3, 'a4, 'a5, 'a6, 'a7) function_closure_7 =
  fc7_function :: "'a1 \<Rightarrow> 'a2 \<Rightarrow> 'a3 \<Rightarrow> 'a4 \<Rightarrow> 'a5 \<Rightarrow> 'a6 \<Rightarrow> 'a7 \<Rightarrow> 's \<Rightarrow> 's result"
  fc7_self_deleting :: bool
  fc7_arg1 :: 'a1
  fc7_arg2 :: 'a2
  fc7_arg3 :: 'a3
  fc7_arg4 :: 'a4
  fc7_arg5 :: 'a5
  fc7_arg6 :: 'a6
  fc7_arg7 :: 'a7

definition new_function_closure_7 ::
  "('a1 \<Rightarrow> 'a2 \<Rightarrow> 'a3 \<Rightarrow> 'a4 \<Rightarrow> 'a5 \<Rightarrow> 'a6 \<Rightarrow> 'a7 \<Rightarrow> 's \<Rightarrow> 's result) \<Rightarrow> bool \<Rightarrow> 'a1 \<Rightarrow> 'a2 \<Rightarrow> 'a3 \<Rightarrow> 'a4 \<Rightarrow> 'a5 \<Rightarrow> 'a6 \<Rightarrow> 'a7 \<Rightarrow> ('s, 'a1, 'a2, 'a3, 'a4, 'a5, 'a6, 'a7) function_closure_7" where
  "new_function_closure_7 fn self_del arg1 arg2 arg3 arg4 arg5 arg6 arg7 =
     \<lparr>fc7_function = fn, fc7_self_deleting = self_del, fc7_arg1 = arg1, fc7_arg2 = arg2, fc7_arg3 = arg3, fc7_arg4 = arg4, fc7_arg5 = arg5, fc7_arg6 = arg6, fc7_arg7 = arg7\<rparr>"

definition function_closure_7_run ::
  "('s \<Rightarrow> 's) \<Rightarrow> ('s, 'a1, 'a2, 'a3, 'a4, 'a5, 'a6, 'a7) function_closure_7 \<Rightarrow> 's \<Rightarrow> 's result" where
  "function_closure_7_run delete_this c st =
     (let needs_delete = fc7_self_deleting c
      in bindE (fc7_function c (fc7_arg1 c) (fc7_arg2 c) (fc7_arg3 c) (fc7_arg4 c) (fc7_arg5 c) (fc7_arg6 c) (fc7_arg7 c) st) (\<lambda>st.
         Inr (if needs_delete then delete_this st else st)))"

record ('s, 'a1, 'a2, 'a3, 'a4, 'a5, 'a6, 'a7) method_closure_7 =
  mc7_object :: ptr
  mc7_method :: "ptr \<Rightarrow> 'a1 \<Rightarrow> 'a2 \<Rightarrow> 'a3 \<Rightarrow> 'a4 \<Rightarrow> 'a5 \<Rightarrow> 'a6 \<Rightarrow> 'a7 \<Rightarrow> 's \<Rightarrow> 's result"
  mc7_self_deleting :: bool
  mc7_arg1 :: 'a1
  mc7_arg2 :: 'a2
  mc7_arg3 :: 'a3
  mc7_arg4 :: 'a4
  mc7_arg5 :: 'a5
  mc7_arg6 :: 'a6
  mc7_arg7 :: 'a7

definition new_method_closure_7 ::
  "ptr \<Rightarrow> (ptr \<Rightarrow> 'a1 \<Rightarrow> 'a2 \<Rightarrow> 'a3 \<Rightarrow> 'a4 \<Rightarrow> 'a5 \<Rightarrow> 'a6 \<Rightarrow> 'a7 \<Rightarrow> 's \<Rightarrow> 's result) \<Rightarrow> bool \<Rightarrow> 'a1 \<Rightarrow> 'a2 \<Rightarrow> 'a3 \<Rightarrow> 'a4 \<Rightarrow> 'a5 \<Rightarrow> 'a6 \<Rightarrow> 'a7 \<Rightarrow> ('s, 'a1, 'a2, 'a3, 'a4, 'a5, 'a6, 'a7) method_closure_7" where
  "new_method_closure_7 obj meth self_del arg1 arg2 arg3 arg4 arg5 arg6 arg7 =
     \<lparr>mc7_object = obj, mc7_method = meth, mc7_self_deleting = self_del, mc7_arg1 = arg1, mc7_arg2 = arg2, mc7_arg3 = arg3, mc7_arg4 = arg4, mc7_arg5 = arg5, mc7_arg6 = arg6, mc7_arg7 = arg7\<rparr>"

definition method_closure_7_run ::
  "('s \<Rightarrow> 's) \<Rightarrow> ('s, 'a1, 'a2, 'a3, 'a4, 'a5, 'a6, 'a7) method_closure_7 \<Rightarrow> 's \<Rightarrow> 's result" where
  "method_closure_7_run delete_this c st =
     (let needs_delete = mc7_self_deleting c
      in bindE (mc7_method c (mc7_object c) (mc7_arg1 c) (mc7_arg2 c) (mc7_arg3 c) (mc7_arg4 c) (mc7_arg5 c) (mc7_arg6 c) (mc7_arg7 c) st) (\<lambda>st.
         Inr (if needs_delete then delete_this st else st)))"

definition new_callback_function7 ::
  "('a1 \<Rightarrow> 'a2 \<Rightarrow> 'a3 \<Rightarrow> 'a4 \<Rightarrow> 'a5 \<Rightarrow> 'a6 \<Rightarrow> 'a7 \<Rightarrow> 's \<Rightarrow> 's result) \<Rightarrow> 'a1 \<Rightarrow> 'a2 \<Rightarrow> 'a3 \<Rightarrow> 'a4 \<Rightarrow> 'a5 \<Rightarrow> 'a6 \<Rightarrow> 'a7 \<Rightarrow> ('s, 'a1, 'a2, 'a3, 'a4, 'a5, 'a6, 'a7) function_closure_7" where
  "new_callback_function7 fn arg1 arg2 arg3 arg4 arg5 arg6 arg7 =
     new_function_closure_7 fn True arg1 arg2 arg3 arg4 arg5 arg6 arg7"

definition new_permanent_callback_function7 ::
  "('a1 \<Rightarrow> 'a2 \<Rightarrow> 'a3 \<Rightarrow> 'a4 \<Rightarrow> 'a5 \<Rightarrow> 'a6 \<Rightarrow> 'a7 \<Rightarrow> 's \<Rightarrow> 's result) \<Rightarrow> 'a1 \<Rightarrow> 'a2 \<Rightarrow> 'a3 \<Rightarrow> 'a4 \<Rightarrow> 'a5 \<Rightarrow> 'a6 \<Rightarrow> 'a7 \<Rightarrow> ('s, 'a1, 'a2, 'a3, 'a4, 'a5, 'a6, 'a7) function_closure_7" where
  "new_permanent_callback_function7 fn arg1 arg2 arg3 arg4 arg5 arg6 arg7 =
     new_function_closure_7 fn False arg1 arg2 arg3 arg4 arg5 arg6 arg7"

definition new_callback_method7 ::
  "ptr \<Rightarrow> (ptr \<Rightarrow> 'a1 \<Rightarrow> 'a2 \<Rightarrow> 'a3 \<Rightarrow> 'a4 \<Rightarrow> 'a5 \<Rightarrow> 'a6 \<Rightarrow> 'a7 \<Rightarrow> 's \<Rightarrow> 's result) \<Rightarrow> 'a1 \<Rightarrow> 'a2 \<Rightarrow> 'a3 \<Rightarrow> 'a4 \<Rightarrow> 'a5 \<Rightarrow> 'a6 \<Rightarrow> 'a7 \<Rightarrow> ('s, 'a1, 'a2, 'a3, 'a4, 'a5, 'a6, 'a7) method_closure_7" where
  "new_callback_method7 obj meth arg1 arg2 arg3 arg4 arg5 arg6 arg7 =
     new_method_closure_7 obj meth True arg1 arg2 arg3 arg4 arg5 arg6 arg7"

definition new_permanent_callback_method7 ::
  "ptr \<Rightarrow> (ptr \<Rightarrow> 'a1 \<Rightarrow> 'a2 \<Rightarrow> 'a3 \<Rightarrow> 'a4 \<Rightarrow> 'a5 \<Rightarrow> 'a6 \<Rightarrow> 'a7 \<Rightarrow> 's \<Rightarrow> 's result) \<Rightarrow> 'a1 \<Rightarrow> 'a2 \<Rightarrow> 'a3 \<Rightarrow> 'a4 \<Rightarrow> 'a5 \<Rightarrow> 'a6 \<Rightarrow> 'a7 \<Rightarrow> ('s, 'a1, 'a2, 'a3, 'a4, 'a5, 'a6, 'a7) method_closure_7" where
  "new_permanent_callback_method7 obj meth arg1 arg2 arg3 arg4 arg5 arg6 arg7 =
     new_method_closure_7 obj meth False arg1 arg2 arg3 arg4 arg5 arg6 arg7"

section \<open>Every class is a closure\<close>

lemmas callback_class_defs = Let_def closure_run_def
  function_closure_0_run_def new_function_closure_0_def new_callback_function0_def new_permanent_callback_function0_def
  method_closure_0_run_def new_method_closure_0_def new_callback_method0_def new_permanent_callback_method0_def
  function_closure_1_run_def new_function_closure_1_def new_callback_function1_def new_permanent_callback_function1_def
  method_closure_1_run_def new_method_closure_1_def new_callback_method1_def new_permanent_callback_method1_def
  function_closure_2_run_def new_function_closure_2_def new_callback_function2_def new_permanent_callback_function2_def
  method_closure_2_run_def new_method_closure_2_def new_callback_method2_def new_permanent_callback_method2_def
  function_closure_3_run_def new_function_closure_3_def new_callback_function3_def new_permanent_callback_function3_def
  method_closure_3_run_def new_method_closure_3_def new_callback_method3_def new_permanent_callback_method3_def
  function_closure_4_run_def new_function_closure_4_def new_callback_function4_def new_permanent_callback_function4_def
  method_closure_4_run_def new_method_closure_4_def new_callback_method4_def new_permanent_callback_method4_def
  function_closure_5_run_def new_function_closure_5_def new_callback_function5_def new_permanent_callback_function5_def
  method_closure_5_run_def new_method_closure_5_def new_callback_method5_def new_permanent_callback_method5_def
  function_closure_6_run_def new_function_closure_6_def new_callback_function6_def new_permanent_callback_function6_def
  method_closure_6_run_def new_method_closure_6_def new_callback_method6_def new_permanent_callback_method6_def
  function_closure_7_run_def new_function_closure_7_def new_callback_function7_def new_permanent_callback_function7_def
  method_closure_7_run_def new_method_closure_7_def new_callback_method7_def new_permanent_callback_method7_def


text \<open>
  A permanent callback of any of the sixteen classes calls its function (its method on its
  object) once, with its arguments in the order given, and does not delete itself: it runs as the
  permanent closure over that call.
\<close>

theorem permanent_callbacks_stay:
  "function_closure_0_run del (new_permanent_callback_function0 f0) st =
    closure_run (\<lambda>call. call) (\<lambda>_. del) (new_permanent_callback (f0)) st
   \<and> method_closure_0_run del (new_permanent_callback_method0 obj m0) st =
    closure_run (\<lambda>call. call) (\<lambda>_. del) (new_permanent_callback (m0 obj)) st
   \<and> function_closure_1_run del (new_permanent_callback_function1 f1 x1) st =
    closure_run (\<lambda>call. call) (\<lambda>_. del) (new_permanent_callback (f1 x1)) st
   \<and> method_closure_1_run del (new_permanent_callback_method1 obj m1 x1) st =
    closure_run (\<lambda>call. call) (\<lambda>_. del) (new_permanent_callback (m1 obj x1)) st
   \<and> function_closure_2_run del (new_permanent_callback_function2 f2 x1 x2) st =
    closure_run (\<lambda>call. call) (\<lambda>_. del) (new_permanent_callback (f2 x1 x2)) st
   \<and> method_closure_2_run del (new_permanent_callback_method2 obj m2 x1 x2) st =
    closure_run (\<lambda>call. call) (\<lambda>_. del) (new_permanent_callback (m2 obj x1 x2)) st
   \<and> function_closure_3_run del (new_permanent_callback_function3 f3 x1 x2 x3) st =
    closure_run (\<lambda>call. call) (\<lambda>_. del) (new_permanent_callback (f3 x1 x2 x3)) st
   \<and> method_closure_3_run del (new_permanent_callback_method3 obj m3 x1 x2 x3) st =
    closure_run (\<lambda>call. call) (\<lambda>_. del) (new_permanent_callback (m3 obj x1 x2 x3)) st
   \<and> function_closure_4_run del (new_permanent_callback_function4 f4 x1 x2 x3 x4) st =
    closure_run (\<lambda>call. call) (\<lambda>_. del) (new_permanent_callback (f4 x1 x2 x3 x4)) st
   \<and> method_closure_4_run del (new_permanent_callback_method4 obj m4 x1 x2 x3 x4) st =
    closure_run (\<lambda>call. call) (\<lambda>_. del) (new_permanent_callback (m4 obj x1 x2 x3 x4)) st
   \<and> function_closure_5_run del (new_permanent_callback_function5 f5 x1 x2 x3 x4 x5) st =
    closure_run (\<lambda>call. call) (\<lambda>_. del) (new_permanent_callback (f5 x1 x2 x3 x4 x5)) st
   \<and> method_closure_5_run del (new_permanent_callback_method5 obj m5 x1 x2 x3 x4 x5) st =
    closure_run (\<lambda>call. call) (\<lambda>_. del) (new_permanent_callback (m5 obj x1 x2 x3 x4 x5)) st
   \<and> function_closure_6_run del (new_permanent_callback_function6 f6 x1 x2 x3 x4 x5 x6) st =
    closure_run (\<lambda>call. call) (\<lambda>_. del) (new_permanent_callback (f6 x1 x2 x3 x4 x5 x6)) st
   \<and> method_closure_6_run del (new_permanent_callback_method6 obj m6 x1 x2 x3 x4 x5 x6) st =
    closure_run (\<lambda>call. call) (\<lambda>_. del) (new_permanent_callback (m6 obj x1 x2 x3 x4 x5 x6)) st
   \<and> function_closure_7_run del (new_permanent_callback_function7 f7 x1 x2 x3 x4 x5 x6 x7) st =
    closure_run (\<lambda>call. call) (\<lambda>_. del) (new_permanent_callback (f7 x1 x2 x3 x4 x5 x6 x7)) st
   \<and> method_closure_7_run del (new_permanent_callback_method7 obj m7 x1 x2 x3 x4 x5 x6 x7) st =
    closure_run (\<lambda>call. call) (\<lambda>_. del) (new_permanent_callback (m7 obj x1 x2 x3 x4 x5 x6 x7)) st"
  by (simp add: callback_class_defs)

end
