(* ===== verification/Strutil.thy ===== *)
theory Strutil
  imports Prelude
begin

text \<open>
  The string helpers of the code generators (\<open>src/rpcz/plugin/common/strutil.h\<close> and the copies in
  \<open>rpcz_cpp_generator.cc\<close>). What that header only declares, and protobuf defines, is a field of
  \<open>stubs\<close>.
\<close>

section \<open>Declared, not defined here\<close>

record stubs =
  StringReplace :: "string \<Rightarrow> string \<Rightarrow> string \<Rightarrow> bool \<Rightarrow> string"
  SplitStringUsing :: "string \<Rightarrow> string \<Rightarrow> string list"
  JoinStringsInto :: "string list \<Rightarrow> string \<Rightarrow> string"
  StripString :: "string \<Rightarrow> string \<Rightarrow> char \<Rightarrow> string"
  CEscape :: "bytes \<Rightarrow> string"
  SimpleItoa :: "int \<Rightarrow> string"
  SimpleDtoa :: "64 word \<Rightarrow> string"
  SimpleFtoa :: "32 word \<Rightarrow> string"
  FastHexToBuffer :: "int \<Rightarrow> string"

section \<open>Characters\<close>

definition char_le :: "char \<Rightarrow> char \<Rightarrow> bool" where
  "char_le c d \<longleftrightarrow> (of_char c :: nat) \<le> of_char d"

definition is_lower :: "char \<Rightarrow> bool" where
  "is_lower c \<longleftrightarrow> char_le CHR ''a'' c \<and> char_le c CHR ''z''"

definition is_upper :: "char \<Rightarrow> bool" where
  "is_upper c \<longleftrightarrow> char_le CHR ''A'' c \<and> char_le c CHR ''Z''"

definition ascii_isdigit :: "char \<Rightarrow> bool" where
  "ascii_isdigit c \<longleftrightarrow> char_le CHR ''0'' c \<and> char_le c CHR ''9''"

definition ascii_isalnum :: "char \<Rightarrow> bool" where
  "ascii_isalnum c \<longleftrightarrow> (char_le CHR ''a'' c \<and> char_le c CHR ''z'')
     \<or> (char_le CHR ''A'' c \<and> char_le c CHR ''Z'')
     \<or> (char_le CHR ''0'' c \<and> char_le c CHR ''9'')"

text \<open>\<open>'a' - 'A'\<close> is 32.\<close>

definition to_upper_char :: "char \<Rightarrow> char" where
  "to_upper_char c = char_of ((of_char c :: nat) - 32)"

definition to_lower_char :: "char \<Rightarrow> char" where
  "to_lower_char c = char_of ((of_char c :: nat) + 32)"

definition LowerString :: "string \<Rightarrow> string" where
  "LowerString s = map (\<lambda>c. if is_upper c then to_lower_char c else c) s"

definition UpperString :: "string \<Rightarrow> string" where
  "UpperString s = map (\<lambda>c. if is_lower c then to_upper_char c else c) s"

section \<open>Prefixes and suffixes\<close>

text \<open>\<open>s.compare(pos, len, t) == 0\<close>.\<close>

definition compare_eq :: "string \<Rightarrow> nat \<Rightarrow> nat \<Rightarrow> string \<Rightarrow> bool" where
  "compare_eq s pos len t \<longleftrightarrow> take len (drop pos s) = t"

definition HasPrefixString :: "string \<Rightarrow> string \<Rightarrow> bool" where
  "HasPrefixString str pre \<longleftrightarrow> length str \<ge> length pre \<and> compare_eq str 0 (length pre) pre"

definition StripPrefixString :: "string \<Rightarrow> string \<Rightarrow> string" where
  "StripPrefixString str pre = (if HasPrefixString str pre then drop (length pre) str else str)"

definition HasSuffixString :: "string \<Rightarrow> string \<Rightarrow> bool" where
  "HasSuffixString str suf \<longleftrightarrow>
     length str \<ge> length suf \<and> compare_eq str (length str - length suf) (length suf) suf"

definition StripSuffixString :: "string \<Rightarrow> string \<Rightarrow> string" where
  "StripSuffixString str suf =
     (if HasSuffixString str suf then take (length str - length suf) str else str)"

definition JoinStrings :: "stubs \<Rightarrow> string list \<Rightarrow> string \<Rightarrow> string" where
  "JoinStrings sb components delim = (let result = JoinStringsInto sb components delim in result)"

section \<open>Lemmas\<close>

lemma HasPrefixString_iff: "HasPrefixString str pre \<longleftrightarrow> (\<exists>r. str = pre @ r)"
  by (auto simp: HasPrefixString_def compare_eq_def intro: exI [of _ "drop (length pre) str"])
    (metis append_take_drop_id)

lemma HasSuffixString_iff: "HasSuffixString str suf \<longleftrightarrow> (\<exists>r. str = r @ suf)"
proof
  assume "HasSuffixString str suf"
  then have "drop (length str - length suf) str = suf"
    by (simp add: HasSuffixString_def compare_eq_def)
  then show "\<exists>r. str = r @ suf" by (metis append_take_drop_id)
qed (auto simp: HasSuffixString_def compare_eq_def)

lemma StripPrefixString_append [simp]: "StripPrefixString (pre @ r) pre = r"
  using HasPrefixString_iff [of "pre @ r" pre] by (simp add: StripPrefixString_def)

lemma StripSuffixString_append [simp]: "StripSuffixString (r @ suf) suf = r"
  using HasSuffixString_iff [of "r @ suf" suf] by (simp add: StripSuffixString_def)

lemma StripSuffixString_other: "\<nexists>r. str = r @ suf \<Longrightarrow> StripSuffixString str suf = str"
  using HasSuffixString_iff [of str suf] by (simp add: StripSuffixString_def)

end
