(* ===== verification/Printer.thy ===== *)
theory Printer
  imports Strutil
begin

text \<open>
  What a code generator says to the \<open>io::Printer\<close> of protobuf, and what it asks of the descriptors.
  A generator is modelled as the list of the calls it makes, in order. The predicates below say
  when such a list is one the printer accepts: every \<open>$name$\<close> of a template is among the variables
  of the call, and no \<open>Outdent\<close> is without its \<open>Indent\<close>.
\<close>

section \<open>Calls of the printer\<close>

type_synonym variables_map = "(string \<times> string) list"

datatype printer_op = Print variables_map string | Indent | Outdent

text \<open>The text of adjacent string literals that end in a line break each.\<close>

definition lns :: "string list \<Rightarrow> string" where
  "lns ls = concat (map (\<lambda>l. l @ [CHR 0x0A]) ls)"

text \<open>The pieces of a template between its \<open>$\<close> signs; every second one is a variable.\<close>

fun pieces :: "string \<Rightarrow> string list" where
  "pieces [] = [[]]"
| "pieces (c # s) = (if c = CHR ''$'' then [] # pieces s
     else case pieces s of [] \<Rightarrow> [[c]] | p # ps \<Rightarrow> (c # p) # ps)"

fun alternate :: "'a list \<Rightarrow> 'a list" where
  "alternate (x # y # xs) = y # alternate xs"
| "alternate _ = []"

definition template_vars :: "string \<Rightarrow> string list" where
  "template_vars t = [v \<leftarrow> alternate (pieces t). v \<noteq> []]"

fun bound :: "printer_op \<Rightarrow> bool" where
  "bound (Print vars t) \<longleftrightarrow> odd (length (pieces t)) \<and> set (template_vars t) \<subseteq> fst ` set vars"
| "bound _ \<longleftrightarrow> True"

text \<open>The nesting of \<open>Indent\<close> after a list of calls; \<open>None\<close> when an \<open>Outdent\<close> has no \<open>Indent\<close>.\<close>

fun depth :: "printer_op list \<Rightarrow> nat \<Rightarrow> nat option" where
  "depth [] n = Some n"
| "depth (Print _ _ # ops) n = depth ops n"
| "depth (Indent # ops) n = depth ops (Suc n)"
| "depth (Outdent # ops) n = (case n of 0 \<Rightarrow> None | Suc m \<Rightarrow> depth ops m)"

text \<open>Calls the printer accepts, and that leave the indentation as it was.\<close>

definition neat :: "printer_op list \<Rightarrow> bool" where
  "neat ops \<longleftrightarrow> (\<forall>op \<in> set ops. bound op) \<and> (\<forall>n. depth ops n = Some n)"

lemma depth_append: "depth (xs @ ys) n = (case depth xs n of None \<Rightarrow> None | Some m \<Rightarrow> depth ys m)"
  by (induction xs n rule: depth.induct) (auto split: nat.split)

named_theorems neat_intros "generators whose calls are neat"

lemma neat_Nil [neat_intros]: "neat []"
  by (simp add: neat_def)

lemma neat_append [neat_intros]: "neat xs \<Longrightarrow> neat ys \<Longrightarrow> neat (xs @ ys)"
  by (auto simp: neat_def depth_append)

lemma neat_Print [neat_intros]: "bound (Print vars t) \<Longrightarrow> neat ops \<Longrightarrow> neat (Print vars t # ops)"
  by (auto simp: neat_def)

lemma neat_indented [neat_intros]: "neat xs \<Longrightarrow> neat ys \<Longrightarrow> neat (Indent # xs @ Outdent # ys)"
  by (auto simp: neat_def depth_append)

lemma neat_concat [neat_intros]: "(\<And>xs. xs \<in> set xss \<Longrightarrow> neat xs) \<Longrightarrow> neat (concat xss)"
  by (induction xss) (auto intro: neat_append neat_Nil)

lemma neat_if [neat_intros]: "(b \<Longrightarrow> neat xs) \<Longrightarrow> (\<not> b \<Longrightarrow> neat ys) \<Longrightarrow> neat (if b then xs else ys)"
  by simp

text \<open>
  To show a straight-line generator neat: its calls one by one, with the check of each template
  against the names of the variables a computation, and the indentation by simplification.
\<close>

lemma neatI: "\<forall>op \<in> set ops. bound op \<Longrightarrow> (\<And>n. depth ops n = Some n) \<Longrightarrow> neat ops"
  by (simp add: neat_def)

lemma neatD: assumes "neat ops" shows "\<forall>op \<in> set ops. bound op" "depth ops n = Some n"
  using assms by (simp_all add: neat_def)

definition has_keys :: "string list \<Rightarrow> variables_map \<Rightarrow> bool" where
  "has_keys ks vars \<longleftrightarrow> set ks \<subseteq> fst ` set vars"

definition uses :: "string \<Rightarrow> string list \<Rightarrow> bool" where
  "uses t ks \<longleftrightarrow> odd (length (pieces t)) \<and> list_all (\<lambda>v. List.member ks v) (template_vars t)"

lemma bound_keys: "has_keys ks vars \<Longrightarrow> uses t ks \<Longrightarrow> bound (Print vars t)"
  by (auto simp: has_keys_def uses_def list_all_iff)

lemma bound_plain: "uses t [] \<Longrightarrow> bound (Print vars t)"
  by (auto simp: uses_def list_all_iff)

named_theorems bound_intros "calls the printer accepts"

lemma ball_calls [bound_intros]:
  "\<forall>op \<in> set []. bound op"
  "bound op \<Longrightarrow> \<forall>op \<in> set ops. bound op \<Longrightarrow> \<forall>op \<in> set (op # ops). bound op"
  "\<forall>op \<in> set xs. bound op \<Longrightarrow> \<forall>op \<in> set ys. bound op \<Longrightarrow> \<forall>op \<in> set (xs @ ys). bound op"
  "bound Indent" "bound Outdent"
  by auto

section \<open>Descriptors\<close>

text \<open>
  What the generators read of a \<open>.proto\<close> file. \<open>full_name\<close> is the name with the enclosing scopes
  in front, separated by dots; the index of a method is its position.
\<close>

datatype optimize_mode = SPEED | CODE_SIZE | LITE_RUNTIME

record file_id =
  file_name :: string
  file_package :: string
  optimize_for :: optimize_mode
  cc_generic_services :: bool

datatype descriptor = Top_Level file_id string | Nested descriptor string

fun d_name :: "descriptor \<Rightarrow> string" where
  "d_name (Top_Level f n) = n"
| "d_name (Nested d n) = n"

fun d_file :: "descriptor \<Rightarrow> file_id" where
  "d_file (Top_Level f n) = f"
| "d_file (Nested d n) = d_file d"

definition in_scope :: "string \<Rightarrow> string \<Rightarrow> string" where
  "in_scope scope n = (if scope = [] then n else scope @ ''.'' @ n)"

fun d_full_name :: "descriptor \<Rightarrow> string" where
  "d_full_name (Top_Level f n) = in_scope (file_package f) n"
| "d_full_name (Nested d n) = d_full_name d @ ''.'' @ n"

fun containing_type :: "descriptor \<Rightarrow> descriptor option" where
  "containing_type (Top_Level f n) = None"
| "containing_type (Nested d n) = Some d"

record method_descriptor =
  md_name :: string
  md_full_name :: string
  md_index :: nat
  input_type :: descriptor
  output_type :: descriptor
  md_options :: bytes

record service_descriptor =
  sd_name :: string
  sd_full_name :: string
  sd_index :: nat
  sd_file :: file_id
  sd_methods :: "method_descriptor list"
  sd_options :: bytes
  sd_serialized :: bytes

record file_descriptor =
  fd_id :: file_id
  fd_dependencies :: "file_id list"
  fd_services :: "service_descriptor list"
  fd_serialized :: bytes

text \<open>A loop over the indices of an array.\<close>

definition for_each_index :: "'a list \<Rightarrow> (nat \<Rightarrow> 'a \<Rightarrow> printer_op list) \<Rightarrow> printer_op list" where
  "for_each_index xs body = concat (map (\<lambda>i. body i (xs ! i)) [0..<length xs])"

lemma neat_for_each_index [neat_intros]:
  "(\<And>i x. neat (body i x)) \<Longrightarrow> neat (for_each_index xs body)"
  unfolding for_each_index_def by (rule neat_concat) auto

end
