(* ===== verification/Python_File.thy ===== *)
theory Python_File
  imports Printer
begin

text \<open>
  The Python generator (\<open>src/rpcz/plugin/python/rpcz_python_generator.cc\<close>): the module it writes for
  one \<open>.proto\<close> file. A method of \<open>FileGenerator\<close> is the list of the calls it makes on the printer, or
  \<open>None\<close> when a \<open>GOOGLE_CHECK\<close> in it fails and ends the process.
\<close>

section \<open>Names\<close>

definition py_StripProto :: "string \<Rightarrow> string" where
  "py_StripProto filename =
     (let suf = (if HasSuffixString filename ''.protodevel'' then ''.protodevel'' else ''.proto'')
      in StripSuffixString filename suf)"

definition ModuleName :: "stubs \<Rightarrow> string \<Rightarrow> string" where
  "ModuleName sb filename =
     (let basename = py_StripProto filename;
          basename = StripString sb basename ''-'' CHR ''_'';
          basename = StripString sb basename ''/'' CHR ''.''
      in basename @ ''_pb2'')"

definition RPCZModuleName :: "stubs \<Rightarrow> string \<Rightarrow> string" where
  "RPCZModuleName sb filename =
     (let basename = py_StripProto filename;
          basename = StripString sb basename ''-'' CHR ''_'';
          basename = StripString sb basename ''/'' CHR ''.''
      in basename @ ''_rpcz'')"

text \<open>The loop from the containing type outwards, with the name built so far.\<close>

lemma containing_type_less: "containing_type d = Some c \<Longrightarrow> size c < size d"
  by (cases d) auto

function nested_name :: "descriptor option \<Rightarrow> string \<Rightarrow> string \<Rightarrow> string" where
  "nested_name None separator name = name"
| "nested_name (Some current) separator name =
     nested_name (containing_type current) separator (d_name current @ separator @ name)"
  by pat_completeness auto

termination
  by (relation "measure (\<lambda>(d, _). case d of None \<Rightarrow> 0 | Some c \<Rightarrow> Suc (size c))")
    (auto simp: containing_type_less split: option.split)

definition NamePrefixedWithNestedTypes :: "descriptor \<Rightarrow> string \<Rightarrow> string" where
  "NamePrefixedWithNestedTypes d separator = nested_name (containing_type d) separator (d_name d)"

definition kDescriptorKey :: string where
  "kDescriptorKey = ''DESCRIPTOR''"

section \<open>\<open>FileGenerator\<close>\<close>

record py_generator =
  py_file :: file_descriptor
  file_descriptor_serialized :: bytes

definition new_py_generator :: "file_descriptor \<Rightarrow> py_generator" where
  "new_py_generator file = \<lparr>py_file = file, file_descriptor_serialized = []\<rparr>"

definition GeneratingDescriptorProto :: "py_generator \<Rightarrow> bool" where
  "GeneratingDescriptorProto g \<longleftrightarrow> file_name (fd_id (py_file g)) = ''google/protobuf/descriptor.proto''"

definition OptionsValue :: "stubs \<Rightarrow> py_generator \<Rightarrow> string \<Rightarrow> bytes \<Rightarrow> string" where
  "OptionsValue sb g class_name serialized_options =
     (if length serialized_options = 0 \<or> GeneratingDescriptorProto g then ''None''
      else let full_class_name = ''descriptor_pb2.'' @ class_name
           in ''descriptor._ParseOptions('' @ full_class_name @ ''(), '' @ [CHR 0x27]
              @ CEscape sb serialized_options @ [CHR 0x27] @ '')'')"

definition ModuleLevelDescriptorName :: "stubs \<Rightarrow> descriptor \<Rightarrow> string" where
  "ModuleLevelDescriptorName sb d =
     (let name = NamePrefixedWithNestedTypes d ''_'';
          name = UpperString name;
          name = ''_'' @ name;
          name = ModuleName sb (file_name (d_file d)) @ ''.'' @ name
      in name)"

text \<open>The files of protobuf's pool are compared as objects; two with the same contents are one.\<close>

definition ModuleLevelServiceDescriptorName :: "stubs \<Rightarrow> py_generator \<Rightarrow> service_descriptor \<Rightarrow> string" where
  "ModuleLevelServiceDescriptorName sb g d =
     (let name = sd_name d;
          name = UpperString name;
          name = ''_'' @ name
      in if sd_file d \<noteq> fd_id (py_file g)
         then ModuleName sb (file_name (sd_file d)) @ ''.'' @ name else name)"

text \<open>\<open>std::string::find\<close>: the first position, or \<open>npos\<close>, the largest \<open>size_t\<close>.\<close>

fun find_from :: "bytes \<Rightarrow> bytes \<Rightarrow> nat \<Rightarrow> 64 word" where
  "find_from s [] pos = (if take (length s) [] = s then of_nat pos else - 1)"
| "find_from s (b # bs) pos =
     (if take (length s) (b # bs) = s then of_nat pos else find_from s bs (Suc pos))"

definition string_find :: "bytes \<Rightarrow> bytes \<Rightarrow> 64 word" where
  "string_find hay s = find_from s hay 0"

text \<open>The position is stored in an \<open>int\<close>, which must not be negative.\<close>

definition PrintSerializedPbInterval ::
  "stubs \<Rightarrow> py_generator \<Rightarrow> bytes \<Rightarrow> printer_op list option" where
  "PrintSerializedPbInterval sb g sp =
     (let offset = (ucast (string_find (file_descriptor_serialized g) sp) :: 32 word)
      in if sint offset < 0 then None
         else Some [Print [(''serialized_start'', SimpleItoa sb (sint offset)),
            (''serialized_end'', SimpleItoa sb (uint (scast offset + of_nat (length sp) :: 64 word)))]
          (lns [''serialized_start=$serialized_start$,'',
       ''serialized_end=$serialized_end$,''])])"

definition PrintTopBoilerplate :: "bool \<Rightarrow> printer_op list" where
  "PrintTopBoilerplate descriptor_proto =
     [Print [] (lns [''# Generated by the protocol buffer compiler.  DO NOT EDIT!'',
       '''',
       ''from google.protobuf import descriptor'',
       ''from rpcz import service'',
       ''from rpcz import service_reflection''])]
     @ (if \<not> descriptor_proto then
         [Print [] (lns [''from google.protobuf import descriptor_pb2''])] else [])
     @ [Print [] (lns [''# @@protoc_insertion_point(imports)'']),
        Print [] (lns ['''', ''''])]"

definition PrintImports :: "stubs \<Rightarrow> py_generator \<Rightarrow> printer_op list" where
  "PrintImports sb g =
     [Print [(''module'', ModuleName sb (file_name (fd_id (py_file g))))] (lns [''import $module$''])]
     @ for_each_index (fd_dependencies (py_file g)) (\<lambda>i dep.
         let module_name = ModuleName sb (file_name dep)
         in [Print [(''module'', module_name)] (lns [''import $module$''])])
     @ [Print [] (lns [''''])]"

definition print_method :: "stubs \<Rightarrow> py_generator \<Rightarrow> method_descriptor \<Rightarrow> printer_op list" where
  "print_method sb g method =
     (let options_string = md_options method;
          m = [(''name'', md_name method), (''full_name'', md_full_name method),
            (''index'', SimpleItoa sb (int (md_index method))),
            (''serialized_options'', CEscape sb options_string),
            (''input_type'', ModuleLevelDescriptorName sb (input_type method)),
            (''output_type'', ModuleLevelDescriptorName sb (output_type method)),
            (''options_value'', OptionsValue sb g ''MethodOptions'' options_string)]
      in [Print [] (lns [''descriptor.MethodDescriptor('']),
          Indent,
          Print m (lns [''name='$name$','',
       ''full_name='$full_name$','',
       ''index=$index$,'',
       ''containing_service=None,'',
       ''input_type=$input_type$,'',
       ''output_type=$output_type$,'',
       ''options=$options_value$,'']),
          Outdent,
          Print [] (lns [''),''])])"

definition PrintServiceDescriptor ::
  "stubs \<Rightarrow> py_generator \<Rightarrow> service_descriptor \<Rightarrow> printer_op list option" where
  "PrintServiceDescriptor sb g d =
     (let service_name = ModuleLevelServiceDescriptorName sb g d;
          options_string = sd_options d;
          m = [(''name'', sd_name d), (''full_name'', sd_full_name d),
            (''file'', ModuleName sb (file_name (fd_id (py_file g))) @ ''.'' @ kDescriptorKey),
            (''index'', SimpleItoa sb (int (sd_index d))),
            (''options_value'', OptionsValue sb g ''ServiceOptions'' options_string)]
      in case PrintSerializedPbInterval sb g (sd_serialized d) of
           None \<Rightarrow> None
         | Some interval \<Rightarrow> Some (
             [Print [] (lns ['''']),
              Print [(''service_name'', service_name)]
                (lns [''$service_name$ = descriptor.ServiceDescriptor('']),
              Indent,
              Print m (lns [''name='$name$','',
       ''full_name='$full_name$','',
       ''file=$file$,'',
       ''index=$index$,'',
       ''options=$options_value$,''])]
             @ interval
             @ [Print [] (lns [''methods=[''])]
             @ for_each_index (sd_methods d) (\<lambda>i method. print_method sb g method)
             @ [Outdent,
                Print [] (lns [''])'',
       ''''])]))"

definition PrintServiceClass :: "stubs \<Rightarrow> py_generator \<Rightarrow> service_descriptor \<Rightarrow> printer_op list" where
  "PrintServiceClass sb g d =
     [Print [(''class_name'', sd_name d)] (lns [''class $class_name$(service.Service):'']),
      Indent,
      Print [(''descriptor_key'', kDescriptorKey),
        (''descriptor_name'', ModuleLevelServiceDescriptorName sb g d)]
        (lns [''__metaclass__ = service_reflection.GeneratedServiceType'',
       ''$descriptor_key$ = $descriptor_name$'']),
      Outdent]"

definition PrintServiceStub :: "stubs \<Rightarrow> py_generator \<Rightarrow> service_descriptor \<Rightarrow> printer_op list" where
  "PrintServiceStub sb g d =
     [Print [(''class_name'', sd_name d)] (lns [''class $class_name$_Stub($class_name$):'']),
      Indent,
      Print [(''descriptor_key'', kDescriptorKey),
        (''descriptor_name'', ModuleLevelServiceDescriptorName sb g d)]
        (lns [''__metaclass__ = service_reflection.GeneratedServiceStubType'',
       ''$descriptor_key$ = $descriptor_name$'']),
      Outdent]"

fun print_services ::
  "stubs \<Rightarrow> py_generator \<Rightarrow> service_descriptor list \<Rightarrow> printer_op list option" where
  "print_services sb g [] = Some []"
| "print_services sb g (d # ds) =
     (case PrintServiceDescriptor sb g d of
        None \<Rightarrow> None
      | Some ops \<Rightarrow> (case print_services sb g ds of
          None \<Rightarrow> None
        | Some rest \<Rightarrow> Some (ops @ PrintServiceClass sb g d @ PrintServiceStub sb g d
            @ [Print [] (lns [''''])] @ rest)))"

definition PrintServices :: "stubs \<Rightarrow> py_generator \<Rightarrow> printer_op list option" where
  "PrintServices sb g = print_services sb g (fd_services (py_file g))"

definition Run :: "stubs \<Rightarrow> py_generator \<Rightarrow> printer_op list option" where
  "Run sb g =
     (let g = g\<lparr>file_descriptor_serialized := fd_serialized (py_file g)\<rparr>
      in case PrintServices sb g of
           None \<Rightarrow> None
         | Some services \<Rightarrow>
             Some (PrintTopBoilerplate (GeneratingDescriptorProto g) @ PrintImports sb g @ services))"

text \<open>
  \<open>open_file\<close> is whether the context opens the file; when it does not, a check fails. The result is
  the file and the calls on its printer.
\<close>

definition py_Generate ::
  "stubs \<Rightarrow> (string \<Rightarrow> bool) \<Rightarrow> file_descriptor \<Rightarrow> (string \<times> printer_op list) option" where
  "py_Generate sb open_file file =
     (let module_name = RPCZModuleName sb (file_name (fd_id file));
          filename = module_name;
          filename = StripString sb filename ''.'' CHR ''/'';
          filename = filename @ ''.py''
      in if \<not> open_file filename then None
         else case Run sb (new_py_generator file) of
             None \<Rightarrow> None
           | Some calls \<Rightarrow> Some (filename, calls))"

end
