(* ===== verification/Cpp_Helpers.thy ===== *)
theory Cpp_Helpers
  imports Printer
begin

text \<open>
  The names the C++ generator gives to the things of a \<open>.proto\<close> file
  (\<open>src/rpcz/plugin/cpp/cpp_helpers.cc\<close> and \<open>cpp_helpers.h\<close>).
\<close>

section \<open>Options of a file\<close>

definition HasUnknownFields :: "file_id \<Rightarrow> bool" where
  "HasUnknownFields f \<longleftrightarrow> optimize_for f \<noteq> LITE_RUNTIME"

definition HasGeneratedMethods :: "file_id \<Rightarrow> bool" where
  "HasGeneratedMethods f \<longleftrightarrow> optimize_for f \<noteq> CODE_SIZE"

definition HasDescriptorMethods :: "file_id \<Rightarrow> bool" where
  "HasDescriptorMethods f \<longleftrightarrow> optimize_for f \<noteq> LITE_RUNTIME"

definition HasGenericServices :: "file_descriptor \<Rightarrow> bool" where
  "HasGenericServices fd \<longleftrightarrow> length (fd_services fd) > 0
     \<and> optimize_for (fd_id fd) \<noteq> LITE_RUNTIME \<and> cc_generic_services (fd_id fd)"

definition HasUtf8Verification :: "file_id \<Rightarrow> bool" where
  "HasUtf8Verification f \<longleftrightarrow> optimize_for f \<noteq> LITE_RUNTIME"

definition HasFastArraySerialization :: "file_id \<Rightarrow> bool" where
  "HasFastArraySerialization f \<longleftrightarrow> optimize_for f = SPEED"

section \<open>Identifiers\<close>

definition DotsToUnderscores :: "stubs \<Rightarrow> string \<Rightarrow> string" where
  "DotsToUnderscores sb name = StringReplace sb name ''.'' ''_'' True"

definition DotsToColons :: "stubs \<Rightarrow> string \<Rightarrow> string" where
  "DotsToColons sb name = StringReplace sb name ''.'' ''::'' True"

definition kKeywordList :: "string list" where
  "kKeywordList = [
    ''and'', ''and_eq'', ''asm'', ''auto'', ''bitand'', ''bitor'', ''bool'', ''break'', ''case'',
    ''catch'', ''char'', ''class'', ''compl'', ''const'', ''const_cast'', ''continue'',
    ''default'', ''delete'', ''do'', ''double'', ''dynamic_cast'', ''else'', ''enum'',
    ''explicit'', ''extern'', ''false'', ''float'', ''for'', ''friend'', ''goto'', ''if'',
    ''inline'', ''int'', ''long'', ''mutable'', ''namespace'', ''new'', ''not'', ''not_eq'',
    ''operator'', ''or'', ''or_eq'', ''private'', ''protected'', ''public'', ''register'',
    ''reinterpret_cast'', ''return'', ''short'', ''signed'', ''sizeof'', ''static'',
    ''static_cast'', ''struct'', ''switch'', ''template'', ''this'', ''throw'', ''true'', ''try'',
    ''typedef'', ''typeid'', ''typename'', ''union'', ''unsigned'', ''using'', ''virtual'',
    ''void'', ''volatile'', ''wchar_t'', ''while'', ''xor'', ''xor_eq'']"

text \<open>A \<open>hash_set\<close>, as the list of its elements.\<close>

definition MakeKeywordsMap :: "string list" where
  "MakeKeywordsMap = foldl (\<lambda>result k. List.insert k result) [] kKeywordList"

definition kKeywords :: "string list" where
  "kKeywords = MakeKeywordsMap"

fun camel_from :: "string \<Rightarrow> bool \<Rightarrow> string" where
  "camel_from [] cap_next_letter = []"
| "camel_from (c # input) cap_next_letter =
     (if char_le CHR ''a'' c \<and> char_le c CHR ''z'' then
        (if cap_next_letter then to_upper_char c else c) # camel_from input False
      else if char_le CHR ''A'' c \<and> char_le c CHR ''Z'' then c # camel_from input False
      else if char_le CHR ''0'' c \<and> char_le c CHR ''9'' then c # camel_from input True
      else camel_from input True)"

definition UnderscoresToCamelCase :: "string \<Rightarrow> bool \<Rightarrow> string" where
  "UnderscoresToCamelCase input cap_next_letter = camel_from input cap_next_letter"

definition kThickSeparator :: string where
  "kThickSeparator =
     lns [''// ==================================================================='']"

definition kThinSeparator :: string where
  "kThinSeparator =
     lns [''// -------------------------------------------------------------------'']"

section \<open>Types\<close>

lemma containing_type_smaller: "containing_type d = Some c \<Longrightarrow> size c < size d"
  by (cases d) auto

function outer :: "descriptor \<Rightarrow> descriptor" where
  "outer d = (case containing_type d of None \<Rightarrow> d | Some c \<Rightarrow> outer c)"
  by pat_completeness auto

termination
  by (relation "measure size") (auto simp: containing_type_smaller)

declare outer.simps [simp del]

definition ClassName :: "stubs \<Rightarrow> descriptor \<Rightarrow> bool \<Rightarrow> string" where
  "ClassName sb descriptor qualified =
     (let out = outer descriptor;
          outer_name = d_full_name out;
          inner_name = drop (length outer_name) (d_full_name descriptor)
      in if qualified then ''::'' @ DotsToColons sb outer_name @ DotsToUnderscores sb inner_name
         else d_name out @ DotsToUnderscores sb inner_name)"

record enum_descriptor =
  en_name :: string
  en_full_name :: string
  en_containing_type :: "descriptor option"

definition ClassName_enum :: "stubs \<Rightarrow> enum_descriptor \<Rightarrow> bool \<Rightarrow> string" where
  "ClassName_enum sb e qualified =
     (case en_containing_type e of
        None \<Rightarrow> if qualified then DotsToColons sb (en_full_name e) else en_name e
      | Some d \<Rightarrow>
          let result = ClassName sb d qualified;
              result = result @ ''_'';
              result = result @ en_name e
          in result)"

definition SuperClassName :: "descriptor \<Rightarrow> string" where
  "SuperClassName d = (if HasDescriptorMethods (d_file d)
     then ''::google::protobuf::Message'' else ''::google::protobuf::MessageLite'')"

section \<open>Fields\<close>

text \<open>
  What the helpers read of a field. \<open>fl_camelcase_own\<close> is whether the lookup of the field's
  camel-case name in its message gives the field itself. A \<open>double\<close> and a \<open>float\<close> are their bits.
\<close>

datatype cpp_type = CPPTYPE_INT32 | CPPTYPE_INT64 | CPPTYPE_UINT32 | CPPTYPE_UINT64 | CPPTYPE_DOUBLE
  | CPPTYPE_FLOAT | CPPTYPE_BOOL | CPPTYPE_ENUM | CPPTYPE_STRING | CPPTYPE_MESSAGE

datatype field_type = TYPE_DOUBLE | TYPE_FLOAT | TYPE_INT64 | TYPE_UINT64 | TYPE_INT32 | TYPE_FIXED64
  | TYPE_FIXED32 | TYPE_BOOL | TYPE_STRING | TYPE_GROUP | TYPE_MESSAGE | TYPE_BYTES | TYPE_UINT32
  | TYPE_ENUM | TYPE_SFIXED32 | TYPE_SFIXED64 | TYPE_SINT32 | TYPE_SINT64

record field_descriptor =
  fl_name :: string
  fl_number :: int
  is_extension :: bool
  fl_containing_type :: descriptor
  fl_extension_scope :: "descriptor option"
  fl_camelcase_own :: bool
  fl_cpp_type :: cpp_type
  fl_message_type :: descriptor
  fl_enum_type :: enum_descriptor
  default_value_int32 :: "32 word"
  default_value_int64 :: "64 word"
  default_value_uint32 :: "32 word"
  default_value_uint64 :: "64 word"
  default_value_double :: "64 word"
  default_value_float :: "32 word"
  default_value_bool :: bool
  default_value_enum_number :: int
  default_value_string :: bytes

definition FieldName :: "field_descriptor \<Rightarrow> string" where
  "FieldName field = (let result = LowerString (fl_name field)
     in if result \<in> set kKeywords then result @ ''_'' else result)"

definition FieldConstantName :: "stubs \<Rightarrow> field_descriptor \<Rightarrow> string" where
  "FieldConstantName sb field =
     (let field_name = UnderscoresToCamelCase (fl_name field) True;
          result = ''k'' @ field_name @ ''FieldNumber''
      in if \<not> is_extension field \<and> \<not> fl_camelcase_own field
         then result @ ''_'' @ SimpleItoa sb (fl_number field) else result)"

definition FieldScope :: "field_descriptor \<Rightarrow> descriptor option" where
  "FieldScope field = (if is_extension field then fl_extension_scope field
     else Some (fl_containing_type field))"

definition FieldMessageTypeName :: "stubs \<Rightarrow> field_descriptor \<Rightarrow> string" where
  "FieldMessageTypeName sb field = ClassName sb (fl_message_type field) True"

text \<open>\<open>None\<close> for \<open>NULL\<close>.\<close>

fun PrimitiveTypeName :: "cpp_type \<Rightarrow> string option" where
  "PrimitiveTypeName CPPTYPE_INT32 = Some ''::google::protobuf::int32''"
| "PrimitiveTypeName CPPTYPE_INT64 = Some ''::google::protobuf::int64''"
| "PrimitiveTypeName CPPTYPE_UINT32 = Some ''::google::protobuf::uint32''"
| "PrimitiveTypeName CPPTYPE_UINT64 = Some ''::google::protobuf::uint64''"
| "PrimitiveTypeName CPPTYPE_DOUBLE = Some ''double''"
| "PrimitiveTypeName CPPTYPE_FLOAT = Some ''float''"
| "PrimitiveTypeName CPPTYPE_BOOL = Some ''bool''"
| "PrimitiveTypeName CPPTYPE_ENUM = Some ''int''"
| "PrimitiveTypeName CPPTYPE_STRING = Some ''::std::string''"
| "PrimitiveTypeName CPPTYPE_MESSAGE = None"

fun DeclaredTypeMethodName :: "field_type \<Rightarrow> string" where
  "DeclaredTypeMethodName TYPE_INT32 = ''Int32''"
| "DeclaredTypeMethodName TYPE_INT64 = ''Int64''"
| "DeclaredTypeMethodName TYPE_UINT32 = ''UInt32''"
| "DeclaredTypeMethodName TYPE_UINT64 = ''UInt64''"
| "DeclaredTypeMethodName TYPE_SINT32 = ''SInt32''"
| "DeclaredTypeMethodName TYPE_SINT64 = ''SInt64''"
| "DeclaredTypeMethodName TYPE_FIXED32 = ''Fixed32''"
| "DeclaredTypeMethodName TYPE_FIXED64 = ''Fixed64''"
| "DeclaredTypeMethodName TYPE_SFIXED32 = ''SFixed32''"
| "DeclaredTypeMethodName TYPE_SFIXED64 = ''SFixed64''"
| "DeclaredTypeMethodName TYPE_FLOAT = ''Float''"
| "DeclaredTypeMethodName TYPE_DOUBLE = ''Double''"
| "DeclaredTypeMethodName TYPE_BOOL = ''Bool''"
| "DeclaredTypeMethodName TYPE_ENUM = ''Enum''"
| "DeclaredTypeMethodName TYPE_STRING = ''String''"
| "DeclaredTypeMethodName TYPE_BYTES = ''Bytes''"
| "DeclaredTypeMethodName TYPE_GROUP = ''Group''"
| "DeclaredTypeMethodName TYPE_MESSAGE = ''Message''"

section \<open>File names\<close>

definition StripProto :: "string \<Rightarrow> string" where
  "StripProto filename = (if HasSuffixString filename ''.protodevel''
     then StripSuffixString filename ''.protodevel'' else StripSuffixString filename ''.proto'')"

fun identifier_from :: "stubs \<Rightarrow> string \<Rightarrow> string" where
  "identifier_from sb [] = []"
| "identifier_from sb (c # filename) = (if ascii_isalnum c then [c]
     else ''_'' @ FastHexToBuffer sb (of_char c)) @ identifier_from sb filename"

definition FilenameIdentifier :: "stubs \<Rightarrow> string \<Rightarrow> string" where
  "FilenameIdentifier sb filename = identifier_from sb filename"

definition GlobalAddDescriptorsName :: "stubs \<Rightarrow> string \<Rightarrow> string" where
  "GlobalAddDescriptorsName sb filename = ''protobuf_AddDesc_'' @ FilenameIdentifier sb filename"

definition GlobalAssignDescriptorsName :: "stubs \<Rightarrow> string \<Rightarrow> string" where
  "GlobalAssignDescriptorsName sb filename = ''protobuf_AssignDesc_'' @ FilenameIdentifier sb filename"

definition GlobalShutdownFileName :: "stubs \<Rightarrow> string \<Rightarrow> string" where
  "GlobalShutdownFileName sb filename = ''protobuf_ShutdownFile_'' @ FilenameIdentifier sb filename"

definition EscapeTrigraphs :: "stubs \<Rightarrow> string \<Rightarrow> string" where
  "EscapeTrigraphs sb to_escape = StringReplace sb to_escape ''?'' [CHR 0x5C, CHR ''?''] True"

section \<open>Default values\<close>

text \<open>
  The comparisons of the code on the bits of a floating point number: equal to an infinity, and
  different from itself.
\<close>

definition double_infinity :: "64 word" where "double_infinity = 0x7FF0000000000000"
definition double_minus_infinity :: "64 word" where "double_minus_infinity = 0xFFF0000000000000"
definition float_infinity :: "32 word" where "float_infinity = 0x7F800000"
definition float_minus_infinity :: "32 word" where "float_minus_infinity = 0xFF800000"

definition double_is_nan :: "64 word \<Rightarrow> bool" where
  "double_is_nan v \<longleftrightarrow> v AND 0x7FF0000000000000 = 0x7FF0000000000000 \<and> v AND 0x000FFFFFFFFFFFFF \<noteq> 0"

definition float_is_nan :: "32 word \<Rightarrow> bool" where
  "float_is_nan v \<longleftrightarrow> v AND 0x7F800000 = 0x7F800000 \<and> v AND 0x007FFFFF \<noteq> 0"

text \<open>\<open>substitute fmt args\<close> is \<open>strings::Substitute\<close>, declared in \<open>substitute.h\<close>.\<close>

definition DefaultValue :: "stubs \<Rightarrow> (string \<Rightarrow> string list \<Rightarrow> string) \<Rightarrow> field_descriptor \<Rightarrow> string" where
  "DefaultValue sb substitute field = (case fl_cpp_type field of
     CPPTYPE_INT32 \<Rightarrow> SimpleItoa sb (sint (default_value_int32 field))
   | CPPTYPE_UINT32 \<Rightarrow> SimpleItoa sb (uint (default_value_uint32 field)) @ ''u''
   | CPPTYPE_INT64 \<Rightarrow> ''GOOGLE_LONGLONG('' @ SimpleItoa sb (sint (default_value_int64 field)) @ '')''
   | CPPTYPE_UINT64 \<Rightarrow> ''GOOGLE_ULONGLONG('' @ SimpleItoa sb (uint (default_value_uint64 field)) @ '')''
   | CPPTYPE_DOUBLE \<Rightarrow>
       (let v = default_value_double field in
        if v = double_infinity then ''::google::protobuf::internal::Infinity()''
        else if v = double_minus_infinity then ''-::google::protobuf::internal::Infinity()''
        else if double_is_nan v then ''::google::protobuf::internal::NaN()''
        else SimpleDtoa sb v)
   | CPPTYPE_FLOAT \<Rightarrow>
       (let v = default_value_float field in
        if v = float_infinity then ''static_cast<float>(::google::protobuf::internal::Infinity())''
        else if v = float_minus_infinity
        then ''static_cast<float>(-::google::protobuf::internal::Infinity())''
        else if float_is_nan v then ''static_cast<float>(::google::protobuf::internal::NaN())''
        else let float_value = SimpleFtoa sb v
             in if \<exists>c \<in> set float_value. c \<in> set ''.eE'' then float_value @ ''f'' else float_value)
   | CPPTYPE_BOOL \<Rightarrow> (if default_value_bool field then ''true'' else ''false'')
   | CPPTYPE_ENUM \<Rightarrow> substitute ''static_cast< $0 >($1)''
       [ClassName_enum sb (fl_enum_type field) True, SimpleItoa sb (default_value_enum_number field)]
   | CPPTYPE_STRING \<Rightarrow> [CHR 0x22] @ EscapeTrigraphs sb (CEscape sb (default_value_string field)) @ [CHR 0x22]
   | CPPTYPE_MESSAGE \<Rightarrow> FieldMessageTypeName sb field @ ''::default_instance()'')"

end
