(* ===== verification/Cpp_Service.thy ===== *)
theory Cpp_Service
  imports Cpp_Helpers
begin

text \<open>
  \<open>ServiceGenerator\<close> (\<open>src/rpcz/plugin/cpp/rpcz_cpp_service.cc\<close>): the C++ that is generated for one
  service, in the header and in the source. Each method of the generator is the list of the calls
  it makes on the printer.
\<close>

record service_generator =
  sg_descriptor :: service_descriptor
  sg_vars :: variables_map

definition new_service_generator :: "service_descriptor \<Rightarrow> string \<Rightarrow> service_generator" where
  "new_service_generator descriptor dllexport_decl =
     \<lparr>sg_descriptor = descriptor,
      sg_vars = [(''classname'', sd_name descriptor), (''full_name'', sd_full_name descriptor),
        (''dllexport'', if dllexport_decl = [] then [] else dllexport_decl @ '' '')]\<rparr>"

datatype request_or_response = REQUEST | RESPONSE

datatype virtual_or_non = VIRTUAL | NON_VIRTUAL

section \<open>Header\<close>

definition GenerateOneStubMethodSignature :: "variables_map \<Rightarrow> printer_op list" where
  "GenerateOneStubMethodSignature sub_vars = [
     Print sub_vars (lns [''typedef boost::function<void (const rpcz::rpc_error*,'',
       ''    const $output_type$&)> $name$_Handler;'']),
     Print sub_vars (lns [''$virtual$void async_$name$('',
       ''    const $input_type$& request,'',
       ''    const $name$_Handler& handler,'',
       ''    long timeout_ms);'']),
     Print sub_vars (lns [''inline $virtual$void async_$name$('',
       ''    const $input_type$& request,'',
       ''    const $name$_Handler& handler) {'',
       ''  async_$name$(request, handler, default_timeout_ms_);'',
       ''}'']),
     Print sub_vars (lns [''$virtual$void async_$name$('',
       ''    const $input_type$& request,'',
       ''    long timeout_ms);'']),
     Print sub_vars (lns [''inline $virtual$void async_$name$('',
       ''    const $input_type$& request) {'',
       ''  async_$name$(request, default_timeout_ms_);'',
       ''}'']),
     Print sub_vars (lns [''$virtual$void $name$('',
       ''    const $input_type$& request,'',
       ''    long timeout_ms,'',
       ''    $output_type$* response);'']),
     Print sub_vars (lns [''$virtual$void $name$('',
       ''    const $input_type$& request,'',
       ''    $output_type$* response) {'',
       ''  $name$(request, default_timeout_ms_, response);'',
       ''}'']),
     Print sub_vars (lns [''$virtual$$output_type$ $name$('',
       ''    const $input_type$& request,'',
       ''    long timeout_ms);'']),
     Print sub_vars (lns [''$virtual$$output_type$ $name$('',
       ''    const $input_type$& request) {'',
       ''  return $name$(request, default_timeout_ms_);'',
       ''}''])]"

definition GenerateOneMethodSignature :: "variables_map \<Rightarrow> printer_op list" where
  "GenerateOneMethodSignature sub_vars = [
     Print sub_vars (lns [''$virtual$void $name$('',
       ''    const $input_type$& request,'',
       ''    const ::rpcz::replier& rep);''])]"

definition GenerateMethodSignatures ::
  "stubs \<Rightarrow> service_generator \<Rightarrow> virtual_or_non \<Rightarrow> bool \<Rightarrow> printer_op list" where
  "GenerateMethodSignatures sb sg virtual_or_non stub =
     for_each_index (sd_methods (sg_descriptor sg)) (\<lambda>i method.
       let sub_vars = [(''name'', md_name method),
             (''input_type'', ClassName sb (input_type method) True),
             (''output_type'', ClassName sb (output_type method) True),
             (''virtual'', if virtual_or_non = VIRTUAL then ''virtual '' else '''')]
       in if stub then GenerateOneStubMethodSignature sub_vars
          else GenerateOneMethodSignature sub_vars)"

definition GenerateInterface :: "stubs \<Rightarrow> service_generator \<Rightarrow> printer_op list" where
  "GenerateInterface sb sg =
     [Print (sg_vars sg) (lns [''class $dllexport$$classname$ : public rpcz::cpp_service {'',
       '' protected:'',
       ''  // This class should be treated as an abstract interface.'',
       ''  inline $classname$() {};'',
       '' public:'',
       ''  virtual ~$classname$();'']),
      Indent,
      Print (sg_vars sg) (lns ['''',
       ''typedef $classname$_Stub Stub;'',
       '''',
       ''static const ::google::protobuf::ServiceDescriptor* descriptor();'',
       ''''])]
     @ GenerateMethodSignatures sb sg VIRTUAL False
     @ [Print [] (lns ['''',
       ''// implements Service ----------------------------------------------'',
       '''',
       ''const ::google::protobuf::ServiceDescriptor* GetDescriptor();'',
       ''void call_method(const ::google::protobuf::MethodDescriptor* method,'',
       ''                 const ::google::protobuf::Message& request,'',
       ''                 const ::rpcz::replier& rep);'',
       ''const ::google::protobuf::Message& GetRequestPrototype('',
       ''  const ::google::protobuf::MethodDescriptor* method) const;'',
       ''const ::google::protobuf::Message& GetResponsePrototype('',
       ''  const ::google::protobuf::MethodDescriptor* method) const;'']),
      Outdent,
      Print (sg_vars sg) (lns ['''',
       '' private:'',
       ''  GOOGLE_DISALLOW_EVIL_CONSTRUCTORS($classname$);'',
       ''};'',
       ''''])]"

definition GenerateStubDefinition :: "stubs \<Rightarrow> service_generator \<Rightarrow> printer_op list" where
  "GenerateStubDefinition sb sg =
     [Print (sg_vars sg) (lns [''class $dllexport$$classname$_Stub : public rpcz::service_stub {'',
       '' public:'']),
      Indent,
      Print (sg_vars sg) (lns [''explicit $classname$_Stub(const ::rpcz::connection_ptr& conn);'',
       ''explicit $classname$_Stub(const ::std::string& endpoint);  // like: \"tcp://a.com:5566\"'',
       ''virtual ~$classname$_Stub();'',
       ''''])]
     @ GenerateMethodSignatures sb sg NON_VIRTUAL True
     @ [Outdent,
      Print (sg_vars sg) (lns ['' private:'',
       ''  GOOGLE_DISALLOW_EVIL_CONSTRUCTORS($classname$_Stub);'',
       ''};'',
       ''''])]"

definition GenerateDeclarations :: "stubs \<Rightarrow> service_generator \<Rightarrow> printer_op list" where
  "GenerateDeclarations sb sg =
     [Print (sg_vars sg) (lns [''class $classname$_Stub;'',
       ''''])]
     @ GenerateInterface sb sg
     @ GenerateStubDefinition sb sg"

section \<open>Source\<close>

definition GenerateDescriptorInitializer ::
  "stubs \<Rightarrow> service_generator \<Rightarrow> nat \<Rightarrow> printer_op list" where
  "GenerateDescriptorInitializer sb sg index =
     (let vars = [(''classname'', sd_name (sg_descriptor sg)), (''index'', SimpleItoa sb (int index))]
      in [Print vars (lns [''$classname$_descriptor_ = file->service($index$);''])])"

definition GenerateNotImplementedMethods :: "stubs \<Rightarrow> service_generator \<Rightarrow> printer_op list" where
  "GenerateNotImplementedMethods sb sg =
     for_each_index (sd_methods (sg_descriptor sg)) (\<lambda>i method.
       let sub_vars = [(''classname'', sd_name (sg_descriptor sg)), (''name'', md_name method),
             (''index'', SimpleItoa sb (int i)),
             (''input_type'', ClassName sb (input_type method) True),
             (''output_type'', ClassName sb (output_type method) True)]
       in [Print sub_vars (lns [''void $classname$::$name$('',
       ''    const $input_type$&,'',
       ''    const ::rpcz::replier& rep) {'',
       ''  rep.reply_error('',
       ''      ::rpcz::error_code::METHOD_NOT_IMPLEMENTED,'',
       ''      \"Method $name$() not implemented.\");'',
       ''}'',
       ''''])])"

definition call_method_case :: "stubs \<Rightarrow> nat \<Rightarrow> method_descriptor \<Rightarrow> printer_op" where
  "call_method_case sb i method =
     (let sub_vars = [(''name'', md_name method), (''index'', SimpleItoa sb (int i)),
            (''input_type'', ClassName sb (input_type method) True),
            (''output_type'', ClassName sb (output_type method) True)]
      in Print sub_vars (lns [''    case $index$:'',
       ''      $name$('',
       ''          *::google::protobuf::down_cast<const $input_type$*>(&request),'',
       ''          rep);'',
       ''      break;'']))"

definition GenerateCallMethod :: "stubs \<Rightarrow> service_generator \<Rightarrow> printer_op list" where
  "GenerateCallMethod sb sg =
     [Print (sg_vars sg) (lns [''void $classname$::call_method('',
       ''    const ::google::protobuf::MethodDescriptor* method,'',
       ''    const ::google::protobuf::Message& request,'',
       ''    const ::rpcz::replier& rep) {'',
       ''  GOOGLE_DCHECK_EQ(method->service(), $classname$_descriptor_);'',
       ''  switch(method->index()) {''])]
     @ for_each_index (sd_methods (sg_descriptor sg)) (\<lambda>i method. [call_method_case sb i method])
     @ [Print (sg_vars sg) (lns [''    default:'',
       ''      GOOGLE_LOG(FATAL) << \"Bad method index; this should never happen.\";'',
       ''      break;'',
       ''  }'',
       ''}'',
       ''''])]"

definition GenerateGetPrototype ::
  "stubs \<Rightarrow> service_generator \<Rightarrow> request_or_response \<Rightarrow> printer_op list" where
  "GenerateGetPrototype sb sg which =
     [if which = REQUEST
      then Print (sg_vars sg) (lns [''const ::google::protobuf::Message& $classname$::GetRequestPrototype(''])
      else Print (sg_vars sg) (lns [''const ::google::protobuf::Message& $classname$::GetResponsePrototype('']),
      Print (sg_vars sg) (lns [''    const ::google::protobuf::MethodDescriptor* method) const {'',
       ''  GOOGLE_DCHECK_EQ(method->service(), descriptor());'',
       ''  switch(method->index()) {''])]
     @ for_each_index (sd_methods (sg_descriptor sg)) (\<lambda>i method.
         let type = (if which = REQUEST then input_type method else output_type method);
             sub_vars = [(''index'', SimpleItoa sb (int i)), (''type'', ClassName sb type True)]
         in [Print sub_vars (lns [''    case $index$:'',
       ''      return $type$::default_instance();''])])
     @ [Print (sg_vars sg) (lns [''    default:'',
       ''      GOOGLE_LOG(FATAL) << \"Bad method index; this should never happen.\";'',
       ''      return *reinterpret_cast< ::google::protobuf::Message*>(NULL);'',
       ''  }'',
       ''}'',
       ''''])]"

definition GenerateOneStubMethod :: "variables_map \<Rightarrow> printer_op list" where
  "GenerateOneStubMethod sub_vars = [
     Print sub_vars (lns [''void $classname$_Stub::async_$name$('',
       ''    const $input_type$& request,'',
       ''    const $name$_Handler& handler,'',
       ''    long timeout_ms) {'',
       ''  conn_->request('',
       ''      *$classname$::descriptor()->method($index$),'',
       ''      request,'',
       ''      ::rpcz::cpp_handler_wrapper<$output_type$>(handler),'',
       ''      timeout_ms);'',
       ''}'']),
     Print sub_vars (lns [''void $classname$_Stub::async_$name$('',
       ''    const $input_type$& request,'',
       ''    long timeout_ms) {'',
       ''  // optimized for empty handler'',
       ''  conn_->request('',
       ''      *$classname$::descriptor()->method($index$),'',
       ''      request,'',
       ''      rpcz::response_message_handler(),'',
       ''      timeout_ms);'',
       ''}'']),
     Print sub_vars (lns [''void $classname$_Stub::$name$('',
       ''    const $input_type$& request,'',
       ''    long timeout_ms,'',
       ''    $output_type$* response) {'',
       ''  ::rpcz::sync_requester(conn_).request('',
       ''      *$classname$::descriptor()->method($index$),'',
       ''      request, timeout_ms, response);'',
       ''}'']),
     Print sub_vars (lns [''$output_type$ $classname$_Stub::$name$('',
       ''    const $input_type$& request,'',
       ''    long timeout_ms) {'',
       ''  $output_type$ response;'',
       ''  $name$(request, timeout_ms, &response);'',
       ''  return response;'',
       ''}''])]"

definition GenerateStubMethods :: "stubs \<Rightarrow> service_generator \<Rightarrow> printer_op list" where
  "GenerateStubMethods sb sg =
     for_each_index (sd_methods (sg_descriptor sg)) (\<lambda>i method.
       let sub_vars = [(''classname'', sd_name (sg_descriptor sg)), (''name'', md_name method),
             (''index'', SimpleItoa sb (int i)),
             (''input_type'', ClassName sb (input_type method) True),
             (''output_type'', ClassName sb (output_type method) True)]
       in GenerateOneStubMethod sub_vars)"

definition GenerateImplementation :: "stubs \<Rightarrow> service_generator \<Rightarrow> printer_op list" where
  "GenerateImplementation sb sg =
     [Print (sg_vars sg) (lns [''$classname$::~$classname$() {}'',
       '''',
       ''const ::google::protobuf::ServiceDescriptor* $classname$::descriptor() {'',
       ''  protobuf_AssignDescriptorsOnce();'',
       ''  return $classname$_descriptor_;'',
       ''}'',
       '''',
       ''const ::google::protobuf::ServiceDescriptor* $classname$::GetDescriptor() {'',
       ''  protobuf_AssignDescriptorsOnce();'',
       ''  return $classname$_descriptor_;'',
       ''}'',
       ''''])]
     @ GenerateNotImplementedMethods sb sg
     @ GenerateCallMethod sb sg
     @ GenerateGetPrototype sb sg REQUEST
     @ GenerateGetPrototype sb sg RESPONSE
     @ [Print (sg_vars sg) (lns [''$classname$_Stub::$classname$_Stub('',
       ''    const ::rpcz::connection_ptr& conn)'',
       ''  : service_stub(conn) {}'',
       ''$classname$_Stub::$classname$_Stub('',
       ''    const ::std::string& endpoint)'',
       ''  : service_stub(endpoint) {}'',
       ''$classname$_Stub::~$classname$_Stub() {}'',
       ''''])]
     @ GenerateStubMethods sb sg"

section \<open>The calls are neat\<close>

abbreviation service_names :: "string list" where
  "service_names \<equiv> [''classname'', ''full_name'', ''dllexport'']"

abbreviation signature_names :: "string list" where
  "signature_names \<equiv> [''name'', ''input_type'', ''output_type'', ''virtual'']"

abbreviation method_names :: "string list" where
  "method_names \<equiv> [''classname'', ''name'', ''index'', ''input_type'', ''output_type'']"

lemma has_keys_new: "has_keys service_names (sg_vars (new_service_generator d decl))"
  by (simp add: has_keys_def new_service_generator_def)

lemma neat_one_method_signature:
  "has_keys signature_names vars \<Longrightarrow> neat (GenerateOneMethodSignature vars)"
  unfolding GenerateOneMethodSignature_def
  by (intro neatI bound_intros bound_keys [where ks = signature_names]; (assumption | code_simp))

lemma neat_one_stub_method_signature:
  "has_keys signature_names vars \<Longrightarrow> neat (GenerateOneStubMethodSignature vars)"
  unfolding GenerateOneStubMethodSignature_def
  by (intro neatI bound_intros bound_keys [where ks = signature_names]; (assumption | code_simp))

lemma neat_one_stub_method: "has_keys method_names vars \<Longrightarrow> neat (GenerateOneStubMethod vars)"
  unfolding GenerateOneStubMethod_def
  by (intro neatI bound_intros bound_keys [where ks = method_names]; (assumption | code_simp))

lemma neat_method_signatures: "neat (GenerateMethodSignatures sb sg v stub)"
  unfolding GenerateMethodSignatures_def Let_def
  by (intro neat_for_each_index neat_if neat_one_stub_method_signature neat_one_method_signature)
    (simp_all add: has_keys_def)

lemma neat_stub_methods: "neat (GenerateStubMethods sb sg)"
  unfolding GenerateStubMethods_def Let_def
  by (intro neat_for_each_index neat_one_stub_method) (simp add: has_keys_def)

lemma neat_not_implemented: "neat (GenerateNotImplementedMethods sb sg)"
  unfolding GenerateNotImplementedMethods_def Let_def
  by (intro neat_for_each_index neatI bound_intros bound_keys [where ks = method_names];
      (simp add: has_keys_def; fail | code_simp))

lemma neat_descriptor_initializer: "neat (GenerateDescriptorInitializer sb sg i)"
  unfolding GenerateDescriptorInitializer_def Let_def
  by (intro neatI bound_intros bound_keys [where ks = "[''classname'', ''index'']"];
      (simp add: has_keys_def; fail | code_simp))

lemma bound_call_case: "bound (call_method_case sb i method)"
  unfolding call_method_case_def Let_def
  by (rule bound_keys [where ks = "[''name'', ''index'', ''input_type'', ''output_type'']"];
      (simp add: has_keys_def; fail | code_simp))

lemma depth_call_case [simp]: "depth (call_method_case sb i method # ops) n = depth ops n"
  by (simp add: call_method_case_def Let_def)

abbreviation service_keys :: "service_generator \<Rightarrow> bool" where
  "service_keys sg \<equiv> has_keys service_names (sg_vars sg)"

lemma neat_interface:
  assumes "service_keys sg"
  shows "neat (GenerateInterface sb sg)"
proof (rule neatI)
  show "\<forall>op \<in> set (GenerateInterface sb sg). bound op"
    unfolding GenerateInterface_def
    by (intro bound_intros neatD(1) [OF neat_method_signatures]; (rule bound_plain; code_simp; fail
        | (rule bound_keys [OF assms], code_simp)))
qed (simp add: GenerateInterface_def depth_append neatD(2) [OF neat_method_signatures])

lemma neat_stub_definition:
  assumes "service_keys sg"
  shows "neat (GenerateStubDefinition sb sg)"
proof (rule neatI)
  show "\<forall>op \<in> set (GenerateStubDefinition sb sg). bound op"
    unfolding GenerateStubDefinition_def
    by (intro bound_intros neatD(1) [OF neat_method_signatures]; (rule bound_keys [OF assms], code_simp))
qed (simp add: GenerateStubDefinition_def depth_append neatD(2) [OF neat_method_signatures])

lemma neat_declarations: "service_keys sg \<Longrightarrow> neat (GenerateDeclarations sb sg)"
  unfolding GenerateDeclarations_def
  by (intro neat_append neat_interface neat_stub_definition neatI bound_intros
      bound_keys [where ks = service_names]; (assumption | code_simp))

lemma neat_call_method: "service_keys sg \<Longrightarrow> neat (GenerateCallMethod sb sg)"
  unfolding GenerateCallMethod_def
  by (intro neat_append neat_for_each_index neatI bound_intros bound_call_case
      bound_keys [where ks = service_names]; (assumption | simp; fail | code_simp))

lemma neat_get_prototype:
  assumes "service_keys sg"
  shows "neat (GenerateGetPrototype sb sg which)"
  unfolding GenerateGetPrototype_def Let_def
  by (cases which; simp only: request_or_response.distinct if_True if_False simp_thms;
      intro neat_append neat_for_each_index neatI bound_intros;
      ((rule bound_keys [OF assms], code_simp; fail) | (rule bound_keys [where ks = "[''index'', ''type'']"],
        simp add: has_keys_def, code_simp; fail) | code_simp))

lemma neat_implementation: "service_keys sg \<Longrightarrow> neat (GenerateImplementation sb sg)"
  unfolding GenerateImplementation_def
  by (intro neat_append neat_not_implemented neat_call_method neat_get_prototype neat_stub_methods
      neatI bound_intros bound_keys [where ks = service_names]; (assumption | code_simp))

end
