(* ===== verification/Cpp_File.thy ===== *)
theory Cpp_File
  imports Cpp_Service
begin

text \<open>
  \<open>FileGenerator\<close> (\<open>src/rpcz/plugin/cpp/file_generator.cc\<close>), which writes the header and the source
  for one \<open>.proto\<close> file, and \<open>RpczCppGenerator\<close> (\<open>rpcz_cpp_generator.cc\<close>), which reads the options
  and opens the two files.
\<close>

section \<open>\<open>FileGenerator\<close>\<close>

record file_generator =
  fg_file :: file_descriptor
  fg_dllexport_decl :: string
  package_parts :: "string list"
  service_generators :: "service_generator list"

definition new_file_generator :: "stubs \<Rightarrow> file_descriptor \<Rightarrow> string \<Rightarrow> file_generator" where
  "new_file_generator sb file dllexport_decl =
     \<lparr>fg_file = file, fg_dllexport_decl = dllexport_decl,
      package_parts = SplitStringUsing sb (file_package (fd_id file)) ''.'',
      service_generators = map (\<lambda>s. new_service_generator s dllexport_decl) (fd_services file)\<rparr>"

definition GenerateNamespaceOpeners :: "file_generator \<Rightarrow> printer_op list" where
  "GenerateNamespaceOpeners fg =
     (if length (package_parts fg) > 0 then [Print [] (lns [''''])] else [])
     @ for_each_index (package_parts fg) (\<lambda>i part.
         [Print [(''part'', part)] (lns [''namespace $part$ {''])])"

text \<open>The index runs from the last part down to the first.\<close>

definition GenerateNamespaceClosers :: "file_generator \<Rightarrow> printer_op list" where
  "GenerateNamespaceClosers fg =
     (if length (package_parts fg) > 0 then [Print [] (lns [''''])] else [])
     @ concat (map (\<lambda>i.
         [Print [(''part'', package_parts fg ! i)] (lns [''}  // namespace $part$''])])
         (rev [0..<length (package_parts fg)]))"

definition GenerateHeader :: "stubs \<Rightarrow> file_generator \<Rightarrow> printer_op list" where
  "GenerateHeader sb fg =
     (let name = file_name (fd_id (fg_file fg));
          filename_identifier = FilenameIdentifier sb name
      in [Print [(''filename'', name), (''filename_identifier'', filename_identifier)]
           (lns [''// Generated by the protocol buffer compiler.  DO NOT EDIT!'',
       ''// source: $filename$'',
       '''',
       ''#ifndef RPCZ_$filename_identifier$__INCLUDED'',
       ''#define RPCZ_$filename_identifier$__INCLUDED'',
       '''',
       ''#include <string>'',
       ''#include <boost/function.hpp>'',
       ''#include <rpcz/rpcz.hpp>'',
       '''',
       ''namespace google {'',
       ''namespace protobuf {'',
       ''class ServiceDescriptor;'',
       ''class MethodDescriptor;'',
       ''}  // namespace protobuf'',
       ''}  // namespace google'',
       ''''])]
       @ for_each_index (fd_dependencies (fg_file fg)) (\<lambda>i dep.
           [Print [(''dependency'', StripProto (file_name dep))]
             (lns [''#include \"$dependency$.pb.h\"''])])
       @ [Print [(''dependency'', StripProto name)]
           (lns [''#include \"$dependency$.pb.h\"''])]
       @ GenerateNamespaceOpeners fg
       @ [Print [(''assigndescriptorsname'', GlobalAssignDescriptorsName sb name),
           (''shutdownfilename'', GlobalShutdownFileName sb name)]
           (lns [''void rpcz_$assigndescriptorsname$();'',
       ''void rpcz_$shutdownfilename$();'',
       ''''])]
       @ for_each_index (service_generators fg) (\<lambda>i sg. GenerateDeclarations sb sg)
       @ GenerateNamespaceClosers fg
       @ [Print [(''filename_identifier'', filename_identifier)]
           (lns [''#endif  // RPCZ_$filename_identifier$__INCLUDED''])])"

text \<open>The bytes \<open>s.substr(i, n)\<close> for \<open>i\<close> = 0, \<open>n\<close>, 2\<open>n\<close>, ... below the size.\<close>

definition kBytesPerLine :: nat where "kBytesPerLine = 40"

function data_lines :: "bytes \<Rightarrow> nat \<Rightarrow> bytes list" where
  "data_lines file_data i = (if i < length file_data
     then take kBytesPerLine (drop i file_data) # data_lines file_data (i + kBytesPerLine) else [])"
  by pat_completeness auto

termination
  by (relation "measure (\<lambda>(d, i). length d - i)") (auto simp: kBytesPerLine_def)

declare data_lines.simps [simp del]

definition dependency_call :: "stubs \<Rightarrow> file_id \<Rightarrow> printer_op list" where
  "dependency_call sb dependency =
     (let dependency_package_parts = SplitStringUsing sb (file_package dependency) ''.''
      in [Print [] ''::'']
       @ for_each_index dependency_package_parts (\<lambda>i part. [Print [(''name'', part)] ''$name$::''])
       @ [Print [(''name'', GlobalAddDescriptorsName sb (file_name dependency))]
           (lns [''$name$();''])])"

definition embedded_descriptor :: "stubs \<Rightarrow> file_descriptor \<Rightarrow> printer_op list" where
  "embedded_descriptor sb file =
     (let file_data = fd_serialized file
      in [Print [] (''::google::protobuf::DescriptorPool::InternalAddGeneratedFile('')]
       @ map (\<lambda>piece. Print [(''data'', EscapeTrigraphs sb (CEscape sb piece))]
           ([CHR 0x0A] @ ''  \"$data$\"'')) (data_lines file_data 0)
       @ [Print [(''size'', SimpleItoa sb (int (length file_data)))]
           (lns ['', $size$);'']),
          Print [(''filename'', file_name (fd_id file))]
           (lns [''::google::protobuf::MessageFactory::InternalRegisterGeneratedFile('',
       ''  \"$filename$\", &protobuf_RegisterTypes);''])])"

definition GenerateBuildDescriptors :: "stubs \<Rightarrow> file_generator \<Rightarrow> printer_op list" where
  "GenerateBuildDescriptors sb fg =
     (let file = fg_file fg; name = file_name (fd_id file)
      in (if HasDescriptorMethods (fd_id file) then
          [Print [(''assigndescriptorsname'', GlobalAssignDescriptorsName sb name)]
            (lns ['''', ''void rpcz_$assigndescriptorsname$() {'']),
           Indent,
           Print [(''filename'', name)]
            (lns [''const ::google::protobuf::FileDescriptor* file ='',
       ''  ::google::protobuf::DescriptorPool::generated_pool()->FindFileByName('',
       ''    \"$filename$\");'',
       ''GOOGLE_CHECK(file != NULL);''])]
          @ for_each_index (service_generators fg) (\<lambda>i sg. GenerateDescriptorInitializer sb sg i)
          @ [Outdent,
           Print [] (lns [''}'', '''']),
           Print [(''assigndescriptorsname'', GlobalAssignDescriptorsName sb name)]
            (lns [''namespace {'',
       '''',
       ''GOOGLE_PROTOBUF_DECLARE_ONCE(protobuf_AssignDescriptors_once_);'',
       ''inline void protobuf_AssignDescriptorsOnce() {'',
       ''  ::google::protobuf::GoogleOnceInit(&protobuf_AssignDescriptors_once_,'',
       ''                 &rpcz_$assigndescriptorsname$);'',
       ''}'',
       '''']),
           Print []
            (lns [''void protobuf_RegisterTypes(const ::std::string&) {'',
       ''  protobuf_AssignDescriptorsOnce();'']),
           Indent,
           Outdent,
           Print [] (lns [''}'', '''', ''}  // namespace''])]
         else [])
       @ [Print [(''shutdownfilename'', GlobalShutdownFileName sb name)]
            (lns ['''', ''void rpcz_$shutdownfilename$() {'']),
          Indent,
          Outdent,
          Print [] (lns [''}'']),
          Print [(''adddescriptorsname'', GlobalAddDescriptorsName sb name)]
            (lns ['''', ''void rpcz_$adddescriptorsname$() {'',
             ''  static bool already_here = false;'',
             ''  if (already_here) return;'',
             ''  already_here = true;'',
             ''  GOOGLE_PROTOBUF_VERIFY_VERSION;'',
             '''']),
          Indent]
       @ for_each_index (fd_dependencies file) (\<lambda>i dep. dependency_call sb dep)
       @ (if HasDescriptorMethods (fd_id file) then embedded_descriptor sb file else [])
       @ [Print [(''shutdownfilename'', GlobalShutdownFileName sb name)]
            (lns [''::google::protobuf::internal::OnShutdown(&rpcz_$shutdownfilename$);'']),
          Outdent,
          Print [] (lns [''}''])])"

definition GenerateSource :: "stubs \<Rightarrow> file_generator \<Rightarrow> printer_op list" where
  "GenerateSource sb fg =
     (let file = fg_file fg; name = file_name (fd_id file)
      in [Print [(''basename'', StripProto name)]
           (lns [''// Generated by the protocol buffer compiler.  DO NOT EDIT!'',
       '''',
       ''#include \"$basename$.rpcz.h\"'',
       ''#include \"$basename$.pb.h\"'',
       ''#include <google/protobuf/descriptor.h>'',
       ''#include <google/protobuf/stubs/once.h>'',
       '''',
       ''namespace {''])]
       @ for_each_index (fd_services file) (\<lambda>i s. [Print [(''name'', sd_name s)]
           (lns [''const ::google::protobuf::ServiceDescriptor* $name$_descriptor_ = NULL;''])])
       @ [Print [] (lns [''}  // anonymouse namespace''])]
       @ GenerateNamespaceOpeners fg
       @ GenerateBuildDescriptors sb fg
       @ for_each_index (service_generators fg) (\<lambda>i sg.
           (if i = 0 then [Print [] (lns [''''])] else [])
           @ [Print [] kThickSeparator, Print [] (lns [''''])]
           @ GenerateImplementation sb sg)
       @ GenerateNamespaceClosers fg)"

section \<open>\<open>RpczCppGenerator\<close>\<close>

text \<open>What a plugin asks of protoc: to write a file, the calls on its printer, in order.\<close>

type_synonym output_file = "string \<times> printer_op list"

fun generator_options ::
  "(string \<times> string) list \<Rightarrow> string \<Rightarrow> string + string" where
  "generator_options [] dllexport_decl = Inr dllexport_decl"
| "generator_options ((key, val) # options) dllexport_decl =
     (if key = ''dllexport_decl'' then generator_options options val
      else Inl (''Unknown generator option: '' @ key))"

text \<open>
  \<open>options\<close> are the pairs \<open>ParseGeneratorParameter\<close> finds in the parameter. \<open>Inl\<close> is the error
  reported with \<open>false\<close>, before any file is opened.
\<close>

definition RpczCppGenerator_Generate ::
  "stubs \<Rightarrow> file_descriptor \<Rightarrow> (string \<times> string) list \<Rightarrow> string + output_file list" where
  "RpczCppGenerator_Generate sb file options =
     (case generator_options options [] of
        Inl error \<Rightarrow> Inl error
      | Inr dllexport_decl \<Rightarrow>
          let basename = StripSuffixString (file_name (fd_id file)) ''.proto'';
              basename = basename @ ''.rpcz'';
              file_generator = new_file_generator sb file dllexport_decl
          in Inr [(basename @ ''.h'', GenerateHeader sb file_generator),
                  (basename @ ''.cc'', GenerateSource sb file_generator)])"

section \<open>The calls are neat\<close>

lemma neat_plain: "uses t [] \<Longrightarrow> neat [Print vars t]"
  by (rule neatI) (auto intro: bound_plain simp del: bound.simps)

text \<open>A call whose variables are the one pair, or the two pairs, it has.\<close>

lemma bound_one: "uses t [k] \<Longrightarrow> bound (Print [(k, v)] t)"
  by (rule bound_keys [where ks = "[k]"]) (simp_all add: has_keys_def)

lemma neat_one: "uses t [k] \<Longrightarrow> neat [Print [(k, v)] t]"
  by (rule neatI) (auto intro: bound_one simp del: bound.simps)

lemma neat_two: "uses t [k, l] \<Longrightarrow> neat [Print [(k, v), (l, w)] t]"
  by (rule neatI) (auto intro!: bound_keys [where ks = "[k, l]"] simp: has_keys_def simp del: bound.simps)

lemma neat_openers: "neat (GenerateNamespaceOpeners fg)"
  unfolding GenerateNamespaceOpeners_def
  by (intro neat_append neat_if neat_for_each_index neat_one neat_plain neat_Nil; code_simp)

lemma neat_closers: "neat (GenerateNamespaceClosers fg)"
proof -
  have "neat [Print [(''part'', part)] (lns [''}  // namespace $part$''])]" for part
    by (intro neat_one; code_simp)
  moreover have "neat (if b then [Print [] (lns [''''])] else [])" for b
    by (intro neat_if neat_plain neat_Nil; code_simp)
  ultimately show ?thesis
    unfolding GenerateNamespaceClosers_def by (intro neat_append neat_concat) auto
qed

lemma new_file_generator_keys:
  "i < length (service_generators (new_file_generator sb file decl)) \<Longrightarrow>
     service_keys (service_generators (new_file_generator sb file decl) ! i)"
  by (simp add: new_file_generator_def has_keys_new)

lemma neat_for_each_nth:
  "(\<And>i. i < length xs \<Longrightarrow> neat (body i (xs ! i))) \<Longrightarrow> neat (for_each_index xs body)"
  unfolding for_each_index_def by (rule neat_concat) auto

lemma neat_header: "neat (GenerateHeader sb (new_file_generator sb file decl))"
  unfolding GenerateHeader_def Let_def
  by (intro neat_append neat_openers neat_closers neat_for_each_nth neat_declarations
      new_file_generator_keys neat_one neat_two; (assumption | code_simp))

lemma neat_dependency: "neat (dependency_call sb d)"
  unfolding dependency_call_def Let_def
  by (intro neat_append neat_for_each_index neat_one neat_plain; code_simp)

lemma neat_embedded: "neat (embedded_descriptor sb file)"
proof -
  have "bound (Print [(''data'', v)] ([CHR 0x0A] @ ''  \"$data$\"''))" for v
    by (rule bound_one) code_simp
  then have data: "neat (map (\<lambda>piece. Print [(''data'', f piece)] ([CHR 0x0A] @ ''  \"$data$\"'')) ps)"
    for ps :: "bytes list" and f
    by (induction ps) (auto intro!: neat_Print neat_Nil simp del: bound.simps)
  show ?thesis
    unfolding embedded_descriptor_def Let_def
    by (intro neat_append data neat_plain; (intro neatI bound_intros bound_one)?; code_simp)
qed

lemma neat_build_descriptors: "neat (GenerateBuildDescriptors sb fg)"
proof (rule neatI)
  show "\<forall>op \<in> set (GenerateBuildDescriptors sb fg). bound op"
    unfolding GenerateBuildDescriptors_def Let_def
    by (cases "HasDescriptorMethods (fd_id (fg_file fg))"; simp only: if_True if_False;
        intro bound_intros bound_one neatD(1) [OF neat_for_each_index] neat_descriptor_initializer
          neat_dependency neatD(1) [OF neat_embedded]; (code_simp; fail | rule bound_plain, code_simp))
qed (simp add: GenerateBuildDescriptors_def Let_def depth_append neatD(2) [OF neat_embedded]
    neatD(2) [OF neat_for_each_index] neat_descriptor_initializer neat_dependency)

lemma neat_source: "neat (GenerateSource sb (new_file_generator sb file decl))"
proof -
  have sep: "neat [Print [] kThickSeparator, Print [] (lns [''''])]"
    by (intro neatI bound_intros bound_plain; code_simp)
  show ?thesis
    unfolding GenerateSource_def Let_def
    by (intro neat_append neat_openers neat_closers neat_build_descriptors neat_for_each_nth
        neat_implementation new_file_generator_keys neat_one neat_plain neat_if neat_Nil sep;
        (assumption | code_simp))
qed

end
