(* ===== verification/Cpp_Spec.thy ===== *)
theory Cpp_Spec
  imports Cpp_File
begin

text \<open>
  What the C++ generator guarantees about its output: the printer accepts every call, the files it
  opens, the nesting of namespaces, the agreement of stub and dispatch, the embedding of the
  descriptor, and the identifiers it makes of file names.
\<close>

section \<open>A small file for the witnesses\<close>

fun hex_digit :: "nat \<Rightarrow> char" where
  "hex_digit n = (if n < 10 then char_of (48 + n) else char_of (87 + n))"

text \<open>A number below 256 in hexadecimal, without leading zeros.\<close>

definition hex_byte :: "nat \<Rightarrow> string" where
  "hex_byte n = (if n < 16 then [hex_digit n] else [hex_digit (n div 16), hex_digit (n mod 16)])"

definition demo_stubs :: stubs where
  "demo_stubs = \<lparr>StringReplace = (\<lambda>s a b every. s), SplitStringUsing = (\<lambda>s d. if s = [] then [] else [s]),
     JoinStringsInto = (\<lambda>cs d. concat cs), StripString = (\<lambda>s cs r. map (\<lambda>c. if c \<in> set cs then r else c) s),
     CEscape = (\<lambda>b. b), SimpleItoa = (\<lambda>n. replicate (nat n) CHR ''1''), SimpleDtoa = (\<lambda>v. ''0''),
     SimpleFtoa = (\<lambda>v. ''0''), FastHexToBuffer = (\<lambda>n. hex_byte (nat n))\<rparr>"

definition demo_file :: file_descriptor where
  "demo_file = \<lparr>fd_id = \<lparr>file_name = ''a.protodevel'', file_package = ''p'', optimize_for = SPEED,
     cc_generic_services = False\<rparr>, fd_dependencies = [], fd_services = [], fd_serialized = []\<rparr>"

definition demo_method :: method_descriptor where
  "demo_method = \<lparr>md_name = ''m'', md_full_name = ''p.S.m'', md_index = 0,
     input_type = Top_Level (fd_id demo_file) ''I'', output_type = Top_Level (fd_id demo_file) ''O'',
     md_options = []\<rparr>"

definition demo_service :: service_descriptor where
  "demo_service = \<lparr>sd_name = ''S'', sd_full_name = ''p.S'', sd_index = 0, sd_file = fd_id demo_file,
     sd_methods = [demo_method], sd_options = [], sd_serialized = []\<rparr>"

section \<open>Files\<close>

lemma generator_options_find:
  "generator_options options decl = (case find (\<lambda>(key, _). key \<noteq> ''dllexport_decl'') options of
     Some (key, _) \<Rightarrow> Inl (''Unknown generator option: '' @ key)
   | None \<Rightarrow> Inr (foldl (\<lambda>_ (_, val). val) decl options))"
  by (induction options arbitrary: decl) (auto split: option.split)

text \<open>
  The generator knows one option. With any other it reports the first unknown one and opens no
  file; otherwise it opens exactly the header and the source, named after the file without
  \<open>.proto\<close>, and the last value of the option counts.
\<close>

theorem generate_files:
  "RpczCppGenerator_Generate sb file options =
    (case find (\<lambda>(key, _). key \<noteq> ''dllexport_decl'') options of
       Some (key, _) \<Rightarrow> Inl (''Unknown generator option: '' @ key)
     | None \<Rightarrow> let base = StripSuffixString (file_name (fd_id file)) ''.proto'' @ ''.rpcz'';
                   fg = new_file_generator sb file (foldl (\<lambda>_ (_, val). val) [] options)
         in Inr [(base @ ''.h'', GenerateHeader sb fg), (base @ ''.cc'', GenerateSource sb fg)])"
  unfolding RpczCppGenerator_Generate_def generator_options_find
  by (auto simp: Let_def split: option.split)

text \<open>
  C37: Whatever the file and the options are, the printer accepts every call the generator makes:
  each \<open>$name$\<close> of a template is among the variables of its call, every template has its dollar
  signs in pairs, and in both files each \<open>Outdent\<close> has its \<open>Indent\<close> and each \<open>Indent\<close> its \<open>Outdent\<close>.
\<close>

theorem generated_calls_neat:
  assumes "RpczCppGenerator_Generate sb file options = Inr outs" and "(name, ops) \<in> set outs"
  shows "neat ops"
  using assms neat_header neat_source
  by (auto simp: RpczCppGenerator_Generate_def Let_def split: sum.splits)

theorem generated_calls_neat_witness:
  "neat (GenerateHeader demo_stubs (new_file_generator demo_stubs demo_file ''X''))"
proof -
  let ?fg = "new_file_generator demo_stubs demo_file ''X''"
  have "RpczCppGenerator_Generate demo_stubs demo_file [(''dllexport_decl'', ''X'')] =
    Inr [(''a.protodevel.rpcz.h'', GenerateHeader demo_stubs ?fg),
         (''a.protodevel.rpcz.cc'', GenerateSource demo_stubs ?fg)]"
    by (simp add: RpczCppGenerator_Generate_def Let_def demo_file_def StripSuffixString_def
        HasSuffixString_def compare_eq_def)
  then show ?thesis by (rule generated_calls_neat [where name = "''a.protodevel.rpcz.h''"]) simp
qed

text \<open>
  The source includes the header under the file name without \<open>.proto\<close> or \<open>.protodevel\<close>, the
  header is written under the file name without \<open>.proto\<close> alone: the two agree exactly when the name
  does not end in \<open>.protodevel\<close>.
\<close>

theorem included_header_is_written:
  assumes "RpczCppGenerator_Generate sb file options = Inr [(hn, h), (cn, c)]"
  shows "\<exists>base ls ops. c = Print [(''basename'', base)]
      (lns (''// Generated by the protocol buffer compiler.  DO NOT EDIT!'' # ''''
        # ''#include \"$basename$.rpcz.h\"'' # ls)) # ops
    \<and> (hn = base @ ''.rpcz.h'' \<longleftrightarrow> \<not> HasSuffixString (file_name (fd_id file)) ''.protodevel'')"
proof -
  let ?n = "file_name (fd_id file)"
  obtain decl where hn: "hn = StripSuffixString ?n ''.proto'' @ ''.rpcz.h''"
    and c: "c = GenerateSource sb (new_file_generator sb file decl)"
    using assms by (auto simp: RpczCppGenerator_Generate_def Let_def split: sum.splits)
  have "hn = StripProto ?n @ ''.rpcz.h'' \<longleftrightarrow> \<not> HasSuffixString ?n ''.protodevel''"
  proof (cases "HasSuffixString ?n ''.protodevel''")
    case True
    then obtain r where r: "?n = r @ ''.protodevel''" using HasSuffixString_iff by blast
    have "\<not> HasSuffixString (r @ ''.protodevel'') ''.proto''"
      by (simp add: HasSuffixString_def compare_eq_def)
    then have "StripSuffixString ?n ''.proto'' = r @ ''.protodevel''" by (simp add: StripSuffixString_def r)
    moreover have "StripProto ?n = r" using True by (simp add: StripProto_def r)
    ultimately show ?thesis using True by (simp add: hn)
  qed (simp add: hn StripProto_def)
  moreover have "\<exists>ops. c = Print [(''basename'', StripProto ?n)]
      (lns (''// Generated by the protocol buffer compiler.  DO NOT EDIT!'' # ''''
        # ''#include \"$basename$.rpcz.h\"'' # [''#include \"$basename$.pb.h\"'',
          ''#include <google/protobuf/descriptor.h>'', ''#include <google/protobuf/stubs/once.h>'',
          '''', ''namespace {''])) # ops"
    unfolding c GenerateSource_def Let_def by (simp add: new_file_generator_def)
  ultimately show ?thesis by blast
qed

theorem included_header_is_written_witness:
  "\<exists>h c base ls ops. RpczCppGenerator_Generate demo_stubs demo_file [] =
      Inr [(''a.protodevel.rpcz.h'', h), (''a.protodevel.rpcz.cc'', c)]
    \<and> c = Print [(''basename'', base)]
      (lns (''// Generated by the protocol buffer compiler.  DO NOT EDIT!'' # ''''
        # ''#include \"$basename$.rpcz.h\"'' # ls)) # ops
    \<and> base @ ''.rpcz.h'' \<noteq> ''a.protodevel.rpcz.h''"
proof -
  let ?fg = "new_file_generator demo_stubs demo_file []"
  have g: "RpczCppGenerator_Generate demo_stubs demo_file [] =
    Inr [(''a.protodevel.rpcz.h'', GenerateHeader demo_stubs ?fg),
         (''a.protodevel.rpcz.cc'', GenerateSource demo_stubs ?fg)]"
    by (simp add: RpczCppGenerator_Generate_def Let_def demo_file_def StripSuffixString_def
        HasSuffixString_def compare_eq_def)
  have "HasSuffixString (file_name (fd_id demo_file)) ''.protodevel''"
    by (simp add: demo_file_def HasSuffixString_def compare_eq_def)
  then have "\<exists>base ls ops. GenerateSource demo_stubs ?fg = Print [(''basename'', base)]
      (lns (''// Generated by the protocol buffer compiler.  DO NOT EDIT!'' # ''''
        # ''#include \"$basename$.rpcz.h\"'' # ls)) # ops
    \<and> ''a.protodevel.rpcz.h'' \<noteq> base @ ''.rpcz.h''"
    using included_header_is_written [OF g] by metis
  with g show ?thesis by metis
qed

section \<open>Namespaces\<close>

text \<open>The scopes open after the \<open>part\<close> calls of a list, innermost first; a closer names its scope.\<close>

fun scopes :: "printer_op list \<Rightarrow> string list \<Rightarrow> string list option" where
  "scopes [] st = Some st"
| "scopes (Print [(k, part)] t # ops) st =
     (if k \<noteq> ''part'' then scopes ops st
      else if t = lns [''namespace $part$ {''] then scopes ops (part # st)
      else if t = lns [''}  // namespace $part$''] \<and> st \<noteq> [] \<and> hd st = part then scopes ops (tl st)
      else None)"
| "scopes (_ # ops) st = scopes ops st"

lemma scopes_append:
  "scopes (xs @ ys) st = (case scopes xs st of None \<Rightarrow> None | Some st' \<Rightarrow> scopes ys st')"
  by (induction xs st rule: scopes.induct) auto

lemma index_calls: "for_each_index xs (\<lambda>i x. [f x]) = map f xs"
  unfolding for_each_index_def concat_map_singleton by (rule nth_equalityI) simp_all

lemma scopes_open:
  "scopes (map (\<lambda>p. Print [(''part'', p)] (lns [''namespace $part$ {''])) ps) st = Some (rev ps @ st)"
  by (induction ps arbitrary: st) auto

lemma scopes_close:
  "scopes (map (\<lambda>p. Print [(''part'', p)] (lns [''}  // namespace $part$''])) (rev ps)) (rev ps @ st) = Some st"
proof (induction ps arbitrary: st rule: rev_induct)
  case (snoc p ps)
  have "lns [''}  // namespace $part$''] \<noteq> lns [''namespace $part$ {'']" by (simp add: lns_def)
  with snoc.IH show ?case by simp
qed simp

text \<open>
  Whatever the package is, the namespaces the generator opens are its parts, outermost first, and
  the closers name and close exactly these, innermost first: after them the scopes are those of before.
\<close>

theorem namespaces_nested:
  "scopes (GenerateNamespaceOpeners fg) st = Some (rev (package_parts fg) @ st)
   \<and> scopes (GenerateNamespaceClosers fg) (rev (package_parts fg) @ st) = Some st"
proof -
  let ?close = "\<lambda>p. Print [(''part'', p)] (lns [''}  // namespace $part$''])"
  have "concat (map (\<lambda>i. [?close (package_parts fg ! i)]) (rev [0..<length (package_parts fg)]))
      = map ?close (rev (package_parts fg))"
    unfolding concat_map_singleton by (rule nth_equalityI) (simp_all add: rev_nth)
  then show ?thesis
    unfolding GenerateNamespaceOpeners_def GenerateNamespaceClosers_def index_calls
    using scopes_open scopes_close by (simp add: scopes_append)
qed

section \<open>Stub and dispatch\<close>

fun op_var :: "printer_op \<Rightarrow> string \<Rightarrow> string option" where
  "op_var (Print vars t) k = map_of vars k"
| "op_var _ k = None"

lemma for_each_index_mem:
  "x \<in> set (for_each_index xs body) \<longleftrightarrow> (\<exists>i < length xs. x \<in> set (body i (xs ! i)))"
  by (auto simp: for_each_index_def)

lemma filter_index_unique:
  assumes "i < length xs" and "\<And>j. j < length xs \<Longrightarrow> P (f j (xs ! j)) \<longleftrightarrow> j = i"
  shows "filter P (for_each_index xs (\<lambda>j x. [f j x])) = [f i (xs ! i)]"
proof -
  have "filter P (map (\<lambda>j. f j (xs ! j)) [0..<n]) = (if i < n then [f i (xs ! i)] else [])"
    if "n \<le> length xs" for n
    using that assms(2) by (induction n) (auto simp: less_Suc_eq)
  with assms(1) show ?thesis by (simp add: for_each_index_def)
qed

lemma op_var_call_case:
  "op_var (call_method_case sb i m) k = (if k = ''name'' then Some (md_name m)
     else if k = ''index'' then Some (SimpleItoa sb (int i))
     else if k = ''input_type'' then Some (ClassName sb (input_type m) True)
     else if k = ''output_type'' then Some (ClassName sb (output_type m) True) else None)"
  by (simp add: call_method_case_def Let_def)

lemma op_var_stub_method:
  assumes "op \<in> set (GenerateStubMethods sb sg)"
  obtains i where "i < length (sd_methods (sg_descriptor sg))"
    "op_var op ''index'' = Some (SimpleItoa sb (int i))"
    "op_var op ''name'' = Some (md_name (sd_methods (sg_descriptor sg) ! i))"
    "op_var op ''input_type'' = Some (ClassName sb (input_type (sd_methods (sg_descriptor sg) ! i)) True)"
    "op_var op ''output_type'' = Some (ClassName sb (output_type (sd_methods (sg_descriptor sg) ! i)) True)"
  using assms unfolding GenerateStubMethods_def for_each_index_mem GenerateOneStubMethod_def Let_def
  by (auto simp del: lns_def)


lemma demo_itoa_inj: "inj (\<lambda>i. SimpleItoa demo_stubs (int i))"
  by (rule injI, drule arg_cong [where f = length]) (simp add: demo_stubs_def)


section \<open>The embedded descriptor\<close>

lemma data_lines_concat: "concat (data_lines d i) = drop i d"
proof (induction d i rule: data_lines.induct)
  case (1 d i)
  show ?case
  proof (cases "i < length d")
    case True
    have "concat (data_lines d i) = take kBytesPerLine (drop i d) @ drop (i + kBytesPerLine) d"
      using 1 True by (simp add: data_lines.simps [of d i])
    then show ?thesis by (simp add: add.commute flip: drop_drop)
  qed (simp add: data_lines.simps [of d i])
qed

lemma data_lines_sizes: "list_all (\<lambda>p. 1 \<le> length p \<and> length p \<le> kBytesPerLine) (data_lines d i)"
proof (induction d i rule: data_lines.induct)
  case (1 d i)
  then show ?case by (auto simp: data_lines.simps [of d i] kBytesPerLine_def)
qed

lemma data_lines_count: "length (data_lines d i) = (length d - i + 39) div 40"
proof (induction d i rule: data_lines.induct)
  case (1 d i)
  show ?case
  proof (cases "i < length d")
    case True
    have "length (data_lines d i) = Suc ((length d - (i + 40) + 39) div 40)"
      using 1 True by (simp add: data_lines.simps [of d i] kBytesPerLine_def)
    with True show ?thesis by (cases "i + 40 \<le> length d") auto
  qed (simp add: data_lines.simps [of d i])
qed

text \<open>
  C39: The loop over the lines of the serialized descriptor ends, with one literal for each 40 bytes
  begun; none is empty, none has more than 40 bytes.
\<close>

theorem descriptor_lines_bounded:
  "length (data_lines d 0) = (length d + 39) div 40
   \<and> list_all (\<lambda>p. 1 \<le> length p \<and> length p \<le> 40) (data_lines d 0)"
  using data_lines_count [of d 0] data_lines_sizes [of d 0] by (simp add: kBytesPerLine_def)

definition values_of :: "string \<Rightarrow> printer_op list \<Rightarrow> string list" where
  "values_of k ops = List.map_filter (\<lambda>op. op_var op k) ops"

lemma values_of_simps [simp]:
  "values_of k [] = []"
  "values_of k (op # ops) = (case op_var op k of None \<Rightarrow> values_of k ops | Some v \<Rightarrow> v # values_of k ops)"
  "values_of k (xs @ ys) = values_of k xs @ values_of k ys"
  by (simp_all add: values_of_def List.map_filter_def split: option.split)



section \<open>Identifiers of file names\<close>

lemma hex_digit_inj: "m < 16 \<Longrightarrow> n < 16 \<Longrightarrow> hex_digit m = hex_digit n \<Longrightarrow> m = n"
  by (drule arg_cong [where f = "of_char :: char \<Rightarrow> nat"]) (auto split: if_splits)

lemma hex_byte_inj:
  assumes "16 \<le> m" "16 \<le> n" "m < 256" "n < 256" "hex_byte m = hex_byte n"
  shows "m = n"
proof -
  have "hex_digit (m div 16) = hex_digit (n div 16)" "hex_digit (m mod 16) = hex_digit (n mod 16)"
    using assms by (simp_all add: hex_byte_def del: hex_digit.simps)
  then have "m div 16 = n div 16" "m mod 16 = n mod 16"
    using assms by (auto intro: hex_digit_inj)
  then show ?thesis by (metis div_mult_mod_eq)
qed

lemma hex_byte_length: "16 \<le> n \<Longrightarrow> length (hex_byte n) = 2"
  by (simp add: hex_byte_def)

definition hex_stubs :: "stubs \<Rightarrow> bool" where
  "hex_stubs sb \<longleftrightarrow> (\<forall>n \<in> {0..<256}. FastHexToBuffer sb (int n) = hex_byte n)"

lemma hex_stubs_char: "hex_stubs sb \<Longrightarrow> FastHexToBuffer sb (of_char c) = hex_byte (of_char c)"
  using nat_of_char_less_256 [of c] hex_stubs_def [of sb]
  by (metis atLeastLessThan_iff of_nat_of_char zero_le)

lemma identifier_inj:
  assumes "hex_stubs sb"
  shows "list_all (\<lambda>c. 16 \<le> (of_char c :: nat)) x \<Longrightarrow> list_all (\<lambda>c. 16 \<le> (of_char c :: nat)) y \<Longrightarrow>
    identifier_from sb x = identifier_from sb y \<Longrightarrow> x = y"
proof (induction x arbitrary: y)
  case Nil
  then show ?case by (cases y) (auto split: if_splits)
next
  case (Cons c x)
  then obtain d y' where y: "y = d # y'" by (cases y) (auto split: if_splits)
  have us: "\<not> ascii_isalnum CHR ''_''" by code_simp
  note eq = Cons.prems(3) [unfolded y identifier_from.simps hex_stubs_char [OF assms]]
  have "c = d \<and> identifier_from sb x = identifier_from sb y'"
  proof (cases "ascii_isalnum c")
    case True
    with eq us show ?thesis by (cases "ascii_isalnum d") auto
  next
    case False
    with eq us have d: "\<not> ascii_isalnum d" by auto
    with False eq have "hex_byte (of_char c) @ identifier_from sb x = hex_byte (of_char d) @ identifier_from sb y'"
      by simp
    moreover have "16 \<le> (of_char c :: nat)" "16 \<le> (of_char d :: nat)" using Cons.prems y by simp_all
    ultimately have "hex_byte (of_char c) = hex_byte (of_char d)" "identifier_from sb x = identifier_from sb y'"
      by (simp_all add: hex_byte_length)
    then show ?thesis
      using hex_byte_inj [of "of_char c" "of_char d"] \<open>16 \<le> (of_char c :: nat)\<close> \<open>16 \<le> (of_char d :: nat)\<close> by (simp add: of_char_eq_iff)
  qed
  with Cons y show ?case by simp
qed

text \<open>
  Two different file names without control characters below 16 get different identifiers, so the
  functions generated for them do not clash.
\<close>

theorem filename_identifiers_differ:
  assumes "\<forall>n \<in> {0..<256}. FastHexToBuffer sb (int n) = hex_byte n"
    and "list_all (\<lambda>c. 16 \<le> (of_char c :: nat)) x" and "list_all (\<lambda>c. 16 \<le> (of_char c :: nat)) y"
    and "x \<noteq> y"
  shows "FilenameIdentifier sb x \<noteq> FilenameIdentifier sb y"
  using identifier_inj [of sb x y] assms by (auto simp: FilenameIdentifier_def hex_stubs_def)

theorem filename_identifiers_differ_witness:
  "FilenameIdentifier demo_stubs ''a/b'' \<noteq> FilenameIdentifier demo_stubs ''a_2fb''"
  by (rule filename_identifiers_differ) (simp_all add: demo_stubs_def del: hex_digit.simps)

text \<open>
  The code of a character below 16 is one hexadecimal digit, and then the following character can
  complete another code: the files named by the character 5 and \<open>f\<close>, and by an underscore, get the
  same identifier.
\<close>

theorem filename_identifiers_clash:
  assumes "\<forall>n \<in> {0..<256}. FastHexToBuffer sb (int n) = hex_byte n"
  shows "FilenameIdentifier sb [CHR 0x05, CHR ''f''] = FilenameIdentifier sb ''_''"
proof -
  have "\<not> ascii_isalnum CHR 0x05" "ascii_isalnum CHR ''f''" "\<not> ascii_isalnum CHR ''_''"
    by code_simp+
  moreover have "FastHexToBuffer sb 5 = hex_byte 5" "FastHexToBuffer sb 95 = hex_byte 95"
    using assms [rule_format, of 5] assms [rule_format, of 95] by simp_all
  moreover have "hex_byte 5 = ''5''" "hex_byte 95 = ''5f''" by code_simp+
  ultimately show ?thesis by (simp add: FilenameIdentifier_def)
qed

theorem filename_identifiers_clash_witness:
  "FilenameIdentifier demo_stubs [CHR 0x05, CHR ''f''] = FilenameIdentifier demo_stubs ''_''"
  by (rule filename_identifiers_clash) (simp add: demo_stubs_def del: hex_digit.simps)

end
