(* ===== verification/Python_Spec.thy ===== *)
theory Python_Spec
  imports Python_File Cpp_Spec
begin

text \<open>
  What the Python generator guarantees about its output: it does not end the process on what
  protobuf serializes, the positions it prints delimit the service in the descriptor, the printer
  accepts its calls; and when two services of a file are given one name.
\<close>

section \<open>The position of a service\<close>

lemma find_from_here: "take (length s) xs = s \<Longrightarrow> find_from s xs pos = of_nat pos"
  by (cases xs) auto

lemma find_from_append:
  "\<exists>a \<le> length pre. find_from s (pre @ s @ post) pos = of_nat (pos + a)
     \<and> take (length s) (drop a (pre @ s @ post)) = s"
proof (induction pre arbitrary: pos)
  case (Cons b pre)
  show ?case
  proof (cases "take (length s) (b # pre @ s @ post) = s")
    case False
    from Cons [of "Suc pos"] obtain a where "a \<le> length pre"
      "find_from s (pre @ s @ post) (Suc pos) = of_nat (Suc pos + a)"
      "take (length s) (drop a (pre @ s @ post)) = s" by auto
    with False show ?thesis by (intro exI [of _ "Suc a"]) (auto simp del: of_nat_add of_nat_Suc)
  qed (auto intro: exI [of _ 0])
qed (simp add: find_from_here)

lemma sint_small: "a < 2 ^ 31 \<Longrightarrow> sint (of_nat a :: 32 word) = int a"
  by (simp add: signed_of_nat signed_take_bit_int_eq_self)

lemma small_offset:
  assumes "a + k < 2 ^ 31"
  shows "sint (ucast (of_nat a :: 64 word) :: 32 word) = int a"
    "uint (scast (ucast (of_nat a :: 64 word) :: 32 word) + of_nat k :: 64 word) = int (a + k)"
proof -
  have "(ucast (of_nat a :: 64 word) :: 32 word) = of_nat a"
    using assms by (simp add: unsigned_of_nat take_bit_nat_eq_self)
  then show start: "sint (ucast (of_nat a :: 64 word) :: 32 word) = int a"
    using assms by (simp add: sint_small)
  have "(scast (ucast (of_nat a :: 64 word) :: 32 word) :: 64 word) = of_nat a"
    by (metis start of_int_of_nat_eq of_int_sint)
  then have "(scast (ucast (of_nat a :: 64 word) :: 32 word) + of_nat k :: 64 word) = of_nat (a + k)"
    by simp
  then show "uint (scast (ucast (of_nat a :: 64 word) :: 32 word) + of_nat k :: 64 word) = int (a + k)"
    using assms by (simp only: uint_nat unat_of_nat) simp
qed

lemma interval_found:
  assumes "file_descriptor_serialized g = pre @ sp @ post" "length pre + length sp < 2 ^ 31"
  obtains a t where "PrintSerializedPbInterval sb g sp = Some [Print
      [(''serialized_start'', SimpleItoa sb (int a)),
       (''serialized_end'', SimpleItoa sb (int (a + length sp)))] t]"
    "take (length sp) (drop a (file_descriptor_serialized g)) = sp"
proof -
  obtain a where a: "a \<le> length pre" "find_from sp (pre @ sp @ post) 0 = of_nat (0 + a)"
    "take (length sp) (drop a (pre @ sp @ post)) = sp"
    using find_from_append [of pre sp post 0] by blast
  then have "a + length sp < 2 ^ 31" using assms(2) by simp
  note o = small_offset [OF this]
  show thesis
  proof (rule that [of a])
    show "take (length sp) (drop a (file_descriptor_serialized g)) = sp" using a(3) assms(1) by metis
  qed (simp add: PrintSerializedPbInterval_def Let_def string_find_def a(2) assms(1) o del: of_nat_add)
qed

text \<open>
  When the bytes of the service are part of the bytes of its file, of less than two gigabytes, the
  generator prints an interval, and it delimits just the bytes of the service.
\<close>

theorem interval_delimits_service:
  assumes "file_descriptor_serialized g = pre @ sp @ post"
    and "length (file_descriptor_serialized g) < 2 ^ 31"
  shows "\<exists>from to t. PrintSerializedPbInterval sb g sp = Some [Print
      [(''serialized_start'', SimpleItoa sb (int from)), (''serialized_end'', SimpleItoa sb (int to))] t]
    \<and> drop from (take to (file_descriptor_serialized g)) = sp"
proof -
  have "length pre + length sp < 2 ^ 31" using assms by simp
  from interval_found [OF assms(1) this, of sb] obtain a t where
    *: "PrintSerializedPbInterval sb g sp = Some [Print
      [(''serialized_start'', SimpleItoa sb (int a)),
       (''serialized_end'', SimpleItoa sb (int (a + length sp)))] t]"
    and "take (length sp) (drop a (file_descriptor_serialized g)) = sp" by blast
  then have "drop a (take (a + length sp) (file_descriptor_serialized g)) = sp"
    by (simp add: drop_take)
  with * show ?thesis by blast
qed

theorem interval_delimits_service_witness:
  "\<exists>from to t. PrintSerializedPbInterval demo_stubs
      (new_py_generator demo_file\<lparr>file_descriptor_serialized := ''abc''\<rparr>) ''bc'' = Some [Print
      [(''serialized_start'', SimpleItoa demo_stubs (int from)),
       (''serialized_end'', SimpleItoa demo_stubs (int to))] t]
    \<and> drop from (take to ''abc'') = ''bc''"
  using interval_delimits_service [of "new_py_generator demo_file\<lparr>file_descriptor_serialized := ''abc''\<rparr>"
      "''a''" "''bc''" "[]" demo_stubs] by simp

section \<open>The module\<close>

abbreviation py_method_names :: "string list" where
  "py_method_names \<equiv> [''name'', ''full_name'', ''index'', ''serialized_options'', ''input_type'',
     ''output_type'', ''options_value'']"

lemma neat_print_method: "neat (print_method sb g m)"
proof (rule neatI)
  show "\<forall>op \<in> set (print_method sb g m). bound op"
    unfolding print_method_def Let_def
    by (intro bound_intros; (rule bound_plain; code_simp; fail
        | rule bound_keys [where ks = py_method_names], simp add: has_keys_def, code_simp))
qed (simp add: print_method_def Let_def)

lemma neat_boilerplate: "neat (PrintTopBoilerplate b)"
  unfolding PrintTopBoilerplate_def
  by (cases b; simp only: simp_thms if_True if_False; intro neatI bound_intros; code_simp)

lemma neat_imports: "neat (PrintImports sb g)"
  unfolding PrintImports_def Let_def
  by (intro neat_append neat_for_each_index neat_one neat_plain; code_simp)

lemma neat_service_class: "neat (PrintServiceClass sb g d)" "neat (PrintServiceStub sb g d)"
proof -
  have two: "uses t [k, l] \<Longrightarrow> bound (Print [(k, v), (l, w)] t)" for t k l v w
    by (rule bound_keys [where ks = "[k, l]"]) (simp_all add: has_keys_def)
  have "\<forall>op \<in> set (PrintServiceClass sb g d). bound op" "\<forall>op \<in> set (PrintServiceStub sb g d). bound op"
    unfolding PrintServiceClass_def PrintServiceStub_def
    by (intro bound_intros bound_one two; code_simp)+
  then show "neat (PrintServiceClass sb g d)" "neat (PrintServiceStub sb g d)"
    by (simp_all add: neat_def PrintServiceClass_def PrintServiceStub_def)
qed

lemma neat_interval: "PrintSerializedPbInterval sb g sp = Some ops \<Longrightarrow> neat ops"
proof -
  have two: "uses t [k, l] \<Longrightarrow> neat [Print [(k, v), (l, w)] t]" for t k l v w by (rule neat_two)
  assume "PrintSerializedPbInterval sb g sp = Some ops"
  then have ops: "\<exists>v w. ops = [Print [(''serialized_start'', v), (''serialized_end'', w)]
      (lns [''serialized_start=$serialized_start$,'', ''serialized_end=$serialized_end$,''])]"
    by (auto simp: PrintSerializedPbInterval_def Let_def split: if_splits)
  have "neat [Print [(''serialized_start'', v), (''serialized_end'', w)]
      (lns [''serialized_start=$serialized_start$,'', ''serialized_end=$serialized_end$,''])]" for v w
    by (rule two) code_simp
  with ops show "neat ops" by blast
qed

lemma neat_service_descriptor:
  assumes "PrintServiceDescriptor sb g d = Some ops"
  shows "neat ops"
proof -
  obtain iv where iv: "PrintSerializedPbInterval sb g (sd_serialized d) = Some iv"
    using assms by (auto simp: PrintServiceDescriptor_def Let_def split: option.splits)
  note n = neat_interval [OF iv] neat_for_each_index [OF neat_print_method]
  have ops: "the (PrintServiceDescriptor sb g d) = ops" using assms by simp
  have "\<forall>op \<in> set (the (PrintServiceDescriptor sb g d)). bound op"
    unfolding PrintServiceDescriptor_def Let_def iv option.case option.sel
    by (intro bound_intros bound_one neatD(1) [OF n(1)] neatD(1) [OF n(2)];
        (code_simp; fail | rule bound_plain; code_simp; fail
        | rule bound_keys [where ks = "[''name'', ''full_name'', ''file'', ''index'', ''options_value'']"],
          simp add: has_keys_def, code_simp))
  moreover have "depth (the (PrintServiceDescriptor sb g d)) k = Some k" for k
    unfolding PrintServiceDescriptor_def Let_def iv option.case option.sel
    by (simp add: depth_append neatD(2) [OF n(1)] neatD(2) [OF n(2)])
  ultimately show ?thesis unfolding ops by (rule neatI)
qed

lemma neat_print_services: "print_services sb g ds = Some ops \<Longrightarrow> neat ops"
proof (induction ds arbitrary: ops)
  case (Cons d ds)
  then obtain a b where "PrintServiceDescriptor sb g d = Some a" "print_services sb g ds = Some b"
    "ops = a @ PrintServiceClass sb g d @ PrintServiceStub sb g d @ [Print [] (lns [''''])] @ b"
    by (auto split: option.splits)
  moreover have "neat [Print [] (lns [''''])]" by (rule neat_plain) code_simp
  ultimately show ?case
    using Cons.IH neat_append neat_service_descriptor neat_service_class by metis
qed (simp add: neat_Nil)

lemma print_services_total:
  assumes "\<forall>d \<in> set ds. \<exists>pre post. file_descriptor_serialized g = pre @ sd_serialized d @ post"
    and "length (file_descriptor_serialized g) < 2 ^ 31"
  shows "\<exists>ops. print_services sb g ds = Some ops"
  using assms(1)
proof (induction ds)
  case (Cons d ds)
  then obtain pre post where "file_descriptor_serialized g = pre @ sd_serialized d @ post" by auto
  from interval_delimits_service [OF this assms(2), of sb]
  have "\<exists>a. PrintServiceDescriptor sb g d = Some a"
    by (auto simp: PrintServiceDescriptor_def Let_def)
  with Cons show ?case by auto
qed simp

text \<open>
  C38: When the file opens, and the serialized file, of less than two gigabytes, contains its serialized
  services, the generator writes the module: no check fails, and the printer accepts every call.
\<close>

theorem python_module_is_written:
  assumes "open_file (StripString sb (RPCZModuleName sb (file_name (fd_id file))) ''.'' CHR ''/'' @ ''.py'')"
    and "\<forall>d \<in> set (fd_services file). \<exists>pre post. fd_serialized file = pre @ sd_serialized d @ post"
    and "length (fd_serialized file) < 2 ^ 31"
  shows "\<exists>calls. py_Generate sb open_file file =
      Some (StripString sb (RPCZModuleName sb (file_name (fd_id file))) ''.'' CHR ''/'' @ ''.py'', calls)
    \<and> neat calls"
proof -
  let ?g = "new_py_generator file\<lparr>file_descriptor_serialized := fd_serialized file\<rparr>"
  obtain ops where ops: "print_services sb ?g (fd_services file) = Some ops"
    using print_services_total [of "fd_services file" ?g sb] assms(2,3) by auto
  have pf: "py_file (new_py_generator file) = file" by (simp add: new_py_generator_def)
  have "Run sb (new_py_generator file) =
      Some (PrintTopBoilerplate (GeneratingDescriptorProto ?g) @ PrintImports sb ?g @ ops)"
    using ops by (simp add: Run_def PrintServices_def Let_def pf)
  with assms(1) show ?thesis
    using neat_print_services [OF ops]
    by (auto simp: py_Generate_def Let_def intro!: neat_append neat_boilerplate neat_imports)
qed

theorem python_module_is_written_witness:
  "\<exists>calls. py_Generate demo_stubs (\<lambda>f. f = ''a_rpcz.py'') (demo_file\<lparr>fd_services := [demo_service]\<rparr>) =
      Some (''a_rpcz.py'', calls) \<and> neat calls"
proof -
  have f: "StripString demo_stubs (RPCZModuleName demo_stubs
      (file_name (fd_id (demo_file\<lparr>fd_services := [demo_service]\<rparr>)))) ''.'' CHR ''/'' @ ''.py'' = ''a_rpcz.py''"
    by (simp add: demo_file_def demo_stubs_def RPCZModuleName_def Let_def py_StripProto_def
        HasSuffixString_def StripSuffixString_def compare_eq_def)
  have "\<forall>d \<in> set (fd_services (demo_file\<lparr>fd_services := [demo_service]\<rparr>)). \<exists>pre post.
      fd_serialized (demo_file\<lparr>fd_services := [demo_service]\<rparr>) = pre @ sd_serialized d @ post"
    by (simp add: demo_service_def demo_file_def)
  from python_module_is_written [where open_file = "\<lambda>f. f = ''a_rpcz.py''", OF f this]
  show ?thesis unfolding f by (simp add: demo_file_def)
qed

section \<open>Names of services\<close>

text \<open>
  The generator gives two services of one file the same module-level name exactly when their names
  are equal up to the case of letters: services named \<open>Foo\<close> and \<open>FOO\<close> overwrite each other's
  descriptor.
\<close>

theorem python_service_names_clash:
  assumes "sd_file a = sd_file b"
  shows "ModuleLevelServiceDescriptorName sb g a = ModuleLevelServiceDescriptorName sb g b
    \<longleftrightarrow> UpperString (sd_name a) = UpperString (sd_name b)"
  using assms by (simp add: ModuleLevelServiceDescriptorName_def Let_def)

theorem python_service_names_clash_witness:
  "ModuleLevelServiceDescriptorName demo_stubs (new_py_generator demo_file) (demo_service\<lparr>sd_name := ''Foo''\<rparr>)
    = ModuleLevelServiceDescriptorName demo_stubs (new_py_generator demo_file) (demo_service\<lparr>sd_name := ''FOO''\<rparr>)"
proof -
  have "UpperString ''Foo'' = UpperString ''FOO''" by code_simp
  then show ?thesis by (simp add: python_service_names_clash)
qed

end
