(* ===== verification/Spec2Isabelle.thy ===== *)
theory Spec2Isabelle
  imports Round_Trip System_Replies Zsendrpc Server_Spec Singleton Callback_Classes Python_Spec
begin

text \<open>
  Verification of rpcz, an RPC library over ZeroMQ and protobuf.

  The program. User threads send requests and replies by writing commands to a socket of their own
  (\<open>src/rpcz/connection.cc\<close>, \<open>manager.cc\<close>). One broker thread (\<open>broker_thread.cc\<close>) runs an event
  loop (\<open>reactor.cc\<close>) over the sockets: it connects and binds, forwards requests and replies, keeps
  the timeouts, and hands incoming messages to worker threads (\<open>worker/worker.cc\<close>) through one command
  queue for each (\<open>worker/workers_commander.cc\<close>). Which worker gets a connection is its hash modulo
  their number. Workers dispatch requests to services (\<open>request_handler.cc\<close>, \<open>cpp_service.cc\<close>) and
  call the response handlers of finished rpcs (\<open>rpc_controller.cc\<close>). Two plugins of the protobuf
  compiler (\<open>plugin/cpp\<close>, \<open>plugin/python\<close>) write the classes users derive their services from.

  The theories.
  \<^item> \<open>Prelude\<close>, \<open>Std_Map\<close>: results with errors, bytes of words, containers of the C++ library.
  \<^item> \<open>Zmq_Utils\<close>, \<open>Connection_Info\<close>, \<open>Worker_Cmd\<close>: frames, iterators, the encoding of connections, the
    worker commands and their queues. Locales: a codec of frames, a command channel.
  \<^item> \<open>Callback\<close>, \<open>Callback_Classes\<close>: closures (\<open>callback.hpp\<close>); every class of the header, for 0 to 7
    arguments, is shown to run as the generic closure the other theories use.
  \<^item> \<open>Reactor\<close>: the loop over the closures of its client, which is a locale (what a closure keeps), and
    its timers; \<open>Broker\<close>, \<open>Broker_Inv\<close>, \<open>Broker_Spec\<close>: every handler of the broker, the invariant of
    its reachable states, and what each command and message does, frame by frame. The broker
    interprets the locales of the reactor.
  \<^item> \<open>Rpc_Controller\<close>, \<open>Manager\<close>, \<open>Connection\<close>, \<open>Services\<close>: errors and controllers, the operations
    user threads call, as the frames they write, and the dispatch of requests.
  \<^item> \<open>Worker\<close>, \<open>Worker_Spec\<close>, \<open>Worker_Refine\<close>: the loop of a worker, the conservation of response
    handlers, the dispatch of requests, and the refinement of a table of pending rpcs.
  \<^item> \<open>Rpc_Path\<close>, \<open>Round_Trip\<close>: the composition, from a request of a user thread over both brokers to the
    method, from the reply back to the response handler, and both together as one rpc. A connection is
    used in both directions (\<open>examples/cpp/full_duplex\<close>): the side that bound the endpoint may call too,
    as long as it has not unbound it (\<open>conn_live\<close>).
  \<^item> \<open>Runs\<close>, \<open>System\<close>, \<open>System_Inv\<close>, \<open>System_Spec\<close>, \<open>System_Time\<close>, \<open>System_Replies\<close>, \<open>System_Sync\<close>: a whole process that
    runs, its threads, its broker and its workers interleaving in any way, with any messages from the
    network and any passing of time. In every run each controller has one owner, the process implements
    the table of pending rpcs, no step of an rpc fails, no timeout is lost, and an rpc with a timeout can
    always be brought to an end; a worker writes only replies, on its own socket; and the blocking call
    (\<open>sync_requester.cc\<close>) returns when the controller of its request is gone, with its one outcome.
    Locales: an invariant of steps, a simulation of steps by an abstract state.
  \<^item> \<open>Server_Spec\<close>: servers from \<open>server.cc\<close> to the dispatch in a worker, with two races at their ends.
  \<^item> \<open>Zsendrpc\<close>: the command line tool.
  \<^item> \<open>Manager_Life\<close>: \<open>application.cc\<close>, and the constructor and the destructor of the manager, which
    establish what the theories of the broker and of the workers assume, and end both.
  \<^item> \<open>Singleton\<close>: \<open>manager_dyn_singleton_helper.cc\<close>, as steps of threads that interleave: there is one
    manager at most, no pointer to it dangles, and threads that ask for one are served, but for two
    ways to get stuck for ever.
  \<^item> \<open>Strutil\<close>, \<open>Printer\<close>, \<open>Cpp_Helpers\<close>, \<open>Cpp_Service\<close>, \<open>Cpp_File\<close>, \<open>Cpp_Spec\<close>, \<open>Python_File\<close>,
    \<open>Python_Spec\<close>: the generators, as the calls they make on protobuf's printer, and what these calls
    guarantee.

  Conventions. An operation that can fail returns \<open>error + 'a\<close>; a failed \<open>BOOST_ASSERT\<close> or \<open>CHECK\<close>, the
  use of a deleted object, an index out of range, an uncaught exception and a wait that cannot end are
  errors of their own. Pointers are 64-bit words, objects are on maps from pointers. Numbers have the
  width of the source: an event is a 64-bit word, the number of workers a 32-bit one.
  A socket is the frames still to be received and the frames sent.

  Parameters. ZeroMQ: whether connecting and binding succeed, the addresses of new sockets, the result
  of each poll. Boost: the combining of hashes, the conversion of numbers to text. Protobuf: the
  codec of headers, the lookup of methods, the parsing of payloads, and the string functions that
  \<open>strutil.h\<close> declares and does not define. The code of users: which method of which class is called, which
  response handler, are entries of a list of calls, in order.
  Where a property needs it, protobuf is assumed to parse what it serialized, and its numbers and
  hexadecimal codes to be as documented.

  Bounds. Only the rounds of the event loop are given in advance, as a list of what each poll returns:
  a statement about all reachable states holds for lists of any length. Every other loop ends by
  structural recursion or a measure.

  Not modelled. The scheduling of threads within one operation: each handler of the broker, each
  command of a worker and each operation of a thread is a step, which the queues and sockets make
  independent. The steps of \<open>System\<close> hand the broker whole commands and messages, as ZeroMQ does; they do
  not stop the process, which \<open>Manager_Life\<close> does. Outside of \<open>Singleton\<close>
  the model is the life of one manager: \<open>manager_get\<close> returns it while it is alive,
  and is the error \<open>Get_Blocked\<close> while it is being destroyed, when a worker never gets one; \<open>Singleton\<close>
  shows both. It takes each use of \<open>mgr_wptr\<close> as atomic, and so is each section under
  \<open>mgr_exists_mtx\<close>; managers are numbers there.
  The bindings for Python (\<open>pywraprpcz.cpp\<close> is generated from a file that is written against classes the
  library no longer has), logging,
  and the parts of protobuf that are copied under \<open>plugin/common\<close> and not used by the generators.
\<close>

end
